(* ===== verification/Prelude.thy ===== *)
theory Prelude
  imports Complex_Main "HOL-Library.List_Lexorder" "HOL-Library.Char_ord"
begin

text \<open>
  Shared vocabulary of the Med-Vis development: the JavaScript array and set
  built-ins the components call (\<open>indexOf\<close>, reading \<open>arr[i]\<close>,
  \<open>Array.from(new Set(xs))\<close>), written as executable HOL functions with the
  JavaScript behaviour at the edges (\<open>-1\<close> for a missing element,
  \<open>undefined\<close> as \<open>None\<close>), and the generic counting lemmas that the
  Sankey and chord builders share. The collection \<open>js_simps\<close> gathers the
  rewrite rules of these built-ins.
\<close>

named_theorems js_simps "rewrite rules for the JavaScript built-ins of the model"

type_synonym timestamp = nat

subsection \<open>\<open>Array.prototype.indexOf\<close> and element access\<close>

fun js_index_of :: "'a list \<Rightarrow> 'a \<Rightarrow> int" where
  "js_index_of [] x = -1"
| "js_index_of (y # ys) x =
     (if y = x then 0 else (let i = js_index_of ys x in if i < 0 then -1 else i + 1))"

text \<open>\<open>arr[i]\<close>: \<open>undefined\<close> (here \<open>None\<close>) outside \<open>0 \<le> i < length\<close>.\<close>

definition js_at :: "'a list \<Rightarrow> int \<Rightarrow> 'a option" where
  "js_at xs i = (if 0 \<le> i \<and> i < int (length xs) then Some (xs ! nat i) else None)"

lemma js_index_of_range [js_simps]:
  "-1 \<le> js_index_of xs x \<and> js_index_of xs x < int (length xs)"
  by (induction xs) (auto simp: Let_def)

lemma js_index_of_nonneg_iff [js_simps]: "0 \<le> js_index_of xs x \<longleftrightarrow> x \<in> set xs"
  by (induction xs) (auto simp: Let_def)

lemma js_index_of_missing [js_simps]: "x \<notin> set xs \<Longrightarrow> js_index_of xs x = -1"
  by (induction xs) (auto simp: Let_def)

lemma js_at_index_of [js_simps]: "x \<in> set xs \<Longrightarrow> js_at xs (js_index_of xs x) = Some x"
proof (induction xs)
  case Nil
  then show ?case by simp
next
  case (Cons y ys)
  show ?case
  proof (cases "y = x")
    case True
    then show ?thesis by (simp add: js_at_def)
  next
    case False
    with Cons.prems have x: "x \<in> set ys" by simp
    then have "0 \<le> js_index_of ys x" by (simp add: js_index_of_nonneg_iff)
    moreover have "js_at ys (js_index_of ys x) = Some x" using Cons.IH x by simp
    ultimately show ?thesis using False
      by (auto simp: js_at_def Let_def nat_add_distrib split: if_splits)
  qed
qed

lemma js_index_of_nth [js_simps]:
  "distinct xs \<Longrightarrow> i < length xs \<Longrightarrow> js_index_of xs (xs ! i) = int i"
proof (induction xs arbitrary: i)
  case Nil
  then show ?case by simp
next
  case (Cons y ys)
  show ?case
  proof (cases i)
    case (Suc j)
    with Cons.prems have "ys ! j \<noteq> y" "js_index_of ys (ys ! j) = int j"
      using Cons.IH [of j] by (auto simp: nth_mem)
    with Suc show ?thesis by (simp add: Let_def)
  qed simp
qed

lemma js_at_Some_set [js_simps]: "js_at xs i = Some x \<Longrightarrow> x \<in> set xs"
  by (auto simp: js_at_def split: if_splits)

subsection \<open>\<open>Array.prototype.findIndex\<close>\<close>

fun js_find_index :: "('a \<Rightarrow> bool) \<Rightarrow> 'a list \<Rightarrow> int" where
  "js_find_index P [] = -1"
| "js_find_index P (x # xs) =
     (if P x then 0 else (let i = js_find_index P xs in if i < 0 then -1 else i + 1))"

lemma js_find_index_neg [js_simps]: "js_find_index P xs < 0 \<longleftrightarrow> (\<forall>x \<in> set xs. \<not> P x)"
  by (induction xs) (auto simp: Let_def)

lemma js_find_index_cases [js_simps]: "js_find_index P xs = -1 \<or> 0 \<le> js_find_index P xs"
  by (induction xs) (auto simp: Let_def)

lemma js_find_index_found [js_simps]:
  "0 \<le> js_find_index P xs \<Longrightarrow> nat (js_find_index P xs) < length xs \<and> P (xs ! nat (js_find_index P xs))"
proof (induction xs)
  case Nil
  then show ?case by simp
next
  case (Cons x xs)
  show ?case
  proof (cases "P x")
    case False
    with Cons.prems have "0 \<le> js_find_index P xs" by (auto simp: Let_def split: if_splits)
    with Cons.IH False show ?thesis by (auto simp: Let_def nat_add_distrib)
  qed simp
qed

lemma js_find_index_eq [js_simps]: "js_find_index (\<lambda>y. y = x) xs = js_index_of xs x"
  by (induction xs) simp_all

subsection \<open>\<open>Array.from(new Set(xs))\<close>: first occurrences in insertion order\<close>

fun set_insert_all :: "'a list \<Rightarrow> 'a list \<Rightarrow> 'a list" where
  "set_insert_all acc [] = acc"
| "set_insert_all acc (x # xs) = set_insert_all (if x \<in> set acc then acc else acc @ [x]) xs"

definition js_set_values :: "'a list \<Rightarrow> 'a list" where
  "js_set_values xs = set_insert_all [] xs"

lemma set_set_insert_all: "set (set_insert_all acc xs) = set acc \<union> set xs"
  by (induction acc xs rule: set_insert_all.induct) auto

lemma distinct_set_insert_all: "distinct acc \<Longrightarrow> distinct (set_insert_all acc xs)"
  by (induction acc xs rule: set_insert_all.induct) auto

lemma set_js_set_values [simp, js_simps]: "set (js_set_values xs) = set xs"
  by (simp add: js_set_values_def set_set_insert_all)

lemma distinct_js_set_values [simp, js_simps]: "distinct (js_set_values xs)"
  by (simp add: js_set_values_def distinct_set_insert_all)

subsection \<open>Counting records by category\<close>

text \<open>
  The builders count, for each category of a list of categories, the records that
  resolve to it. Over distinct categories these counts add up to the number of
  records whose category is one of them: no record is counted twice.
\<close>

lemma sum_list_count_filter:
  assumes "distinct cs"
  shows "(\<Sum>c\<leftarrow>cs. length (filter (\<lambda>r. f r = c) rs)) = length (filter (\<lambda>r. f r \<in> set cs) rs)"
  using assms
proof (induction cs)
  case Nil
  then show ?case by simp
next
  case (Cons c cs)
  have "length (filter (\<lambda>r. f r \<in> set (c # cs)) rs)
      = length (filter (\<lambda>r. f r = c) rs) + length (filter (\<lambda>r. f r \<in> set cs) rs)"
    using Cons.prems by (induction rs) auto
  with Cons show ?case by simp
qed

subsection \<open>Ranges of nested maps\<close>

text \<open>An update adds at most its value to the range of a map; the settings' colour maps
  are maps of maps, so their colours are the union of the inner ranges.\<close>

lemma ran_upd_sub: "ran (m(k \<mapsto> v)) \<subseteq> ran m \<union> {v}"
  by (auto simp: ran_def)

lemma union_ran_upd: "(\<Union>m \<in> ran (cc(c \<mapsto> n)). ran m) \<subseteq> (\<Union>m \<in> ran cc. ran m) \<union> ran n"
  using ran_upd_sub [of cc c n] by blast

lemma ran_map_of_sub: "ran (map_of ys) \<subseteq> snd ` set ys"
  by (auto simp: ran_def dest!: map_of_SomeD intro: rev_image_eqI)

end
