(* ===== verification/Survey.thy ===== *)
theory Survey
  imports Prelude
begin

text \<open>
  The data model shared by every component: the five selectable survey fields
  (\<open>availableFields\<close> of \<open>AlluvialDiagram.tsx\<close> and \<open>ChordDiagram.tsx\<close>), one
  survey response as a record (the \<open>survey_responses\<close> row joined with its
  attendee), and the category resolver: \<open>getYearsCategory\<close> of
  \<open>colorUtils.ts\<close>, \<open>getValidYearsCategory\<close> of \<open>AlluvialDiagram.tsx\<close> and the
  field accessors the diagrams build their nodes from. Categories are strings, as in
  the code, where they become node names.
\<close>

datatype field = YearsAtMedtronic | LearningStyle | ShapedBy | PeakPerformance | Motivation

text \<open>The field keys of the database row, as the selectors pass them around.\<close>

fun field_key :: "field \<Rightarrow> string" where
  "field_key YearsAtMedtronic = ''years_at_medtronic''"
| "field_key LearningStyle = ''learning_style''"
| "field_key ShapedBy = ''shaped_by''"
| "field_key PeakPerformance = ''peak_performance''"
| "field_key Motivation = ''motivation''"

text \<open>The selector order of the Sankey view and the (different) one of the chord view.\<close>

definition alluvialFields :: "field list" where
  "alluvialFields = [YearsAtMedtronic, LearningStyle, ShapedBy, PeakPerformance, Motivation]"

definition chordFields :: "field list" where
  "chordFields = [YearsAtMedtronic, PeakPerformance, LearningStyle, Motivation, ShapedBy]"

text \<open>
  A response row. JavaScript \<open>null\<close> is \<open>None\<close>; the tenure is a JavaScript
  number, read as a real (the database column holds no NaN, and every caller maps a
  falsy tenure to 0 with \<open>|| 0\<close>). \<open>updated_at\<close> is the timestamp the
  \<open>Date\<close> comparison reads; \<open>has_attendee\<close> is whether the joined attendee
  object is present; \<open>test_data\<close> is the truthiness of the row's
  \<open>test_data\<close> flag.
\<close>

record survey_response =
  resp_id :: string
  attendee_id :: string
  years_at_medtronic :: "real option"
  learning_style :: "string option"
  shaped_by :: "string option"
  peak_performance :: "string option"
  motivation :: "string option"
  updated_at :: timestamp
  has_attendee :: bool
  test_data :: bool

subsection \<open>Tenure bands\<close>

definition YEARS_CATEGORIES :: "string list" where
  "YEARS_CATEGORIES = [''0-5'', ''6-10'', ''11-15'', ''16-20'', ''20+'']"

definition getYearsCategory :: "real \<Rightarrow> string" where
  "getYearsCategory years =
     (if years \<le> 5 then ''0-5''
      else if years \<le> 10 then ''6-10''
      else if years \<le> 15 then ''11-15''
      else if years \<le> 20 then ''16-20''
      else ''20+'')"

text \<open>
  The Sankey view's own copy, with its guard for negative input first (its
  \<open>typeof\<close>/NaN test cannot fire on a real).
\<close>

definition getValidYearsCategory :: "real \<Rightarrow> string" where
  "getValidYearsCategory years =
     (if years < 0 then ''0-5''
      else if years \<le> 5 then ''0-5''
      else if years \<le> 10 then ''6-10''
      else if years \<le> 15 then ''11-15''
      else if years \<le> 20 then ''16-20''
      else ''20+'')"

text \<open>\<open>d.years_at_medtronic || 0\<close>.\<close>

definition years_or_zero :: "survey_response \<Rightarrow> real" where
  "years_or_zero r = (case years_at_medtronic r of None \<Rightarrow> 0 | Some y \<Rightarrow> y)"

subsection \<open>Field accessors\<close>

text \<open>\<open>d[field]\<close> for the four string fields.\<close>

fun raw_field :: "field \<Rightarrow> survey_response \<Rightarrow> string option" where
  "raw_field YearsAtMedtronic r = None"
| "raw_field LearningStyle r = learning_style r"
| "raw_field ShapedBy r = shaped_by r"
| "raw_field PeakPerformance r = peak_performance r"
| "raw_field Motivation r = motivation r"

text \<open>
  The accessor of the Sankey render and of the chord matrix: the tenure band for the
  tenure field, the raw string otherwise.
\<close>

definition field_category :: "field \<Rightarrow> survey_response \<Rightarrow> string option" where
  "field_category f r =
     (if f = YearsAtMedtronic then Some (getYearsCategory (years_or_zero r)) else raw_field f r)"

text \<open>JavaScript truthiness of a string field: present and non-empty.\<close>

definition present :: "string option \<Rightarrow> bool" where
  "present v = (case v of None \<Rightarrow> False | Some s \<Rightarrow> s \<noteq> [])"

subsection \<open>Properties of the category resolver\<close>

lemma getYearsCategory_cases:
  "getYearsCategory x \<in> {''0-5'', ''6-10'', ''11-15'', ''16-20'', ''20+''}"
  by (simp add: getYearsCategory_def)

text \<open>Position of a band in the fixed band order, read off the value.\<close>

definition band_rank :: "real \<Rightarrow> int" where
  "band_rank x = (if x \<le> 5 then 0 else if x \<le> 10 then 1 else if x \<le> 15 then 2
                  else if x \<le> 20 then 3 else 4)"

lemma index_getYearsCategory:
  "js_index_of YEARS_CATEGORIES (getYearsCategory x) = band_rank x"
  by (simp add: getYearsCategory_def band_rank_def YEARS_CATEGORIES_def)

lemma band_rank_mono: "x \<le> y \<Longrightarrow> band_rank x \<le> band_rank y"
  by (simp add: band_rank_def)

end
