(* ===== verification/Sequencer.thy ===== *)
theory Sequencer
  imports Survey
begin

text \<open>
  The animation sequencer of the Sankey view (\<open>AlluvialDiagram.tsx\<close>): the
  \<open>animationRef\<close> record, the React state it drives, the \<open>animate\<close> callback
  with its three timer continuations, the animation effect with its cleanup, the
  hover handlers \<open>pauseAnimation\<close>/\<open>resumeAnimation\<close> and the question
  selector. Outstanding \<open>setTimeout\<close> callbacks are kept as a list of
  (handle, callback) pairs, so that the claim "at most one timer is pending" is a
  property of the model and not of its types. A step is one event handler followed by
  the React commit (render, then the effects whose dependencies changed, in source
  order).
\<close>

datatype phase = Full | Highlighting | Transitioning

datatype resume_from = ResumeSource | ResumeTarget

subsection \<open>Durations (\<open>animationDurations\<close>)\<close>

record durations =
  stepDuration :: real
  pauseDuration :: real
  categoryPauseDuration :: real
  linkTransitionDuration :: real

definition animationDurations :: "real \<Rightarrow> bool \<Rightarrow> durations" where
  "animationDurations speed reduced =
     (let baseSpeed = (if speed = 0 then 3000 else speed);
          f = (if reduced then 1 / 2 else 1)
      in \<lparr>stepDuration = max 800 (baseSpeed / 8 * f),
          pauseDuration = max 400 (baseSpeed / 12 * f),
          categoryPauseDuration = max 1500 (baseSpeed / 3 * f),
          linkTransitionDuration = (if reduced then 400 else 750)\<rparr>)"

subsection \<open>Environment, closures, pending callbacks and the state\<close>

text \<open>
  What the component reads and does not write: the \<open>autoPlay\<close> prop, the data
  snapshot (its length, and the number of sorted source categories per source field),
  whether the SVG element is mounted, the speed setting and the reduced-motion
  preference.
\<close>

record seq_env =
  autoPlay :: bool
  data_len :: nat
  svg_ready :: bool
  nsources :: "field \<Rightarrow> nat"
  autoPlaySpeed :: real
  reducedMotion :: bool

text \<open>
  \<open>animate\<close> is a \<open>useCallback\<close> closure: it reads \<open>data.length\<close>,
  \<open>sortedSources.length\<close> and the durations of the render that created it, and its
  timer callbacks call the same closure again.
\<close>

record anim_closure =
  cl_data_len :: nat
  cl_nsrc :: nat
  cl_dur :: durations

datatype callback =
    CbNextSource
  | CbAdvanceTarget "field list"
  | CbTargetResume
  | CbAdvanceSource
  | CbSourceResume

record pending =
  p_cb :: callback
  p_closure :: anim_closure
  p_delay :: real

record seq_state =
  timers :: "(nat \<times> pending) list"
  timer_ref :: "nat option"
  next_handle :: nat
  running :: bool
  currentSourceIndex :: nat
  currentTargetIndex :: nat
  isPaused :: bool
  pausedAt :: timestamp
  resumeFrom :: "resume_from option"
  currentSource :: field
  currentTarget :: field
  srcRef :: field
  tgtRef :: field
  animationPhase :: phase
  hoveredSourceIndex :: "int option"
  hoveredTargetIndex :: "int option"
  isInFullOpacityState :: bool
  isAnimating :: bool
  lastCategoryChange :: "field \<times> field"
  autoPlayEnabled :: bool
  effect_deps :: "(bool \<times> bool \<times> bool \<times> nat \<times> field) option"
  effect_cleanup :: bool
  notified :: "(field \<times> field) list"
  mounted :: bool

subsection \<open>Timers\<close>

text \<open>\<open>animationRef.current.timer = setTimeout(cb, delay)\<close>.\<close>

definition set_timeout :: "pending \<Rightarrow> seq_state \<Rightarrow> seq_state" where
  "set_timeout p s =
     s\<lparr>timers := timers s @ [(next_handle s, p)], timer_ref := Some (next_handle s),
       next_handle := Suc (next_handle s)\<rparr>"

text \<open>\<open>if (timer) { clearTimeout(timer); timer = null; }\<close>\<close>

definition clear_timer :: "seq_state \<Rightarrow> seq_state" where
  "clear_timer s =
     (case timer_ref s of
        None \<Rightarrow> s
      | Some h \<Rightarrow> s\<lparr>timers := filter (\<lambda>(h', _). h' \<noteq> h) (timers s), timer_ref := None\<rparr>)"

subsection \<open>\<open>animate\<close> and its continuations\<close>

definition targetOptions :: "field \<Rightarrow> field list" where
  "targetOptions src = filter (\<lambda>f. f \<noteq> src) alluvialFields"

definition animate :: "anim_closure \<Rightarrow> seq_state \<Rightarrow> seq_state" where
  "animate c s =
     (if isPaused s then s
      else if \<not> running s \<or> cl_data_len c = 0 then s
      else
        let s1 = s\<lparr>animationPhase := Highlighting, isInFullOpacityState := False,
                    hoveredSourceIndex := Some (int (currentSourceIndex s))\<rparr>;
            opts = targetOptions (srcRef s);
            d = cl_dur c
        in if int (currentSourceIndex s) < int (cl_nsrc c) - 1 then
             set_timeout \<lparr>p_cb = CbNextSource, p_closure = c,
                          p_delay = stepDuration d + pauseDuration d\<rparr> s1
           else if int (currentTargetIndex s) < int (length opts) - 1 then
             set_timeout \<lparr>p_cb = CbAdvanceTarget opts, p_closure = c,
                          p_delay = categoryPauseDuration d\<rparr> s1
           else
             set_timeout \<lparr>p_cb = CbAdvanceSource, p_closure = c,
                          p_delay = categoryPauseDuration d\<rparr> s1)"

text \<open>
  The next source field: \<open>sourceOptions[(indexOf(current) + 1) % length]\<close>; the
  index is always found, so the fallback of the \<open>case\<close> is never taken
  (\<open>next_source_Some\<close> below).
\<close>

definition next_source :: "field \<Rightarrow> field" where
  "next_source f =
     (case js_at alluvialFields ((js_index_of alluvialFields f + 1) mod int (length alluvialFields)) of
        Some g \<Rightarrow> g | None \<Rightarrow> f)"

definition first_target :: "field \<Rightarrow> field" where
  "first_target src = (case js_at (targetOptions src) 0 of Some g \<Rightarrow> g | None \<Rightarrow> src)"

text \<open>
  The body of a fired timer. Every continuation first re-checks \<open>running\<close> and
  \<open>isPaused\<close>; the two category continuations change the selected fields, report
  the new pair to \<open>onQuestionChange\<close> and schedule the resume after a pause.
\<close>

fun fire_callback :: "callback \<Rightarrow> anim_closure \<Rightarrow> seq_state \<Rightarrow> seq_state" where
  "fire_callback CbNextSource c s =
     (if \<not> running s \<or> isPaused s then s
      else animate c (s\<lparr>currentSourceIndex := Suc (currentSourceIndex s)\<rparr>))"
| "fire_callback (CbAdvanceTarget opts) c s =
     (if \<not> running s \<or> isPaused s then s
      else
        let i = Suc (currentTargetIndex s);
            nt = (case js_at opts (int i) of Some g \<Rightarrow> g | None \<Rightarrow> currentTarget s);
            s1 = s\<lparr>animationPhase := Transitioning, currentTargetIndex := i,
                   currentTarget := nt, lastCategoryChange := (srcRef s, nt),
                   notified := notified s @ [(srcRef s, nt)], currentSourceIndex := 0\<rparr>
        in set_timeout \<lparr>p_cb = CbTargetResume, p_closure = c,
                        p_delay = categoryPauseDuration (cl_dur c)\<rparr> s1)"
| "fire_callback CbTargetResume c s =
     (if running s \<and> \<not> isPaused s then animate c s else s)"
| "fire_callback CbAdvanceSource c s =
     (if \<not> running s \<or> isPaused s then s
      else
        let ns = next_source (srcRef s);
            ft = first_target ns;
            s1 = s\<lparr>animationPhase := Transitioning, currentSource := ns,
                   currentSourceIndex := 0, currentTargetIndex := 0, currentTarget := ft,
                   lastCategoryChange := (ns, ft), notified := notified s @ [(ns, ft)]\<rparr>
        in set_timeout \<lparr>p_cb = CbSourceResume, p_closure = c,
                        p_delay = categoryPauseDuration (cl_dur c) * 3 / 2\<rparr> s1)"
| "fire_callback CbSourceResume c s =
     (if running s \<and> \<not> isPaused s then animate c s else s)"

subsection \<open>The animation effect and the React commit\<close>

text \<open>The closure \<open>animate\<close> of the current render.\<close>

definition closure_of :: "seq_env \<Rightarrow> seq_state \<Rightarrow> anim_closure" where
  "closure_of env s =
     \<lparr>cl_data_len = data_len env, cl_nsrc = nsources env (currentSource s),
      cl_dur = animationDurations (autoPlaySpeed env) (reducedMotion env)\<rparr>"

text \<open>The cleanup the effect returns from its main branch.\<close>

definition effect_cleanup_run :: "seq_state \<Rightarrow> seq_state" where
  "effect_cleanup_run s =
     (clear_timer s)\<lparr>running := False, animationPhase := Full, isInFullOpacityState := True\<rparr>"

text \<open>
  The effect body: the two disabling branches stop the animation and return no
  cleanup; no data or no SVG returns without touching anything; otherwise the cycle
  is started (indices reset) unless it is already running, and the cleanup is
  returned.
\<close>

definition effect_body :: "seq_env \<Rightarrow> seq_state \<Rightarrow> seq_state" where
  "effect_body env s =
     (if \<not> autoPlay env \<or> \<not> autoPlayEnabled s then
        (clear_timer s)\<lparr>running := False, animationPhase := Full,
                        isInFullOpacityState := True, effect_cleanup := False\<rparr>
      else if \<not> isAnimating s then
        (clear_timer s)\<lparr>running := False, animationPhase := Full,
                        isInFullOpacityState := True, effect_cleanup := False\<rparr>
      else if data_len env = 0 then s\<lparr>effect_cleanup := False\<rparr>
      else if \<not> svg_ready env then s\<lparr>effect_cleanup := False\<rparr>
      else
        (if \<not> running s then
           animate (closure_of env s)
             (s\<lparr>running := True, currentSourceIndex := 0, currentTargetIndex := 0\<rparr>)
         else s)\<lparr>effect_cleanup := True\<rparr>)"

definition effect_deps_of :: "seq_env \<Rightarrow> seq_state \<Rightarrow> bool \<times> bool \<times> bool \<times> nat \<times> field" where
  "effect_deps_of env s =
     (autoPlay env, autoPlayEnabled s, isAnimating s, data_len env, currentSource s)"

text \<open>
  The commit: the two ref-syncing effects run first (they are declared first), then
  the animation effect, only when one of its dependencies changed, after the cleanup
  of its previous run if that run returned one.
\<close>

definition commit :: "seq_env \<Rightarrow> seq_state \<Rightarrow> seq_state" where
  "commit env s =
     (let s1 = s\<lparr>srcRef := currentSource s, tgtRef := currentTarget s\<rparr>;
          deps = effect_deps_of env s1
      in if effect_deps s1 = Some deps then s1
         else
           let s2 = (if effect_cleanup s1 then effect_cleanup_run s1 else s1)
           in effect_body env (s2\<lparr>effect_deps := Some deps\<rparr>))"

subsection \<open>Interaction handlers\<close>

definition pauseAnimation :: "timestamp \<Rightarrow> seq_state \<Rightarrow> seq_state" where
  "pauseAnimation now s =
     (if running s \<and> \<not> isPaused s then (clear_timer s)\<lparr>isPaused := True, pausedAt := now\<rparr>
      else s)"

definition resumeAnimation :: "seq_env \<Rightarrow> seq_state \<Rightarrow> seq_state" where
  "resumeAnimation env s =
     (if running s \<and> isPaused s then
        animate (closure_of env s) (s\<lparr>isPaused := False, resumeFrom := Some ResumeSource\<rparr>)
      else s)"

text \<open>
  \<open>mouseenter\<close> on a link or node: pause, \<open>setIsAnimating(false)\<close>, highlight,
  and record the hovered source and/or target index (a node sets only its own side).
\<close>

definition on_enter :: "timestamp \<Rightarrow> int option \<Rightarrow> int option \<Rightarrow> seq_state \<Rightarrow> seq_state" where
  "on_enter now si ti s =
     (let s1 = pauseAnimation now s
      in s1\<lparr>isAnimating := False, animationPhase := Highlighting,
            hoveredSourceIndex := (case si of None \<Rightarrow> hoveredSourceIndex s1 | Some i \<Rightarrow> Some i),
            hoveredTargetIndex := (case ti of None \<Rightarrow> hoveredTargetIndex s1 | Some i \<Rightarrow> Some i)\<rparr>)"

definition on_leave :: "seq_env \<Rightarrow> seq_state \<Rightarrow> seq_state" where
  "on_leave env s =
     (resumeAnimation env s)\<lparr>isAnimating := True, hoveredSourceIndex := None,
                             hoveredTargetIndex := None, animationPhase := Full\<rparr>"

text \<open>
  The question selector: an option equal to the other side is disabled, so it cannot
  be chosen; a choice sets both fields and \<open>lastCategoryChange\<close>.
\<close>

definition select_fields :: "field \<Rightarrow> field \<Rightarrow> seq_state \<Rightarrow> seq_state" where
  "select_fields src tgt s =
     (if src = tgt then s
      else s\<lparr>currentSource := src, currentTarget := tgt, lastCategoryChange := (src, tgt)\<rparr>)"

subsection \<open>Events, steps and runs\<close>

datatype event =
    Fire nat
  | Enter timestamp "int option" "int option"
  | Leave
  | SelectSource field
  | SelectTarget field
  | ToggleAutoPlay
  | Unmount

text \<open>
  A fired timer leaves the outstanding set and runs its callback; a handle that is not
  outstanding (cleared, or already fired) fires nothing.
\<close>

definition fire :: "nat \<Rightarrow> seq_state \<Rightarrow> seq_state" where
  "fire h s =
     (case map_of (timers s) h of
        None \<Rightarrow> s
      | Some p \<Rightarrow> fire_callback (p_cb p) (p_closure p)
                   (s\<lparr>timers := filter (\<lambda>(h', _). h' \<noteq> h) (timers s)\<rparr>))"

fun handle :: "seq_env \<Rightarrow> seq_state \<Rightarrow> event \<Rightarrow> seq_state" where
  "handle env s (Fire h) = fire h s"
| "handle env s (Enter now si ti) = on_enter now si ti s"
| "handle env s Leave = on_leave env s"
| "handle env s (SelectSource f) = select_fields f (currentTarget s) s"
| "handle env s (SelectTarget f) = select_fields (currentSource s) f s"
| "handle env s ToggleAutoPlay = s\<lparr>autoPlayEnabled := \<not> autoPlayEnabled s\<rparr>"
| "handle env s Unmount = s"

text \<open>
  Unmounting runs the pending cleanup and drops the component; afterwards only timers
  that are still outstanding can run, and they find \<open>running\<close> false.
\<close>

definition unmount :: "seq_state \<Rightarrow> seq_state" where
  "unmount s =
     (if effect_cleanup s then (clear_timer s)\<lparr>running := False, mounted := False\<rparr>
      else s\<lparr>mounted := False\<rparr>)"

definition step :: "seq_env \<Rightarrow> seq_state \<Rightarrow> event \<Rightarrow> seq_state" where
  "step env s e =
     (if e = Unmount then (if mounted s then unmount s else s)
      else if mounted s then commit env (handle env s e)
      else (case e of Fire h \<Rightarrow> fire h s | _ \<Rightarrow> s))"

fun run :: "seq_env \<Rightarrow> seq_state \<Rightarrow> event list \<Rightarrow> seq_state" where
  "run env s [] = s"
| "run env s (e # es) = run env (step env s e) es"

text \<open>The state \<open>useState\<close>/\<open>useRef\<close> create, and the first commit.\<close>

definition init_state :: "bool \<Rightarrow> timestamp \<Rightarrow> seq_state" where
  "init_state enabled now =
     \<lparr>timers = [], timer_ref = None, next_handle = 0, running = False,
      currentSourceIndex = 0, currentTargetIndex = 0, isPaused = False, pausedAt = now,
      resumeFrom = None, currentSource = YearsAtMedtronic, currentTarget = LearningStyle,
      srcRef = YearsAtMedtronic, tgtRef = LearningStyle, animationPhase = Full,
      hoveredSourceIndex = None, hoveredTargetIndex = None, isInFullOpacityState = False,
      isAnimating = True, lastCategoryChange = (YearsAtMedtronic, LearningStyle),
      autoPlayEnabled = enabled, effect_deps = None, effect_cleanup = False,
      notified = [], mounted = True\<rparr>"

definition mount :: "seq_env \<Rightarrow> bool \<Rightarrow> timestamp \<Rightarrow> seq_state" where
  "mount env enabled now = commit env (init_state enabled now)"

subsection \<open>The sequencer invariant\<close>

text \<open>
  The closure a timer of the current source field carries, and what a pending timer
  must satisfy: it belongs to the cycle of the source field the refs hold, and an
  \<open>AdvanceTarget\<close> timer reads an in-range target option that is not the source.
\<close>

definition closure_for :: "seq_env \<Rightarrow> field \<Rightarrow> anim_closure" where
  "closure_for env f =
     \<lparr>cl_data_len = data_len env, cl_nsrc = nsources env f,
      cl_dur = animationDurations (autoPlaySpeed env) (reducedMotion env)\<rparr>"

definition pending_ok :: "seq_env \<Rightarrow> seq_state \<Rightarrow> pending \<Rightarrow> bool" where
  "pending_ok env s p \<longleftrightarrow>
     p_closure p = closure_for env (srcRef s) \<and>
     (\<forall>opts. p_cb p = CbAdvanceTarget opts \<longrightarrow>
        opts = targetOptions (srcRef s) \<and> Suc (currentTargetIndex s) < length opts)"

lemma closure_of_for: "closure_of env s = closure_for env (currentSource s)"
  by (simp add: closure_of_def closure_for_def)

lemma length_targetOptions: "length (targetOptions f) = 4"
  by (cases f) (simp_all add: targetOptions_def alluvialFields_def)

lemma set_targetOptions: "set (targetOptions f) = UNIV - {f}"
  by (cases f; auto simp: targetOptions_def alluvialFields_def intro: field.exhaust)

definition highlight_step :: "seq_state \<Rightarrow> seq_state" where
  "highlight_step s = s\<lparr>animationPhase := Highlighting, isInFullOpacityState := False,
                    hoveredSourceIndex := Some (int (currentSourceIndex s))\<rparr>"

definition animate_pending :: "anim_closure \<Rightarrow> seq_state \<Rightarrow> pending" where
  "animate_pending c s =
     (let opts = targetOptions (srcRef s); d = cl_dur c in
      if int (currentSourceIndex s) < int (cl_nsrc c) - 1 then
        \<lparr>p_cb = CbNextSource, p_closure = c, p_delay = stepDuration d + pauseDuration d\<rparr>
      else if int (currentTargetIndex s) < int (length opts) - 1 then
        \<lparr>p_cb = CbAdvanceTarget opts, p_closure = c, p_delay = categoryPauseDuration d\<rparr>
      else \<lparr>p_cb = CbAdvanceSource, p_closure = c, p_delay = categoryPauseDuration d\<rparr>)"

lemma animate_eq:
  "animate c s = (if isPaused s \<or> \<not> running s \<or> cl_data_len c = 0 then s
                  else set_timeout (animate_pending c s) (highlight_step s))"
  unfolding animate_def animate_pending_def highlight_step_def Let_def by auto

lemma animate_pending_closure [simp]: "p_closure (animate_pending c s) = c"
  by (simp add: animate_pending_def Let_def)

lemma animate_pending_target:
  "p_cb (animate_pending c s) = CbAdvanceTarget opts \<Longrightarrow>
   opts = targetOptions (srcRef s) \<and> Suc (currentTargetIndex s) < length opts"
  by (auto simp: animate_pending_def Let_def length_targetOptions split: if_splits)


definition seq_inv :: "seq_env \<Rightarrow> seq_state \<Rightarrow> bool" where
  "seq_inv env s \<longleftrightarrow>
     length (timers s) \<le> 1 \<and>
     (\<forall>(h, p) \<in> set (timers s). timer_ref s = Some h \<and> running s \<and> \<not> isPaused s \<and> pending_ok env s p) \<and>
     (running s \<longrightarrow> effect_cleanup s \<and> mounted s \<and> autoPlay env \<and> autoPlayEnabled s \<and>
        isAnimating s \<and> 0 < data_len env \<and> svg_ready env) \<and>
     (running s \<and> \<not> isPaused s \<longrightarrow> timers s \<noteq> []) \<and>
     (mounted s \<longrightarrow> effect_deps s = Some (effect_deps_of env s)) \<and>
     srcRef s = currentSource s \<and> tgtRef s = currentTarget s \<and>
     currentSource s \<noteq> currentTarget s \<and>
     lastCategoryChange s = (currentSource s, currentTarget s)"

definition core_inv :: "seq_env \<Rightarrow> seq_state \<Rightarrow> bool" where
  "core_inv env s \<longleftrightarrow>
     length (timers s) \<le> 1 \<and>
     (\<forall>(h, p) \<in> set (timers s). timer_ref s = Some h \<and> running s \<and> \<not> isPaused s \<and> pending_ok env s p) \<and>
     (running s \<longrightarrow> effect_cleanup s \<and> autoPlay env \<and> 0 < data_len env \<and> svg_ready env) \<and>
     mounted s \<and>
     (\<exists>en an. effect_deps s = Some (autoPlay env, en, an, data_len env, srcRef s) \<and>
        (running s \<longrightarrow> en \<and> an)) \<and>
     currentSource s \<noteq> currentTarget s \<and>
     lastCategoryChange s = (currentSource s, currentTarget s)"

definition pre_inv :: "seq_env \<Rightarrow> seq_state \<Rightarrow> bool" where
  "pre_inv env s \<longleftrightarrow> core_inv env s \<and> (running s \<and> \<not> isPaused s \<longrightarrow> timers s \<noteq> [])"

lemma timers_le1_cases: "length xs \<le> 1 \<Longrightarrow> xs = [] \<or> (\<exists>h p. xs = [(h, p)])"
  by (cases xs) auto

lemma clear_timer_single:
  "timers s = [(h, p)] \<Longrightarrow> timer_ref s = Some h \<Longrightarrow> timers (clear_timer s) = []"
  by (simp add: clear_timer_def)

lemma clear_timer_empty: "timers s = [] \<Longrightarrow> timers (clear_timer s) = []"
  by (simp add: clear_timer_def split: option.splits)

lemma clear_timer_other [simp]:
  "running (clear_timer s) = running s" "isPaused (clear_timer s) = isPaused s"
  "currentSource (clear_timer s) = currentSource s" "currentTarget (clear_timer s) = currentTarget s"
  "srcRef (clear_timer s) = srcRef s" "tgtRef (clear_timer s) = tgtRef s"
  "lastCategoryChange (clear_timer s) = lastCategoryChange s"
  "autoPlayEnabled (clear_timer s) = autoPlayEnabled s" "isAnimating (clear_timer s) = isAnimating s"
  "effect_deps (clear_timer s) = effect_deps s" "effect_cleanup (clear_timer s) = effect_cleanup s"
  "mounted (clear_timer s) = mounted s" "currentTargetIndex (clear_timer s) = currentTargetIndex s"
  "currentSourceIndex (clear_timer s) = currentSourceIndex s" "notified (clear_timer s) = notified s"
  by (simp_all add: clear_timer_def split: option.splits)

text \<open>The cleanup of the previous run, or its absence, leaves no timer and no cycle.\<close>

lemma cleanup_quiet:
  assumes "length (timers s) \<le> 1"
    and "\<forall>(h, p) \<in> set (timers s). timer_ref s = Some h \<and> running s"
    and "running s \<longrightarrow> effect_cleanup s"
  defines "s2 \<equiv> (if effect_cleanup s then effect_cleanup_run s else s)"
  shows "timers s2 = [] \<and> \<not> running s2"
proof (cases "effect_cleanup s")
  case True
  from assms(1,2) have "timers s = [] \<or> (\<exists>h p. timers s = [(h, p)] \<and> timer_ref s = Some h)"
    by (cases "timers s" rule: list.exhaust; force)
  then have "timers (clear_timer s) = []" by (auto intro: clear_timer_empty clear_timer_single)
  with True show ?thesis by (simp add: s2_def effect_cleanup_run_def)
next
  case False
  with assms(3) have "\<not> running s" by simp
  moreover from this assms(2) have "timers s = []"
    by (cases "timers s") auto
  ultimately show ?thesis using False by (simp add: s2_def)
qed

lemma set_timeout_fields [simp]:
  "timers (set_timeout p s) = timers s @ [(next_handle s, p)]"
  "timer_ref (set_timeout p s) = Some (next_handle s)"
  "running (set_timeout p s) = running s" "isPaused (set_timeout p s) = isPaused s"
  "currentSource (set_timeout p s) = currentSource s" "currentTarget (set_timeout p s) = currentTarget s"
  "srcRef (set_timeout p s) = srcRef s" "tgtRef (set_timeout p s) = tgtRef s"
  "lastCategoryChange (set_timeout p s) = lastCategoryChange s"
  "autoPlayEnabled (set_timeout p s) = autoPlayEnabled s" "isAnimating (set_timeout p s) = isAnimating s"
  "effect_deps (set_timeout p s) = effect_deps s" "effect_cleanup (set_timeout p s) = effect_cleanup s"
  "mounted (set_timeout p s) = mounted s" "currentTargetIndex (set_timeout p s) = currentTargetIndex s"
  "currentSourceIndex (set_timeout p s) = currentSourceIndex s" "notified (set_timeout p s) = notified s"
  by (simp_all add: set_timeout_def)

lemma highlight_step_fields [simp]:
  "timers (highlight_step s) = timers s" "next_handle (highlight_step s) = next_handle s"
  "running (highlight_step s) = running s" "isPaused (highlight_step s) = isPaused s"
  "currentSource (highlight_step s) = currentSource s" "currentTarget (highlight_step s) = currentTarget s"
  "srcRef (highlight_step s) = srcRef s" "tgtRef (highlight_step s) = tgtRef s"
  "lastCategoryChange (highlight_step s) = lastCategoryChange s"
  "autoPlayEnabled (highlight_step s) = autoPlayEnabled s" "isAnimating (highlight_step s) = isAnimating s"
  "effect_deps (highlight_step s) = effect_deps s" "effect_cleanup (highlight_step s) = effect_cleanup s"
  "mounted (highlight_step s) = mounted s" "currentTargetIndex (highlight_step s) = currentTargetIndex s"
  "currentSourceIndex (highlight_step s) = currentSourceIndex s" "notified (highlight_step s) = notified s"
  by (simp_all add: highlight_step_def)

text \<open>Starting the cycle from a quiet state schedules exactly one well-formed timer.\<close>

lemma start_cycle_inv:
  assumes quiet: "timers s = []" "\<not> running s"
    and conf: "srcRef s = currentSource s" "tgtRef s = currentTarget s"
      "currentSource s \<noteq> currentTarget s" "lastCategoryChange s = (currentSource s, currentTarget s)"
      "effect_deps s = Some (effect_deps_of env s)" "mounted s"
    and go: "autoPlay env" "autoPlayEnabled s" "isAnimating s" "0 < data_len env" "svg_ready env"
  defines "s' \<equiv> s\<lparr>running := True, currentSourceIndex := 0, currentTargetIndex := 0\<rparr>"
  shows "seq_inv env ((animate (closure_of env s') s')\<lparr>effect_cleanup := True\<rparr>)"
proof (cases "isPaused s")
  case True
  then show ?thesis using assms
    by (simp add: seq_inv_def animate_eq effect_deps_of_def)
next
  case False
  let ?p = "animate_pending (closure_of env s') s'"
  have cl: "cl_data_len (closure_of env s') = data_len env"
    by (simp add: closure_of_def)
  have ok: "pending_ok env (set_timeout ?p (highlight_step s')) ?p"
    using conf animate_pending_target [of "closure_of env s'" s']
    by (auto simp: pending_ok_def closure_of_for s'_def)
  have ok': "pending_ok env ((set_timeout ?p (highlight_step s'))\<lparr>effect_cleanup := True\<rparr>) ?p"
    using ok by (simp add: pending_ok_def)
  show ?thesis using assms False cl ok'
    by (simp add: seq_inv_def animate_eq effect_deps_of_def)
qed


lemma effect_body_inv:
  assumes quiet: "timers s = []" "\<not> running s"
    and conf: "srcRef s = currentSource s" "tgtRef s = currentTarget s"
      "currentSource s \<noteq> currentTarget s" "lastCategoryChange s = (currentSource s, currentTarget s)"
      "effect_deps s = Some (effect_deps_of env s)" "mounted s"
  shows "seq_inv env (effect_body env s)"
proof -
  have stop: "seq_inv env ((clear_timer s)\<lparr>running := False, animationPhase := Full,
                  isInFullOpacityState := True, effect_cleanup := False\<rparr>)"
    using assms clear_timer_empty [OF quiet(1)] by (simp add: seq_inv_def effect_deps_of_def)
  have idle: "seq_inv env (s\<lparr>effect_cleanup := False\<rparr>)"
    using assms by (simp add: seq_inv_def effect_deps_of_def)
  have cl: "closure_of env s =
      closure_of env (s\<lparr>running := True, currentSourceIndex := 0, currentTargetIndex := 0\<rparr>)"
    by (simp add: closure_of_def)
  show ?thesis
    unfolding effect_body_def
    using stop idle start_cycle_inv [OF quiet conf] quiet(2) cl by auto
qed

lemma commit_inv:
  assumes "pre_inv env s"
  shows "seq_inv env (commit env s)"
proof -
  let ?s1 = "s\<lparr>srcRef := currentSource s, tgtRef := currentTarget s\<rparr>"
  let ?deps = "effect_deps_of env ?s1"
  show ?thesis
  proof (cases "effect_deps ?s1 = Some ?deps")
    case True
    then have same: "currentSource s = srcRef s" "autoPlay env = autoPlay env"
      using assms by (auto simp: pre_inv_def core_inv_def effect_deps_of_def)
    have "pending_ok env ?s1 p = pending_ok env s p" for p
      using same by (simp add: pending_ok_def)
    with True assms same show ?thesis
      by (auto simp: commit_def Let_def seq_inv_def pre_inv_def core_inv_def effect_deps_of_def)
  next
    case False
    define s2 where "s2 = (if effect_cleanup ?s1 then effect_cleanup_run ?s1 else ?s1)"
    have q: "timers s2 = [] \<and> \<not> running s2"
      unfolding s2_def by (rule cleanup_quiet) (use assms in \<open>auto simp: pre_inv_def core_inv_def\<close>)
    have c: "srcRef s2 = currentSource s2" "tgtRef s2 = currentTarget s2"
        "currentSource s2 \<noteq> currentTarget s2"
        "lastCategoryChange s2 = (currentSource s2, currentTarget s2)" "mounted s2"
        "effect_deps_of env s2 = ?deps"
      using assms by (auto simp: s2_def pre_inv_def core_inv_def effect_cleanup_run_def effect_deps_of_def)
    have "seq_inv env (effect_body env (s2\<lparr>effect_deps := Some ?deps\<rparr>))"
      by (rule effect_body_inv) (use q c in \<open>simp_all add: effect_deps_of_def\<close>)
    with False show ?thesis by (simp add: commit_def Let_def s2_def)
  qed
qed


lemma seq_inv_core: "seq_inv env s \<Longrightarrow> mounted s \<Longrightarrow> pre_inv env s"
  by (auto simp: seq_inv_def pre_inv_def core_inv_def effect_deps_of_def)

lemma pending_ok_cong:
  "srcRef t = srcRef s \<Longrightarrow> currentTargetIndex t = currentTargetIndex s \<Longrightarrow>
   pending_ok env t p = pending_ok env s p"
  by (simp add: pending_ok_def)

lemma animate_pre_inv:
  assumes "core_inv env s" "timers s = []" "c = closure_for env (srcRef s)"
  shows "pre_inv env (animate c s)"
proof (cases "isPaused s \<or> \<not> running s \<or> cl_data_len c = 0")
  case True
  with assms show ?thesis
    by (auto simp: animate_eq pre_inv_def core_inv_def closure_for_def)
next
  case False
  let ?p = "animate_pending c s"
  have "pending_ok env (set_timeout ?p (highlight_step s)) ?p"
    using assms(3) animate_pending_target [of c s] by (auto simp: pending_ok_def)
  with assms False show ?thesis
    by (auto simp: animate_eq pre_inv_def core_inv_def)
qed


lemma first_target_ne: "first_target f \<noteq> f"
  by (cases f) (simp_all add: first_target_def targetOptions_def alluvialFields_def js_at_def)

lemma advance_target_ne:
  assumes "opts = targetOptions f" "Suc i < length opts"
  shows "(case js_at opts (int (Suc i)) of Some g \<Rightarrow> g | None \<Rightarrow> t) \<noteq> f"
proof -
  have "js_at opts (int (Suc i)) = Some (opts ! Suc i)"
    using assms(2) by (simp add: js_at_def del: of_nat_Suc)
  moreover have "opts ! Suc i \<in> set (targetOptions f)"
    using assms by (metis nth_mem)
  ultimately show ?thesis by (simp add: set_targetOptions)
qed

lemma fire_single:
  assumes "seq_inv env s" "map_of (timers s) h = Some p"
  shows "timers s = [(h, p)] \<and> timer_ref s = Some h \<and> running s \<and> \<not> isPaused s \<and>
         pending_ok env s p \<and> fire h s = fire_callback (p_cb p) (p_closure p) (s\<lparr>timers := []\<rparr>)"
proof -
  from assms(2) have mem: "(h, p) \<in> set (timers s)" by (rule map_of_SomeD)
  with assms(1) have "timers s = [(h, p)]"
    unfolding seq_inv_def by (cases "timers s" rule: list.exhaust; auto)
  with assms mem show ?thesis
    by (auto simp: seq_inv_def fire_def)
qed

lemma fire_pre_inv:
  assumes inv: "seq_inv env s" and m: "mounted s"
  shows "pre_inv env (fire h s)"
proof (cases "map_of (timers s) h")
  case None
  then show ?thesis using seq_inv_core [OF inv m] by (simp add: fire_def)
next
  case (Some p)
  note single = fire_single [OF inv Some]
  let ?s0 = "s\<lparr>timers := []\<rparr>"
  let ?c = "p_closure p"
  have core0: "core_inv env ?s0"
    using inv m by (auto simp: seq_inv_def core_inv_def effect_deps_of_def)
  have c: "?c = closure_for env (srcRef s)"
    using single by (simp add: pending_ok_def)
  have run: "running s" "\<not> isPaused s" using single by simp_all
  show ?thesis
  proof (cases "p_cb p")
    case CbNextSource
    have "core_inv env (?s0\<lparr>currentSourceIndex := Suc (currentSourceIndex s)\<rparr>)"
      using core0 by (simp add: core_inv_def pending_ok_def)
    from animate_pre_inv [OF this] c run CbNextSource single show ?thesis by simp
  next
    case CbTargetResume
    from animate_pre_inv [OF core0] c run CbTargetResume single show ?thesis by simp
  next
    case CbSourceResume
    from animate_pre_inv [OF core0] c run CbSourceResume single show ?thesis by simp
  next
    case (CbAdvanceTarget opts)
    have o: "opts = targetOptions (srcRef s)" "Suc (currentTargetIndex s) < length opts"
      using conjunct1 [OF conjunct2 [OF conjunct2 [OF conjunct2 [OF conjunct2 [OF single]]]]]
        CbAdvanceTarget unfolding pending_ok_def by metis+
    have ne: "(case js_at opts (int (Suc (currentTargetIndex s))) of Some g \<Rightarrow> g
               | None \<Rightarrow> currentTarget s) \<noteq> srcRef s"
      by (rule advance_target_ne [OF o])
    have sr: "srcRef s = currentSource s" using inv by (simp add: seq_inv_def)
    have eq: "fire h s = fire_callback (CbAdvanceTarget opts) ?c ?s0"
      using single CbAdvanceTarget by simp
    show ?thesis
      unfolding eq using core0 run ne sr c
      by (auto simp: pre_inv_def core_inv_def pending_ok_def Let_def split: option.splits)
  next
    case CbAdvanceSource
    have sr: "srcRef s = currentSource s" using inv by (simp add: seq_inv_def)
    have eq: "fire h s = fire_callback CbAdvanceSource ?c ?s0"
      using single CbAdvanceSource by simp
    show ?thesis
      unfolding eq using core0 run sr c first_target_ne [of "next_source (srcRef s)"]
      by (auto simp: pre_inv_def core_inv_def pending_ok_def Let_def)
  qed
qed


lemma seq_inv_quiet:
  "seq_inv env s \<Longrightarrow> \<not> (running s \<and> \<not> isPaused s) \<Longrightarrow> timers s = []"
  unfolding seq_inv_def by (cases "timers s") auto

lemma seq_inv_timer_cleared:
  assumes "seq_inv env s"
  shows "timers (clear_timer s) = []"
proof (cases "timers s")
  case Nil
  then show ?thesis by (rule clear_timer_empty)
next
  case (Cons x xs)
  with assms obtain h p where "timers s = [(h, p)]" "timer_ref s = Some h"
    unfolding seq_inv_def by (cases x) auto
  then show ?thesis by (rule clear_timer_single)
qed

lemma pause_pre_inv:
  assumes "seq_inv env s" "mounted s"
  shows "pre_inv env (pauseAnimation now s) \<and> timers (pauseAnimation now s) = [] \<and>
         (running (pauseAnimation now s) \<longrightarrow> isPaused (pauseAnimation now s))"
proof (cases "running s \<and> \<not> isPaused s")
  case True
  with assms seq_inv_timer_cleared [OF assms(1)] show ?thesis
    by (auto simp: pauseAnimation_def pre_inv_def core_inv_def seq_inv_def effect_deps_of_def)
next
  case False
  with assms seq_inv_quiet [OF assms(1)] show ?thesis
    by (auto simp: pauseAnimation_def pre_inv_def core_inv_def seq_inv_def effect_deps_of_def)
qed

lemma enter_pre_inv:
  "seq_inv env s \<Longrightarrow> mounted s \<Longrightarrow> pre_inv env (on_enter now si ti s)"
  using pause_pre_inv [of env s now]
  by (simp add: on_enter_def Let_def pre_inv_def core_inv_def pending_ok_def)

lemma resume_pre_inv:
  assumes "seq_inv env s" "mounted s"
  shows "pre_inv env (resumeAnimation env s)"
proof (cases "running s \<and> isPaused s")
  case True
  let ?t = "s\<lparr>isPaused := False, resumeFrom := Some ResumeSource\<rparr>"
  have "core_inv env ?t" "timers ?t = []"
    using assms True seq_inv_quiet [OF assms(1)]
    by (auto simp: core_inv_def seq_inv_def pending_ok_def effect_deps_of_def)
  moreover have "closure_of env s = closure_for env (srcRef ?t)"
    using assms(1) by (simp add: closure_of_for seq_inv_def)
  ultimately have "pre_inv env (animate (closure_of env s) ?t)"
    by (simp add: animate_pre_inv)
  with True show ?thesis by (simp add: resumeAnimation_def)
next
  case False
  then have "resumeAnimation env s = s" unfolding resumeAnimation_def by auto
  with seq_inv_core [OF assms] show ?thesis by simp
qed

lemma leave_pre_inv:
  "seq_inv env s \<Longrightarrow> mounted s \<Longrightarrow> pre_inv env (on_leave env s)"
  using resume_pre_inv [of env s]
  by (simp add: on_leave_def pre_inv_def core_inv_def pending_ok_def)

lemma select_pre_inv:
  "seq_inv env s \<Longrightarrow> mounted s \<Longrightarrow> pre_inv env (select_fields a b s)"
  using seq_inv_core [of env s]
  by (simp add: select_fields_def pre_inv_def core_inv_def pending_ok_def)

lemma toggle_pre_inv:
  "seq_inv env s \<Longrightarrow> mounted s \<Longrightarrow>
   pre_inv env (s\<lparr>autoPlayEnabled := \<not> autoPlayEnabled s\<rparr>)"
  by (auto simp: seq_inv_def pre_inv_def core_inv_def pending_ok_def effect_deps_of_def)

lemma handle_pre_inv:
  "seq_inv env s \<Longrightarrow> mounted s \<Longrightarrow> pre_inv env (handle env s e)"
  by (cases e) (simp_all add: fire_pre_inv enter_pre_inv leave_pre_inv select_pre_inv
      toggle_pre_inv seq_inv_core)

subsection \<open>Steps, runs and reachable states keep the invariant\<close>

lemma unmount_inv: "seq_inv env s \<Longrightarrow> seq_inv env (unmount s)"
proof -
  assume inv: "seq_inv env s"
  show ?thesis
  proof (cases "effect_cleanup s")
    case True
    have "timers (clear_timer s) = []" by (rule seq_inv_timer_cleared [OF inv])
    with True inv show ?thesis
      unfolding unmount_def seq_inv_def by simp
  next
    case False
    with inv have "\<not> running s" by (simp add: seq_inv_def)
    with inv False seq_inv_quiet [OF inv] show ?thesis
      unfolding unmount_def seq_inv_def by simp
  qed
qed


lemma unmounted_quiet:
  assumes "seq_inv env s" "\<not> mounted s"
  shows "timers s = [] \<and> \<not> running s"
proof -
  from assms have r: "\<not> running s" unfolding seq_inv_def by blast
  then have "timers s = []" using seq_inv_quiet [OF assms(1)] by blast
  with r show ?thesis by blast
qed


lemma step_inv: "seq_inv env s \<Longrightarrow> seq_inv env (step env s e)"
proof -
  assume inv: "seq_inv env s"
  show ?thesis
  proof (cases "e = Unmount")
    case True
    then have "step env s e = (if mounted s then unmount s else s)" by (simp add: step_def)
    with inv unmount_inv show ?thesis by simp
  next
    case False
    show ?thesis
    proof (cases "mounted s")
      case True
      with False have "step env s e = commit env (handle env s e)" by (simp add: step_def)
      moreover have "pre_inv env (handle env s e)" by (rule handle_pre_inv [OF inv True])
      ultimately show ?thesis by (simp add: commit_inv)
    next
      case m: False
      from unmounted_quiet [OF inv m] have "fire h s = s" for h
        by (simp add: fire_def)
      with False m have "step env s e = s" by (cases e) (simp_all add: step_def)
      with inv show ?thesis by simp
    qed
  qed
qed

lemma run_inv: "seq_inv env s \<Longrightarrow> seq_inv env (run env s es)"
  by (induction es arbitrary: s) (simp_all add: step_inv)


lemma mount_inv: "seq_inv env (mount env en now)"
proof -
  let ?s0 = "init_state en now"
  let ?s1 = "?s0\<lparr>srcRef := currentSource ?s0, tgtRef := currentTarget ?s0\<rparr>"
  have "seq_inv env (effect_body env (?s1\<lparr>effect_deps := Some (effect_deps_of env ?s1)\<rparr>))"
    by (rule effect_body_inv) (simp_all add: init_state_def effect_deps_of_def)
  moreover have "mount env en now = effect_body env (?s1\<lparr>effect_deps := Some (effect_deps_of env ?s1)\<rparr>)"
    unfolding mount_def commit_def Let_def by (simp add: init_state_def)
  ultimately show ?thesis by simp
qed

inductive seq_reach :: "seq_env \<Rightarrow> seq_state \<Rightarrow> bool" for env where
  mounted: "seq_reach env (mount env en now)"
| step: "seq_reach env s \<Longrightarrow> seq_reach env (step env s e)"

lemma seq_reach_inv: "seq_reach env s \<Longrightarrow> seq_inv env s"
  by (induction rule: seq_reach.induct) (simp_all add: mount_inv step_inv)

lemma seq_reach_run: "seq_reach env s \<Longrightarrow> seq_reach env (run env s es)"
  by (induction es arbitrary: s) (simp_all add: seq_reach.step)


subsection \<open>Hovering\<close>

text \<open>
  A single pointer hovering elements that do not overlap produces enter and leave
  events that alternate, starting outside. \<open>stuck\<close> is the state in which the
  sequencer is paused with no timer: inside an element the cycle is also stopped,
  outside it \<open>isAnimating\<close> is set again.
\<close>

fun hover_ok :: "bool \<Rightarrow> event list \<Rightarrow> bool" where
  "hover_ok inside [] = True"
| "hover_ok inside (Enter now si ti # es) = (\<not> inside \<and> hover_ok True es)"
| "hover_ok inside (Leave # es) = (inside \<and> hover_ok False es)"
| "hover_ok inside (e # es) = hover_ok inside es"

definition stuck :: "bool \<Rightarrow> seq_state \<Rightarrow> bool" where
  "stuck inside s \<longleftrightarrow> isPaused s \<and> timers s = [] \<and> (inside \<longrightarrow> \<not> running s) \<and>
     (mounted s \<longrightarrow> isAnimating s = (\<not> inside))"

lemma commit_same:
  "effect_deps s = Some (effect_deps_of env s) \<Longrightarrow> srcRef s = currentSource s \<Longrightarrow>
   tgtRef s = currentTarget s \<Longrightarrow> commit env s = s"
  by (simp add: commit_def Let_def effect_deps_of_def)

lemma effect_body_paused:
  "isPaused s \<Longrightarrow> timers s = [] \<Longrightarrow>
   isPaused (effect_body env s) \<and> timers (effect_body env s) = [] \<and>
   isAnimating (effect_body env s) = isAnimating s \<and>
   (\<not> isAnimating s \<longrightarrow> \<not> running (effect_body env s))"
  by (simp add: effect_body_def animate_eq clear_timer_empty)

lemma commit_paused:
  assumes "isPaused s" "timers s = []"
  shows "isPaused (commit env s) \<and> timers (commit env s) = [] \<and>
         isAnimating (commit env s) = isAnimating s \<and>
         (\<not> isAnimating s \<longrightarrow>
            (\<not> running s \<or> effect_deps s \<noteq> Some (effect_deps_of env s)) \<longrightarrow>
            \<not> running (commit env s))"
proof -
  let ?s1 = "s\<lparr>srcRef := currentSource s, tgtRef := currentTarget s\<rparr>"
  define s2 where "s2 = (if effect_cleanup ?s1 then effect_cleanup_run ?s1 else ?s1)"
  have s2: "isPaused s2" "timers s2 = []" "isAnimating s2 = isAnimating s"
      "\<not> running s \<longrightarrow> \<not> running s2"
    using assms by (simp_all add: s2_def effect_cleanup_run_def clear_timer_empty)
  have "isPaused (effect_body env (s2\<lparr>effect_deps := d\<rparr>)) \<and>
        timers (effect_body env (s2\<lparr>effect_deps := d\<rparr>)) = [] \<and>
        isAnimating (effect_body env (s2\<lparr>effect_deps := d\<rparr>)) = isAnimating s \<and>
        (\<not> isAnimating s \<longrightarrow> \<not> running (effect_body env (s2\<lparr>effect_deps := d\<rparr>)))" for d
    using effect_body_paused [of "s2\<lparr>effect_deps := d\<rparr>" env] s2 by simp
  then show ?thesis using assms
    unfolding commit_def Let_def s2_def [symmetric] by (auto simp: effect_deps_of_def)
qed


fun inside_after :: "bool \<Rightarrow> event \<Rightarrow> bool" where
  "inside_after inside (Enter now si ti) = True"
| "inside_after inside Leave = False"
| "inside_after inside e = inside"

lemma stuck_step:
  assumes inv: "seq_inv env s" and st: "stuck inside s" and ok: "hover_ok inside (e # es)"
  shows "stuck (inside_after inside e) (step env s e)"
proof (cases "e = Unmount")
  case True
  with st show ?thesis
    by (auto simp: step_def unmount_def stuck_def clear_timer_empty)
next
  case nu: False
  have f: "fire h s = s" for h using st by (simp add: stuck_def fire_def)
  show ?thesis
  proof (cases "mounted s")
    case False
    with unmounted_quiet [OF inv] have "\<not> running s" by blast
    with False nu f st show ?thesis by (cases e) (simp_all add: step_def stuck_def)
  next
    case m: True
    have deps: "effect_deps s = Some (effect_deps_of env s)" using inv m by (simp add: seq_inv_def)
    have pz: "isPaused s" "timers s = []" using st by (simp_all add: stuck_def)
    show ?thesis
    proof (cases e)
      case (Fire h)
      then show ?thesis using commit_paused [OF pz, of env] f st m
        by (auto simp: step_def stuck_def)
    next
      case (Enter now si ti)
      let ?t = "on_enter now si ti s"
      have t: "isPaused ?t" "timers ?t = []" "\<not> isAnimating ?t"
        "effect_deps ?t \<noteq> Some (effect_deps_of env ?t)"
        using pz ok Enter st deps m
        by (simp_all add: on_enter_def pauseAnimation_def stuck_def effect_deps_of_def)
      show ?thesis using commit_paused [OF t(1,2), of env] t m Enter
        by (simp add: step_def stuck_def)
    next
      case Leave
      let ?t = "on_leave env s"
      have t: "isPaused ?t" "timers ?t = []" "isAnimating ?t"
        using pz ok Leave st
        by (simp_all add: on_leave_def resumeAnimation_def stuck_def)
      show ?thesis using commit_paused [OF t(1,2), of env] t m Leave
        by (simp add: step_def stuck_def)
    next
      case (SelectSource f)
      let ?t = "select_fields f (currentTarget s) s"
      have t: "isPaused ?t" "timers ?t = []" "isAnimating ?t = isAnimating s" "running ?t = running s"
        using pz by (simp_all add: select_fields_def)
      show ?thesis using commit_paused [OF t(1,2), of env] t m SelectSource st
        by (simp add: step_def stuck_def)
    next
      case (SelectTarget f)
      let ?t = "select_fields (currentSource s) f s"
      have t: "isPaused ?t" "timers ?t = []" "isAnimating ?t = isAnimating s" "running ?t = running s"
        using pz by (simp_all add: select_fields_def)
      show ?thesis using commit_paused [OF t(1,2), of env] t m SelectTarget st
        by (simp add: step_def stuck_def)
    next
      case ToggleAutoPlay
      let ?t = "s\<lparr>autoPlayEnabled := \<not> autoPlayEnabled s\<rparr>"
      have t: "isPaused ?t" "timers ?t = []" "isAnimating ?t = isAnimating s" "running ?t = running s"
        using pz by simp_all
      show ?thesis using commit_paused [OF t(1,2), of env] t m ToggleAutoPlay st
        by (simp add: step_def stuck_def)
    next
      case Unmount
      with nu show ?thesis by simp
    qed
  qed
qed


lemma hover_ok_tail: "hover_ok inside (e # es) \<Longrightarrow> hover_ok (inside_after inside e) es"
  by (cases e) simp_all

lemma stuck_run:
  "seq_inv env s \<Longrightarrow> stuck inside s \<Longrightarrow> hover_ok inside es \<Longrightarrow>
   isPaused (run env s es) \<and> timers (run env s es) = []"
proof (induction es arbitrary: s inside)
  case Nil
  then show ?case by (simp add: stuck_def)
next
  case (Cons e es)
  have "stuck (inside_after inside e) (step env s e)"
    by (rule stuck_step [OF Cons.prems])
  moreover have "seq_inv env (step env s e)" using Cons.prems(1) by (rule step_inv)
  moreover have "hover_ok (inside_after inside e) es" using Cons.prems(3) by (rule hover_ok_tail)
  ultimately show ?case using Cons.IH by simp
qed

lemma enter_stuck:
  assumes inv: "seq_inv env s" and m: "mounted s" and r: "running s" "\<not> isPaused s"
  shows "stuck True (step env s (Enter now si ti)) \<and>
         currentSourceIndex (step env s (Enter now si ti)) = currentSourceIndex s \<and>
         currentTargetIndex (step env s (Enter now si ti)) = currentTargetIndex s"
proof -
  let ?t = "on_enter now si ti s"
  have an: "isAnimating s" using inv r by (simp add: seq_inv_def)
  have deps: "effect_deps s = Some (effect_deps_of env s)" using inv m by (simp add: seq_inv_def)
  have t: "isPaused ?t" "timers ?t = []" "\<not> isAnimating ?t"
      "effect_deps ?t \<noteq> Some (effect_deps_of env ?t)" "mounted ?t"
    using r an deps m seq_inv_timer_cleared [OF inv]
    by (simp_all add: on_enter_def pauseAnimation_def effect_deps_of_def Let_def)
  have idx: "currentSourceIndex (commit env ?t) = currentSourceIndex s"
            "currentTargetIndex (commit env ?t) = currentTargetIndex s"
    using t(3,4) r
    by (simp_all add: commit_def Let_def effect_deps_of_def effect_body_def effect_cleanup_run_def
        on_enter_def pauseAnimation_def Let_def)
  show ?thesis using commit_paused [OF t(1,2), of env] t m idx
    by (simp add: step_def stuck_def)
qed


lemma leave_restarts:
  assumes u: "mounted u" "autoPlayEnabled u" "\<not> running u" "isPaused u"
      "\<not> isAnimating u" "effect_deps u = Some (effect_deps_of env u)"
      "srcRef u = currentSource u" "tgtRef u = currentTarget u"
    and go: "autoPlay env" "0 < data_len env" "svg_ready env"
  shows "currentSourceIndex (step env u Leave) = 0 \<and> currentTargetIndex (step env u Leave) = 0 \<and>
         running (step env u Leave) \<and> isPaused (step env u Leave)"
  using u go
  by (simp add: step_def on_leave_def resumeAnimation_def commit_def Let_def effect_deps_of_def
      effect_body_def animate_eq effect_cleanup_run_def)

subsection \<open>Ticking and the effect restart\<close>

lemma animate_flags [simp]:
  "running (animate c s) = running s" "isPaused (animate c s) = isPaused s"
  "autoPlayEnabled (animate c s) = autoPlayEnabled s" "isAnimating (animate c s) = isAnimating s"
  by (simp_all add: animate_eq)

lemma fire_callback_flags:
  "running (fire_callback cb c s) = running s \<and> isPaused (fire_callback cb c s) = isPaused s \<and>
   autoPlayEnabled (fire_callback cb c s) = autoPlayEnabled s \<and>
   isAnimating (fire_callback cb c s) = isAnimating s"
  by (cases cb) (simp_all add: Let_def)

lemma fire_flags:
  "running (fire h s) = running s \<and> isPaused (fire h s) = isPaused s \<and>
   autoPlayEnabled (fire h s) = autoPlayEnabled s \<and> isAnimating (fire h s) = isAnimating s"
  using fire_callback_flags by (simp add: fire_def split: option.splits)

lemma commit_running:
  assumes "running t" "\<not> isPaused t" "autoPlay env" "autoPlayEnabled t" "isAnimating t"
    "0 < data_len env" "svg_ready env"
  shows "running (commit env t) \<and> \<not> isPaused (commit env t)"
  using assms
  by (simp add: commit_def Let_def effect_body_def effect_cleanup_run_def)

subsection \<open>Concrete evaluation\<close>

text \<open>
  The rewrite rules that evaluate the model on a concrete configuration, and a
  configuration of a mounted page: five valid responses, two source categories per
  field, the default speed of the settings (5000 ms).
\<close>

lemmas seq_eval = mount_def init_state_def step_def commit_def Let_def effect_body_def
  effect_deps_of_def effect_cleanup_run_def clear_timer_def animate_eq animate_pending_def
  highlight_step_def closure_of_def set_timeout_def fire_def targetOptions_def
  alluvialFields_def js_at_def next_source_def first_target_def on_enter_def on_leave_def
  pauseAnimation_def resumeAnimation_def select_fields_def unmount_def

definition demo_env :: seq_env where
  "demo_env = \<lparr>autoPlay = True, data_len = 5, svg_ready = True, nsources = (\<lambda>_. 2),
               autoPlaySpeed = 5000, reducedMotion = False\<rparr>"

lemma demo_mount: "running (mount demo_env True 0) \<and> \<not> isPaused (mount demo_env True 0) \<and> mounted (mount demo_env True 0)"
  by (simp add: seq_eval demo_env_def)

subsection \<open>Properties of the sequencer\<close>

text \<open>
  C1: at most one animation timer is outstanding in every reachable state, and it is
  the one \<open>animationRef.current.timer\<close> refers to, so every \<open>clearTimeout\<close> of
  the component cancels the whole chain.
\<close>

theorem single_timer:
  assumes "seq_reach env s"
  shows "length (timers s) \<le> 1 \<and> set (map fst (timers s)) \<subseteq> set_option (timer_ref s)"
  using seq_reach_inv [OF assms] by (force simp: seq_inv_def)

theorem single_timer_witness:
  "length (timers (run demo_env (mount demo_env True 0) [Fire 0, Fire 1, Leave])) \<le> 1 \<and>
   set (map fst (timers (run demo_env (mount demo_env True 0) [Fire 0, Fire 1, Leave])))
     \<subseteq> set_option (timer_ref (run demo_env (mount demo_env True 0) [Fire 0, Fire 1, Leave]))"
  by (rule single_timer [OF seq_reach_run [OF seq_reach.mounted]])

text \<open>
  C2: the selected source and target fields differ in every reachable state, whether
  the sequencer or the selector changed them.
\<close>

theorem fields_distinct:
  assumes "seq_reach env s"
  shows "currentSource s \<noteq> currentTarget s"
  using seq_reach_inv [OF assms] by (simp add: seq_inv_def)

theorem fields_distinct_witness:
  "currentSource (run demo_env (mount demo_env True 0) (map Fire [0..<10] @ [SelectTarget Motivation]))
   \<noteq> currentTarget (run demo_env (mount demo_env True 0) (map Fire [0..<10] @ [SelectTarget Motivation]))"
  by (rule fields_distinct [OF seq_reach_run [OF seq_reach.mounted]])

text \<open>
  C3: hovering stops the sequencer for good. From a running cycle, a pointer enter
  pauses it; as long as enters and leaves alternate, whatever else happens (timer
  ticks, selector changes, auto-play toggles, unmounting) it stays paused with no
  timer: \<open>resumeAnimation\<close> requires \<open>running\<close>, which the effect run by
  \<open>setIsAnimating(false)\<close> has already cleared, and nothing else clears
  \<open>isPaused\<close>.
\<close>

theorem hover_stalls_sequencer:
  assumes "seq_reach env s" "mounted s" "running s" "\<not> isPaused s" "hover_ok True es"
  shows "isPaused (run env s (Enter now si ti # es)) \<and> timers (run env s (Enter now si ti # es)) = []"
proof -
  have inv: "seq_inv env s" using assms(1) by (rule seq_reach_inv)
  have "stuck True (step env s (Enter now si ti))"
    using enter_stuck [OF inv assms(2-4)] by blast
  moreover have "seq_inv env (step env s (Enter now si ti))" using inv by (rule step_inv)
  ultimately show ?thesis using stuck_run assms(5) by simp
qed

theorem hover_stalls_sequencer_witness:
  "isPaused (run demo_env (mount demo_env True 0) [Enter 7 (Some 0) None, Leave, ToggleAutoPlay, ToggleAutoPlay])
   \<and> timers (run demo_env (mount demo_env True 0) [Enter 7 (Some 0) None, Leave, ToggleAutoPlay, ToggleAutoPlay]) = []"
  using hover_stalls_sequencer [OF seq_reach.mounted, of demo_env True 0 "[Leave, ToggleAutoPlay, ToggleAutoPlay]" 7 "Some 0" None]
    demo_mount by simp


text \<open>
  C4: the tick chain never stops by itself: in a reachable state where the cycle runs
  unpaused, there is one outstanding timer, and firing it leaves the cycle running,
  unpaused and again with a timer.
\<close>

theorem sequencer_keeps_ticking:
  assumes "seq_reach env s" "running s" "\<not> isPaused s"
  shows "\<exists>h p. timers s = [(h, p)] \<and> running (step env s (Fire h)) \<and>
           \<not> isPaused (step env s (Fire h)) \<and> timers (step env s (Fire h)) \<noteq> []"
proof -
  have inv: "seq_inv env s" using assms(1) by (rule seq_reach_inv)
  then have ne: "timers s \<noteq> []" and le: "length (timers s) \<le> 1"
    and go: "mounted s" "autoPlay env" "autoPlayEnabled s" "isAnimating s" "0 < data_len env"
      "svg_ready env"
    using assms(2,3) by (simp_all add: seq_inv_def)
  then obtain h p where hp: "timers s = [(h, p)]"
    by (cases "timers s" rule: list.exhaust) (auto simp: le_Suc_eq)
  let ?t = "step env s (Fire h)"
  have "running ?t \<and> \<not> isPaused ?t"
    using commit_running [of "fire h s" env] fire_flags [of h s] assms(2,3) go
    by (simp add: step_def)
  moreover have "seq_inv env ?t" using inv by (rule step_inv)
  ultimately show ?thesis using hp by (auto simp: seq_inv_def)
qed


theorem sequencer_keeps_ticking_witness:
  "\<exists>h p. timers (mount demo_env True 0) = [(h, p)] \<and>
     running (step demo_env (mount demo_env True 0) (Fire h)) \<and>
     \<not> isPaused (step demo_env (mount demo_env True 0) (Fire h)) \<and>
     timers (step demo_env (mount demo_env True 0) (Fire h)) \<noteq> []"
  using sequencer_keeps_ticking [OF seq_reach.mounted] demo_mount by blast

text \<open>
  C5: when all target fields of a source field are done, the source-field change
  does not pause for \<open>categoryPauseDuration \<times> 1.5\<close>: the change of
  \<open>currentSource\<close> re-runs the animation effect, whose cleanup cancels that timer,
  and the restarted cycle schedules an ordinary step timer at once.
\<close>

theorem source_rotation_skips_pause:
  assumes "seq_reach env s" "timers s = [(h, p)]" "p_cb p = CbAdvanceSource"
    and "2 \<le> nsources env (next_source (currentSource s))"
  shows "\<exists>h' p'. timers (step env s (Fire h)) = [(h', p')] \<and> p_cb p' = CbNextSource \<and>
           p_delay p' = stepDuration (cl_dur (p_closure p')) + pauseDuration (cl_dur (p_closure p'))"
proof -
  have inv: "seq_inv env s" using assms(1) by (rule seq_reach_inv)
  then have st: "running s" "\<not> isPaused s" "timer_ref s = Some h" "mounted s" "effect_cleanup s"
      "srcRef s = currentSource s" "autoPlay env" "autoPlayEnabled s" "isAnimating s"
      "0 < data_len env" "svg_ready env" "effect_deps s = Some (effect_deps_of env s)"
    using assms(2) by (auto simp: seq_inv_def)
  have ns: "next_source (currentSource s) \<noteq> currentSource s"
    by (cases "currentSource s") (simp_all add: next_source_def alluvialFields_def js_at_def)
  show ?thesis
    using assms(2-4) st ns
    by (simp add: step_def fire_def commit_def Let_def effect_deps_of_def effect_cleanup_run_def
        effect_body_def clear_timer_def set_timeout_def animate_eq animate_pending_def
        highlight_step_def closure_of_def)
qed

theorem source_rotation_skips_pause_witness:
  "\<exists>h' p'. timers (step demo_env (run demo_env (mount demo_env True 0) (map Fire [0..<10])) (Fire 10))
             = [(h', p')] \<and> p_cb p' = CbNextSource \<and>
           p_delay p' = stepDuration (cl_dur (p_closure p')) + pauseDuration (cl_dur (p_closure p'))"
proof -
  let ?s = "run demo_env (mount demo_env True 0) (map Fire [0..<10])"
  let ?p = "\<lparr>p_cb = CbAdvanceSource,
             p_closure = \<lparr>cl_data_len = 5, cl_nsrc = 2, cl_dur = animationDurations 5000 False\<rparr>,
             p_delay = categoryPauseDuration (animationDurations 5000 False)\<rparr>"
  have t: "timers ?s = [(10, ?p)]" by (simp add: seq_eval demo_env_def upt_rec)
  have n: "2 \<le> nsources demo_env (next_source (currentSource ?s))" by (simp add: demo_env_def)
  show ?thesis
    by (rule source_rotation_skips_pause [OF seq_reach_run [OF seq_reach.mounted] t _ n]) simp
qed

text \<open>
  C6: after unmounting no timer is left outstanding, so no callback can run on the
  torn-down component.
\<close>

theorem unmount_leaves_no_timer:
  assumes "seq_reach env s" "\<not> mounted s"
  shows "timers s = [] \<and> \<not> running s"
  using unmounted_quiet [OF seq_reach_inv [OF assms(1)] assms(2)] .

theorem unmount_leaves_no_timer_witness:
  "timers (run demo_env (mount demo_env True 0) [Fire 0, Unmount]) = [] \<and>
   \<not> running (run demo_env (mount demo_env True 0) [Fire 0, Unmount])"
proof -
  have "\<not> mounted (run demo_env (mount demo_env True 0) [Fire 0, Unmount])"
    by (simp add: seq_eval demo_env_def)
  then show ?thesis by (rule unmount_leaves_no_timer [OF seq_reach_run [OF seq_reach.mounted]])
qed

text \<open>
  C7: turning auto-play off stops the cycle: no timer, not running, and the view back
  at full opacity.
\<close>

theorem autoplay_off_idles:
  assumes "seq_reach env s" "mounted s" "autoPlayEnabled s"
  shows "\<not> running (step env s ToggleAutoPlay) \<and> timers (step env s ToggleAutoPlay) = [] \<and>
         animationPhase (step env s ToggleAutoPlay) = Full"
proof -
  have inv: "seq_inv env s" using assms(1) by (rule seq_reach_inv)
  then have d: "effect_deps s = Some (effect_deps_of env s)" using assms(2) by (simp add: seq_inv_def)
  have "\<not> running (step env s ToggleAutoPlay) \<and> animationPhase (step env s ToggleAutoPlay) = Full"
    using assms(2,3) d
    by (simp add: step_def commit_def Let_def effect_deps_of_def effect_body_def effect_cleanup_run_def)
  moreover have "seq_inv env (step env s ToggleAutoPlay)" using inv by (rule step_inv)
  ultimately show ?thesis using seq_inv_quiet by blast
qed

theorem autoplay_off_idles_witness:
  "\<not> running (step demo_env (mount demo_env True 0) ToggleAutoPlay) \<and>
   timers (step demo_env (mount demo_env True 0) ToggleAutoPlay) = [] \<and>
   animationPhase (step demo_env (mount demo_env True 0) ToggleAutoPlay) = Full"
proof -
  have "autoPlayEnabled (mount demo_env True 0)" by (simp add: seq_eval demo_env_def)
  with demo_mount show ?thesis using autoplay_off_idles [OF seq_reach.mounted] by blast
qed

text \<open>
  The source field rotates through all five fields and returns after five
  rotations.
\<close>

lemma next_source_cycle:
  "distinct (map (\<lambda>k. (next_source ^^ k) f) [0..<5]) \<and> (next_source ^^ 5) f = f"
  by (cases f) (simp_all add: next_source_def alluvialFields_def js_at_def upt_rec eval_nat_numeral)


text \<open>
  C9: a hover does not resume "from the exact paused index": the enter keeps the
  indices, but the effect re-run by the leave restarts the cycle at index 0 (and, as
  the hover-stall property above shows, leaves it paused).
\<close>

theorem hover_resume_restarts:
  assumes "seq_reach env s" "mounted s" "running s" "\<not> isPaused s"
  shows "currentSourceIndex (run env s [Enter now si ti, Leave]) = 0 \<and>
         currentTargetIndex (run env s [Enter now si ti, Leave]) = 0 \<and>
         running (run env s [Enter now si ti, Leave]) \<and> isPaused (run env s [Enter now si ti, Leave])"
proof -
  have inv: "seq_inv env s" using assms(1) by (rule seq_reach_inv)
  define u where "u = step env s (Enter now si ti)"
  have st: "stuck True u" using enter_stuck [OF inv assms(2-4)] by (simp add: u_def)
  have inv': "seq_inv env u" unfolding u_def using inv by (rule step_inv)
  have go: "autoPlay env" "autoPlayEnabled s" "0 < data_len env" "svg_ready env"
    using inv assms(3) by (simp_all add: seq_inv_def)
  have keep: "mounted u \<and> autoPlayEnabled u = autoPlayEnabled s"
    using assms(2) unfolding u_def
    by (simp add: step_def commit_def Let_def effect_body_def effect_cleanup_run_def
        on_enter_def pauseAnimation_def)
  then have m: "mounted u" by blast
  have "currentSourceIndex (step env u Leave) = 0 \<and> currentTargetIndex (step env u Leave) = 0 \<and>
        running (step env u Leave) \<and> isPaused (step env u Leave)"
  proof (rule leave_restarts)
    show "mounted u" by (rule m)
    show "autoPlayEnabled u" using keep go(2) by simp
    show "\<not> running u" "isPaused u" "\<not> isAnimating u"
      using st m unfolding stuck_def by simp_all
    show "effect_deps u = Some (effect_deps_of env u)"
      "srcRef u = currentSource u" "tgtRef u = currentTarget u"
      using inv' m unfolding seq_inv_def by simp_all
  qed (use go in simp_all)
  then show ?thesis by (simp add: u_def)
qed

theorem hover_resume_restarts_witness:
  "currentSourceIndex (run demo_env (mount demo_env True 0) [Enter 3 (Some 0) None, Leave]) = 0 \<and>
   currentTargetIndex (run demo_env (mount demo_env True 0) [Enter 3 (Some 0) None, Leave]) = 0 \<and>
   running (run demo_env (mount demo_env True 0) [Enter 3 (Some 0) None, Leave]) \<and>
   isPaused (run demo_env (mount demo_env True 0) [Enter 3 (Some 0) None, Leave])"
proof -
  have "run demo_env (mount demo_env True 0) [Enter 3 (Some 0) None, Leave] =
        run demo_env (mount demo_env True 0) [Enter 3 (Some 0) None, Leave]" ..
  then show ?thesis
    using hover_resume_restarts [OF seq_reach.mounted, of demo_env True 0] demo_mount by blast
qed

end
