(* ===== verification/Sankey.thy ===== *)
theory Sankey
  imports Survey
begin

text \<open>
  The Sankey graph builder of \<open>AlluvialDiagram.tsx\<close>: the category lists
  \<open>sources\<close> and \<open>targets\<close>, their sorting, the node list, the aggregation of
  records into links through an insertion-ordered \<open>Map\<close> (an association list
  here), the injection of the invisible dummy nodes and links that give every category
  a nonzero height, the filtering of the dummies before rendering, and the
  "most common flow" insight. The layout itself (\<open>d3-sankey\<close>) is a library and is
  not modelled.
\<close>

subsection \<open>Category lists\<close>

text \<open>The string values of a field, first occurrences first, without null and empty strings.\<close>

definition string_values :: "string option list \<Rightarrow> string list" where
  "string_values vs = concat (map (\<lambda>v. case v of Some x \<Rightarrow> if x \<noteq> [] then [x] else [] | None \<Rightarrow> [])
                                  (js_set_values vs))"

definition years_present :: "survey_response list \<Rightarrow> string list" where
  "years_present data =
     filter (\<lambda>cat. list_ex (\<lambda>d. getValidYearsCategory (years_or_zero d) = cat) data) YEARS_CATEGORIES"

definition sources :: "survey_response list \<Rightarrow> field \<Rightarrow> string list" where
  "sources data f =
     (if data = [] then []
      else if f = YearsAtMedtronic then years_present data
      else string_values (map (raw_field f) data))"

definition targets :: "survey_response list \<Rightarrow> field \<Rightarrow> string list" where
  "targets data f =
     (if data = [] then []
      else if f = YearsAtMedtronic then years_present data
      else sort (string_values (map (raw_field f) data)))"

text \<open>
  The render's fixed order: tenure bands by their position in the band list (a
  stable comparator sort), other categories by the default string sort.
\<close>

definition sort_categories :: "field \<Rightarrow> string list \<Rightarrow> string list" where
  "sort_categories f cs =
     (if f = YearsAtMedtronic then sort_key (js_index_of YEARS_CATEGORIES) cs else sort cs)"

text \<open>\<open>sortedSources\<close> and \<open>sortedTargets\<close> of the render effect.\<close>

definition sorted_sources :: "survey_response list \<Rightarrow> field \<Rightarrow> string list" where
  "sorted_sources data f = sort_categories f (sources data f)"

definition sorted_targets :: "survey_response list \<Rightarrow> field \<Rightarrow> string list" where
  "sorted_targets data f = sort_categories f (targets data f)"

subsection \<open>Nodes and links\<close>

record sankey_node =
  node_id :: string
  node_name :: string
  node_category :: string

record sankey_link =
  link_source :: string
  link_target :: string
  link_value :: real
  is_dummy :: bool

definition node_id_of :: "field \<Rightarrow> string \<Rightarrow> string" where
  "node_id_of f name = field_key f @ '':'' @ name"

definition mk_node :: "field \<Rightarrow> string \<Rightarrow> sankey_node" where
  "mk_node f name = \<lparr>node_id = node_id_of f name, node_name = name, node_category = field_key f\<rparr>"

definition DUMMY_SOURCE_ID :: string where "DUMMY_SOURCE_ID = ''__dummy_source__''"
definition DUMMY_TARGET_ID :: string where "DUMMY_TARGET_ID = ''__dummy_target__''"

definition dummy_node :: "string \<Rightarrow> sankey_node" where
  "dummy_node i = \<lparr>node_id = i, node_name = [], node_category = ''__dummy__''\<rparr>"

text \<open>
  Records without a tenure are dropped when either side is the tenure field
  (\<open>filteredData\<close>).
\<close>

definition filtered_data :: "survey_response list \<Rightarrow> field \<Rightarrow> field \<Rightarrow> survey_response list" where
  "filtered_data data src tgt =
     filter (\<lambda>d. (src \<noteq> YearsAtMedtronic \<or> years_at_medtronic d \<noteq> None) \<and>
                 (tgt \<noteq> YearsAtMedtronic \<or> years_at_medtronic d \<noteq> None)) data"

text \<open>
  The links \<open>Map\<close>, keyed by the pair of node ids (the code's key string
  \<open>sourceId\<rightarrow>targetId\<close>): \<open>set\<close> replaces the value of a present key in place
  and appends a new key.
\<close>

type_synonym link_map = "((string \<times> string) \<times> sankey_link) list"

fun map_set :: "string \<times> string \<Rightarrow> sankey_link \<Rightarrow> link_map \<Rightarrow> link_map" where
  "map_set k v [] = [(k, v)]"
| "map_set k v ((k', v') # m) = (if k' = k then (k, v) # m else (k', v') # map_set k v m)"

text \<open>One record of the aggregation loop.\<close>

definition count_record ::
  "field \<Rightarrow> field \<Rightarrow> string list \<Rightarrow> string list \<Rightarrow> link_map \<Rightarrow> survey_response \<Rightarrow> link_map" where
  "count_record src tgt ss ts m d =
     (case (field_category src d, field_category tgt d) of
        (Some s, Some t) \<Rightarrow>
          if s \<in> set ss \<and> t \<in> set ts then
            let k = (node_id_of src s, node_id_of tgt t);
                l = (case map_of m k of
                       None \<Rightarrow> \<lparr>link_source = fst k, link_target = snd k, link_value = 0, is_dummy = False\<rparr>
                     | Some l \<Rightarrow> l)
            in map_set k (l\<lparr>link_value := link_value l + 1\<rparr>) m
          else m
      | _ \<Rightarrow> m)"

definition aggregate_links ::
  "field \<Rightarrow> field \<Rightarrow> string list \<Rightarrow> string list \<Rightarrow> survey_response list \<Rightarrow> link_map" where
  "aggregate_links src tgt ss ts ds = fold (\<lambda>d m. count_record src tgt ss ts m d) ds []"

subsection \<open>Dummy injection\<close>

text \<open>
  For each target id in order: without an incoming link (dummies added so far
  included), a link of weight 0.0001 from the dummy source, whose node is prepended
  once. Then the same for source ids without an outgoing link, with the dummy target
  appended once.
\<close>

fun add_dummy_sources :: "string list \<Rightarrow> bool \<times> link_map \<Rightarrow> bool \<times> link_map" where
  "add_dummy_sources [] acc = acc"
| "add_dummy_sources (t # ts) (added, m) =
     (if list_ex (\<lambda>(_, l). link_target l = t) m then add_dummy_sources ts (added, m)
      else add_dummy_sources ts
             (True, map_set (DUMMY_SOURCE_ID, t)
                      \<lparr>link_source = DUMMY_SOURCE_ID, link_target = t, link_value = 1 / 10000,
                       is_dummy = True\<rparr> m))"

fun add_dummy_targets :: "string list \<Rightarrow> bool \<times> link_map \<Rightarrow> bool \<times> link_map" where
  "add_dummy_targets [] acc = acc"
| "add_dummy_targets (s # ss) (added, m) =
     (if list_ex (\<lambda>(_, l). link_source l = s) m then add_dummy_targets ss (added, m)
      else add_dummy_targets ss
             (True, map_set (s, DUMMY_TARGET_ID)
                      \<lparr>link_source = s, link_target = DUMMY_TARGET_ID, link_value = 1 / 10000,
                       is_dummy = True\<rparr> m))"

subsection \<open>The whole build of the render effect\<close>

definition build_sankey ::
  "survey_response list \<Rightarrow> field \<Rightarrow> field \<Rightarrow> sankey_node list \<times> sankey_link list" where
  "build_sankey data src tgt =
     (let ss = sorted_sources data src;
          ts = sorted_targets data tgt;
          nodes = map (mk_node src) ss @ map (mk_node tgt) ts;
          m0 = aggregate_links src tgt ss ts (filtered_data data src tgt);
          (ds, m1) = add_dummy_sources (map (node_id_of tgt) ts) (False, m0);
          (dt, m2) = add_dummy_targets (map (node_id_of src) ss) (False, m1);
          nodes' = (if ds then [dummy_node DUMMY_SOURCE_ID] else []) @ nodes @
                   (if dt then [dummy_node DUMMY_TARGET_ID] else [])
      in (nodes', map snd m2))"

text \<open>What is drawn: links and nodes other than the dummies.\<close>

definition filtered_links :: "sankey_link list \<Rightarrow> sankey_link list" where
  "filtered_links ls = filter (\<lambda>l. link_source l \<noteq> DUMMY_SOURCE_ID \<and> link_target l \<noteq> DUMMY_TARGET_ID) ls"

definition filtered_nodes :: "sankey_node list \<Rightarrow> sankey_node list" where
  "filtered_nodes ns = filter (\<lambda>n. node_id n \<noteq> DUMMY_SOURCE_ID \<and> node_id n \<noteq> DUMMY_TARGET_ID) ns"

text \<open>\<open>links.reduce((a, b) => b.value > a.value ? b : a, links[0])\<close>: the first maximum.\<close>

definition most_common :: "sankey_link list \<Rightarrow> sankey_link option" where
  "most_common ls =
     (case ls of [] \<Rightarrow> None
      | l # _ \<Rightarrow> Some (fold (\<lambda>b a. if link_value b > link_value a then b else a) ls l))"

subsection \<open>Invariants of the link map\<close>

text \<open>
  Every entry of the links \<open>Map\<close> is a link between the two node ids of its key,
  with a positive weight.
\<close>

definition wf_links :: "link_map \<Rightarrow> bool" where
  "wf_links m \<longleftrightarrow> (\<forall>(k, l) \<in> set m. link_source l = fst k \<and> link_target l = snd k \<and> 0 < link_value l)"

text \<open>Whether a record is counted: both categories present and accepted.\<close>

definition counted :: "field \<Rightarrow> field \<Rightarrow> string list \<Rightarrow> string list \<Rightarrow> survey_response \<Rightarrow> bool" where
  "counted src tgt ss ts d =
     (case (field_category src d, field_category tgt d) of
        (Some s, Some t) \<Rightarrow> s \<in> set ss \<and> t \<in> set ts | _ \<Rightarrow> False)"

text \<open>An entry is a dummy exactly when one of its ends is a dummy node.\<close>

definition dummy_wf :: "link_map \<Rightarrow> bool" where
  "dummy_wf m \<longleftrightarrow>
     (\<forall>(k, l) \<in> set m. is_dummy l = (fst k = DUMMY_SOURCE_ID \<or> snd k = DUMMY_TARGET_ID))"

text \<open>One step of the \<open>reduce\<close> of the insight.\<close>

abbreviation pick_max :: "sankey_link \<Rightarrow> sankey_link \<Rightarrow> sankey_link" where
  "pick_max \<equiv> \<lambda>b a. if link_value b > link_value a then b else a"

subsection \<open>Properties of the builder\<close>

lemma map_of_map_set [simp]: "map_of (map_set k v m) = (map_of m)(k \<mapsto> v)"
  by (induction k v m rule: map_set.induct) (auto simp: fun_eq_iff)

lemma keys_map_set [simp]: "fst ` set (map_set k v m) = insert k (fst ` set m)"
  by (induction k v m rule: map_set.induct) auto

lemma set_map_set_sub: "set (map_set k v m) \<subseteq> insert (k, v) (set m)"
  by (induction k v m rule: map_set.induct) auto

lemma wf_map_set:
  "wf_links m \<Longrightarrow> link_source v = fst k \<Longrightarrow> link_target v = snd k \<Longrightarrow> 0 < link_value v \<Longrightarrow>
   wf_links (map_set k v m)"
  using set_map_set_sub [of k v m] unfolding wf_links_def by fastforce

lemma sum_map_set:
  "sum_list (map (link_value \<circ> snd) (map_set k v m)) =
   sum_list (map (link_value \<circ> snd) m) + link_value v -
   (case map_of m k of None \<Rightarrow> 0 | Some l \<Rightarrow> link_value l)"
  by (induction k v m rule: map_set.induct) auto

lemma wf_lookup: "wf_links m \<Longrightarrow> map_of m k = Some l \<Longrightarrow>
   link_source l = fst k \<and> link_target l = snd k \<and> 0 < link_value l"
  unfolding wf_links_def by (auto dest!: map_of_SomeD)

lemma count_record_wf:
  assumes "wf_links m"
  shows "wf_links (count_record src tgt ss ts m d)"
proof (cases "field_category src d")
  case None
  then show ?thesis using assms by (simp add: count_record_def)
next
  case (Some s)
  show ?thesis
  proof (cases "field_category tgt d")
    case None
    with Some assms show ?thesis by (simp add: count_record_def)
  next
    case (Some t)
    let ?k = "(node_id_of src s, node_id_of tgt t)"
    show ?thesis
    proof (cases "map_of m ?k")
      case None
      then show ?thesis using \<open>field_category src d = Some s\<close> Some assms
        by (auto simp: count_record_def Let_def intro!: wf_map_set)
    next
      case (Some l)
      with wf_lookup [OF assms] have "link_source l = fst ?k" "link_target l = snd ?k"
          "0 < link_value l" by blast+
      then show ?thesis using Some \<open>field_category src d = Some s\<close>
          \<open>field_category tgt d = Some t\<close> assms
        by (auto simp: count_record_def Let_def intro!: wf_map_set)
    qed
  qed
qed

lemma count_record_sum:
  "sum_list (map (link_value \<circ> snd) (count_record src tgt ss ts m d)) =
   sum_list (map (link_value \<circ> snd) m) + (if counted src tgt ss ts d then 1 else 0)"
  by (auto simp: count_record_def counted_def Let_def sum_map_set split: option.splits)

lemma aggregate_fold_sum:
  "sum_list (map (link_value \<circ> snd) (fold (\<lambda>d m. count_record src tgt ss ts m d) ds m)) =
   sum_list (map (link_value \<circ> snd) m) + real (length (filter (counted src tgt ss ts) ds))"
  by (induction ds arbitrary: m) (simp_all add: count_record_sum)

lemma aggregate_fold_wf:
  "wf_links m \<Longrightarrow> wf_links (fold (\<lambda>d m. count_record src tgt ss ts m d) ds m)"
  by (induction ds arbitrary: m) (simp_all add: count_record_wf)

lemma aggregate_links_sum:
  "sum_list (map (link_value \<circ> snd) (aggregate_links src tgt ss ts ds)) =
   real (length (filter (counted src tgt ss ts) ds))"
  by (simp add: aggregate_links_def aggregate_fold_sum)

lemma aggregate_links_wf: "wf_links (aggregate_links src tgt ss ts ds)"
proof -
  have "wf_links []" by (simp add: wf_links_def)
  then show ?thesis unfolding aggregate_links_def by (rule aggregate_fold_wf)
qed


lemma dummy_wf_map_set:
  "dummy_wf m \<Longrightarrow> is_dummy v = (fst k = DUMMY_SOURCE_ID \<or> snd k = DUMMY_TARGET_ID) \<Longrightarrow>
   dummy_wf (map_set k v m)"
  using set_map_set_sub [of k v m] unfolding dummy_wf_def by fastforce

lemma node_id_not_dummy [simp]:
  "node_id_of f x \<noteq> DUMMY_SOURCE_ID" "node_id_of f x \<noteq> DUMMY_TARGET_ID"
  by (cases f; simp add: node_id_of_def DUMMY_SOURCE_ID_def DUMMY_TARGET_ID_def)+

lemma dummy_wf_lookup:
  "dummy_wf m \<Longrightarrow> map_of m k = Some l \<Longrightarrow> is_dummy l = (fst k = DUMMY_SOURCE_ID \<or> snd k = DUMMY_TARGET_ID)"
  unfolding dummy_wf_def by (auto dest!: map_of_SomeD)

lemma count_record_dummy_wf:
  assumes "dummy_wf m"
  shows "dummy_wf (count_record src tgt ss ts m d)"
proof (cases "\<exists>s t. field_category src d = Some s \<and> field_category tgt d = Some t \<and>
               s \<in> set ss \<and> t \<in> set ts")
  case False
  then have "count_record src tgt ss ts m d = m"
    by (auto simp: count_record_def split: option.splits)
  with assms show ?thesis by simp
next
  case True
  then obtain s t where st: "field_category src d = Some s" "field_category tgt d = Some t"
      "s \<in> set ss" "t \<in> set ts" by blast
  let ?k = "(node_id_of src s, node_id_of tgt t)"
  show ?thesis
  proof (cases "map_of m ?k")
    case None
    then show ?thesis using st assms
      by (simp add: count_record_def Let_def dummy_wf_map_set)
  next
    case (Some l)
    have "\<not> is_dummy l" using dummy_wf_lookup [OF assms Some] by simp
    then show ?thesis using Some st assms
      by (simp add: count_record_def Let_def dummy_wf_map_set)
  qed
qed

lemma aggregate_links_dummy_wf: "dummy_wf (aggregate_links src tgt ss ts ds)"
proof -
  have "dummy_wf (fold (\<lambda>d m. count_record src tgt ss ts m d) ds m)" if "dummy_wf m" for m
    using that by (induction ds arbitrary: m) (simp_all add: count_record_dummy_wf)
  moreover have "dummy_wf []" by (simp add: dummy_wf_def)
  ultimately show ?thesis unfolding aggregate_links_def by blast
qed

lemma nondummy_map_set:
  "is_dummy v \<Longrightarrow> (\<forall>l. map_of m k = Some l \<longrightarrow> is_dummy l) \<Longrightarrow>
   filter (\<lambda>l. \<not> is_dummy l) (map snd (map_set k v m)) = filter (\<lambda>l. \<not> is_dummy l) (map snd m)"
  by (induction k v m rule: map_set.induct) auto

lemma add_dummy_sources_props:
  "wf_links m \<Longrightarrow> dummy_wf m \<Longrightarrow> add_dummy_sources ts (b, m) = (b', m') \<Longrightarrow>
   wf_links m' \<and> dummy_wf m' \<and> set (map fst m) \<subseteq> set (map fst m') \<and>
   (\<forall>t \<in> set ts. t \<in> snd ` set (map fst m')) \<and>
   filter (\<lambda>l. \<not> is_dummy l) (map snd m') = filter (\<lambda>l. \<not> is_dummy l) (map snd m)"
proof (induction ts arbitrary: b m)
  case Nil
  then show ?case by simp
next
  case (Cons t ts)
  show ?case
  proof (cases "list_ex (\<lambda>(_, l). link_target l = t) m")
    case True
    then obtain k l where kl: "(k, l) \<in> set m" "link_target l = t"
      by (auto simp: list_ex_iff)
    with Cons.prems(1) have "snd k = t" by (auto simp: wf_links_def)
    with kl have xin: "t \<in> snd ` set (map fst m)" by force
    have rest: "add_dummy_sources ts (b, m) = (b', m')" using True Cons.prems(3) by simp
    note IH = Cons.IH [OF Cons.prems(1,2) rest]
    then have "t \<in> snd ` set (map fst m')" using xin by blast
    with IH show ?thesis by simp
  next
    case False
    let ?v = "\<lparr>link_source = DUMMY_SOURCE_ID, link_target = t, link_value = 1 / 10000, is_dummy = True\<rparr>"
    let ?m = "map_set (DUMMY_SOURCE_ID, t) ?v m"
    have w: "wf_links ?m" by (rule wf_map_set [OF Cons.prems(1)]) simp_all
    have d: "dummy_wf ?m" by (rule dummy_wf_map_set [OF Cons.prems(2)]) simp
    have nd: "filter (\<lambda>l. \<not> is_dummy l) (map snd ?m) = filter (\<lambda>l. \<not> is_dummy l) (map snd m)"
      by (rule nondummy_map_set) (use dummy_wf_lookup [OF Cons.prems(2)] in auto)
    have rest: "add_dummy_sources ts (True, ?m) = (b', m')" using False Cons.prems(3) by simp
    note IH = Cons.IH [OF w d rest]
    have "t \<in> snd ` set (map fst ?m)" by simp
    then have "t \<in> snd ` set (map fst m')" using IH by blast
    moreover have "set (map fst m) \<subseteq> set (map fst m')" using IH by simp
    ultimately show ?thesis using IH nd by simp
  qed
qed

lemma add_dummy_targets_props:
  "wf_links m \<Longrightarrow> dummy_wf m \<Longrightarrow> add_dummy_targets ss (b, m) = (b', m') \<Longrightarrow>
   wf_links m' \<and> dummy_wf m' \<and> set (map fst m) \<subseteq> set (map fst m') \<and>
   (\<forall>s \<in> set ss. s \<in> fst ` set (map fst m')) \<and>
   filter (\<lambda>l. \<not> is_dummy l) (map snd m') = filter (\<lambda>l. \<not> is_dummy l) (map snd m)"
proof (induction ss arbitrary: b m)
  case Nil
  then show ?case by simp
next
  case (Cons s ss)
  show ?case
  proof (cases "list_ex (\<lambda>(_, l). link_source l = s) m")
    case True
    then obtain k l where kl: "(k, l) \<in> set m" "link_source l = s"
      by (auto simp: list_ex_iff)
    with Cons.prems(1) have "fst k = s" by (auto simp: wf_links_def)
    with kl have xin: "s \<in> fst ` set (map fst m)" by force
    have rest: "add_dummy_targets ss (b, m) = (b', m')" using True Cons.prems(3) by simp
    note IH = Cons.IH [OF Cons.prems(1,2) rest]
    then have "s \<in> fst ` set (map fst m')" using xin by blast
    with IH show ?thesis by simp
  next
    case False
    let ?v = "\<lparr>link_source = s, link_target = DUMMY_TARGET_ID, link_value = 1 / 10000, is_dummy = True\<rparr>"
    let ?m = "map_set (s, DUMMY_TARGET_ID) ?v m"
    have w: "wf_links ?m" by (rule wf_map_set [OF Cons.prems(1)]) simp_all
    have d: "dummy_wf ?m" by (rule dummy_wf_map_set [OF Cons.prems(2)]) simp
    have nd: "filter (\<lambda>l. \<not> is_dummy l) (map snd ?m) = filter (\<lambda>l. \<not> is_dummy l) (map snd m)"
      by (rule nondummy_map_set) (use dummy_wf_lookup [OF Cons.prems(2)] in auto)
    have rest: "add_dummy_targets ss (True, ?m) = (b', m')" using False Cons.prems(3) by simp
    note IH = Cons.IH [OF w d rest]
    have "s \<in> fst ` set (map fst ?m)" by simp
    then have "s \<in> fst ` set (map fst m')" using IH by blast
    moreover have "set (map fst m) \<subseteq> set (map fst m')" using IH by simp
    ultimately show ?thesis using IH nd by simp
  qed
qed

lemma add_dummy_sources_keys:
  "add_dummy_sources ts (b, m) = (b', m') \<Longrightarrow>
   fst ` set m' \<subseteq> fst ` set m \<union> {DUMMY_SOURCE_ID} \<times> set ts"
proof (induction ts arbitrary: b m)
  case Nil
  then show ?case by simp
next
  case (Cons t ts)
  show ?case
  proof (cases "list_ex (\<lambda>(_, l). link_target l = t) m")
    case True
    with Cons show ?thesis by auto
  next
    case False
    with Cons.prems have "add_dummy_sources ts (True, map_set (DUMMY_SOURCE_ID, t)
        \<lparr>link_source = DUMMY_SOURCE_ID, link_target = t, link_value = 1 / 10000, is_dummy = True\<rparr> m) = (b', m')"
      by simp
    from Cons.IH [OF this] show ?thesis by auto
  qed
qed

lemma add_dummy_sources_flag:
  "add_dummy_sources ts (b, m) = (b', m') \<Longrightarrow>
   (DUMMY_SOURCE_ID \<in> fst ` fst ` set m \<longrightarrow> b) \<Longrightarrow> (DUMMY_SOURCE_ID \<in> fst ` fst ` set m' \<longrightarrow> b')"
proof (induction ts arbitrary: b m)
  case Nil
  then show ?case by simp
next
  case (Cons t ts)
  show ?case
  proof (cases "list_ex (\<lambda>(_, l). link_target l = t) m")
    case True
    with Cons show ?thesis by auto
  next
    case False
    with Cons.prems have "add_dummy_sources ts (True, map_set (DUMMY_SOURCE_ID, t)
        \<lparr>link_source = DUMMY_SOURCE_ID, link_target = t, link_value = 1 / 10000, is_dummy = True\<rparr> m) = (b', m')"
      by simp
    from Cons.IH [OF this] show ?thesis by simp
  qed
qed

lemma add_dummy_targets_keys:
  "add_dummy_targets ss (b, m) = (b', m') \<Longrightarrow>
   fst ` set m' \<subseteq> fst ` set m \<union> set ss \<times> {DUMMY_TARGET_ID}"
proof (induction ss arbitrary: b m)
  case Nil
  then show ?case by simp
next
  case (Cons s ss)
  show ?case
  proof (cases "list_ex (\<lambda>(_, l). link_source l = s) m")
    case True
    with Cons show ?thesis by auto
  next
    case False
    with Cons.prems have "add_dummy_targets ss (True, map_set (s, DUMMY_TARGET_ID)
        \<lparr>link_source = s, link_target = DUMMY_TARGET_ID, link_value = 1 / 10000, is_dummy = True\<rparr> m) = (b', m')"
      by simp
    from Cons.IH [OF this] show ?thesis by auto
  qed
qed

lemma add_dummy_targets_flag:
  "add_dummy_targets ss (b, m) = (b', m') \<Longrightarrow>
   (DUMMY_TARGET_ID \<in> snd ` fst ` set m \<longrightarrow> b) \<Longrightarrow> (DUMMY_TARGET_ID \<in> snd ` fst ` set m' \<longrightarrow> b')"
proof (induction ss arbitrary: b m)
  case Nil
  then show ?case by simp
next
  case (Cons s ss)
  show ?case
  proof (cases "list_ex (\<lambda>(_, l). link_source l = s) m")
    case True
    with Cons show ?thesis by auto
  next
    case False
    with Cons.prems have "add_dummy_targets ss (True, map_set (s, DUMMY_TARGET_ID)
        \<lparr>link_source = s, link_target = DUMMY_TARGET_ID, link_value = 1 / 10000, is_dummy = True\<rparr> m) = (b', m')"
      by simp
    from Cons.IH [OF this] show ?thesis by simp
  qed
qed

lemma count_record_keys:
  "fst ` set (count_record src tgt ss ts m d) \<subseteq>
   fst ` set m \<union> node_id_of src ` set ss \<times> node_id_of tgt ` set ts"
  by (auto simp: count_record_def Let_def split: option.splits)

lemma aggregate_links_keys:
  "fst ` set (aggregate_links src tgt ss ts ds) \<subseteq> node_id_of src ` set ss \<times> node_id_of tgt ` set ts"
proof -
  have "fst ` set (fold (\<lambda>d m. count_record src tgt ss ts m d) ds m) \<subseteq>
        fst ` set m \<union> node_id_of src ` set ss \<times> node_id_of tgt ` set ts" for m
  proof (induction ds arbitrary: m)
    case Nil
    then show ?case by simp
  next
    case (Cons d ds)
    from Cons.IH [of "count_record src tgt ss ts m d"] count_record_keys [of src tgt ss ts m d]
    show ?case by auto
  qed
  then show ?thesis unfolding aggregate_links_def by fastforce
qed

lemma keys_fst_carry:
  assumes k2: "fst ` set m2 \<subseteq> fst ` set m1 \<union> A \<times> B" and x: "x \<notin> A"
    and d: "x \<in> fst ` fst ` set m2"
  shows "x \<in> fst ` fst ` set m1"
proof -
  obtain k where k: "x = fst k" "k \<in> fst ` set m2" using d by (rule imageE)
  have "k \<notin> A \<times> B" using k(1) x by (simp add: mem_Times_iff)
  with subsetD [OF k2 k(2)] have "k \<in> fst ` set m1" by blast
  with k(1) show ?thesis by (rule image_eqI)
qed

lemma build_sankey_facts:
  fixes data src tgt
  defines "ss \<equiv> sorted_sources data src" and "ts \<equiv> sorted_targets data tgt"
  obtains ds dt m2 where
    "build_sankey data src tgt =
       ((if ds then [dummy_node DUMMY_SOURCE_ID] else []) @ map (mk_node src) ss @
        map (mk_node tgt) ts @ (if dt then [dummy_node DUMMY_TARGET_ID] else []), map snd m2)"
    "wf_links m2" "dummy_wf m2"
    "filter (\<lambda>l. \<not> is_dummy l) (map snd m2) =
     filter (\<lambda>l. \<not> is_dummy l) (map snd (aggregate_links src tgt ss ts (filtered_data data src tgt)))"
    "fst ` set m2 \<subseteq> node_id_of src ` set ss \<times> node_id_of tgt ` set ts \<union>
       {DUMMY_SOURCE_ID} \<times> node_id_of tgt ` set ts \<union> node_id_of src ` set ss \<times> {DUMMY_TARGET_ID}"
    "DUMMY_SOURCE_ID \<in> fst ` fst ` set m2 \<longrightarrow> ds"
    "DUMMY_TARGET_ID \<in> snd ` fst ` set m2 \<longrightarrow> dt"
    "node_id_of src ` set ss \<subseteq> fst ` fst ` set m2"
    "node_id_of tgt ` set ts \<subseteq> snd ` fst ` set m2"
proof -
  define m0 where "m0 = aggregate_links src tgt ss ts (filtered_data data src tgt)"
  obtain ds m1 where 1: "add_dummy_sources (map (node_id_of tgt) ts) (False, m0) = (ds, m1)"
    by (cases "add_dummy_sources (map (node_id_of tgt) ts) (False, m0)")
  obtain dt m2 where 2: "add_dummy_targets (map (node_id_of src) ss) (False, m1) = (dt, m2)"
    by (cases "add_dummy_targets (map (node_id_of src) ss) (False, m1)")
  have b: "build_sankey data src tgt =
       ((if ds then [dummy_node DUMMY_SOURCE_ID] else []) @ map (mk_node src) ss @
        map (mk_node tgt) ts @ (if dt then [dummy_node DUMMY_TARGET_ID] else []), map snd m2)"
    using 1 2 by (simp add: build_sankey_def ss_def ts_def m0_def Let_def)
  have w0: "wf_links m0" and d0: "dummy_wf m0"
    by (simp_all add: m0_def aggregate_links_wf aggregate_links_dummy_wf)
  have k0: "fst ` set m0 \<subseteq> node_id_of src ` set ss \<times> node_id_of tgt ` set ts"
    unfolding m0_def by (rule aggregate_links_keys)
  note P1 = add_dummy_sources_props [OF w0 d0 1]
  note P2 = add_dummy_targets_props [OF conjunct1 [OF P1] conjunct1 [OF conjunct2 [OF P1]] 2]
  have k1: "fst ` set m1 \<subseteq> node_id_of src ` set ss \<times> node_id_of tgt ` set ts \<union>
       {DUMMY_SOURCE_ID} \<times> node_id_of tgt ` set ts"
    using add_dummy_sources_keys [OF 1] k0 by auto
  have k2: "fst ` set m2 \<subseteq> fst ` set m1 \<union> node_id_of src ` set ss \<times> {DUMMY_TARGET_ID}"
    using add_dummy_targets_keys [OF 2] by auto
  have "DUMMY_SOURCE_ID \<notin> fst ` fst ` set m0" using k0 by auto
  then have f1: "DUMMY_SOURCE_ID \<in> fst ` fst ` set m1 \<longrightarrow> ds"
    using add_dummy_sources_flag [OF 1] by blast
  have "DUMMY_SOURCE_ID \<notin> node_id_of src ` set ss"
    by (metis imageE node_id_not_dummy(1))
  note nd = this
  have "DUMMY_SOURCE_ID \<in> fst ` fst ` set m2 \<longrightarrow> ds"
  proof
    assume "DUMMY_SOURCE_ID \<in> fst ` fst ` set m2"
    then have "DUMMY_SOURCE_ID \<in> fst ` fst ` set m1" by (rule keys_fst_carry [OF k2 nd])
    with f1 show ds by (rule mp)
  qed
  moreover have "DUMMY_TARGET_ID \<notin> snd ` fst ` set m1" using k1 by auto
  then have "DUMMY_TARGET_ID \<in> snd ` fst ` set m2 \<longrightarrow> dt"
    using add_dummy_targets_flag [OF 2] by blast
  moreover have "node_id_of tgt ` set ts \<subseteq> snd ` fst ` set m2"
  proof -
    have "snd ` fst ` set m1 \<subseteq> snd ` fst ` set m2" by (rule image_mono) (use P2 in simp)
    moreover have "node_id_of tgt ` set ts \<subseteq> snd ` fst ` set m1" using P1 by auto
    ultimately show ?thesis by (rule subset_trans [rotated])
  qed
  moreover have "node_id_of src ` set ss \<subseteq> fst ` fst ` set m2"
    using P2 by auto
  moreover have "fst ` set m2 \<subseteq> node_id_of src ` set ss \<times> node_id_of tgt ` set ts \<union>
       {DUMMY_SOURCE_ID} \<times> node_id_of tgt ` set ts \<union> node_id_of src ` set ss \<times> {DUMMY_TARGET_ID}"
    using k1 k2 by blast
  ultimately show ?thesis using that b P1 P2 m0_def by simp
qed

lemma getValidYearsCategory_eq: "getValidYearsCategory x = getYearsCategory x"
  by (simp add: getValidYearsCategory_def getYearsCategory_def)

lemma getYearsCategory_mem: "getYearsCategory x \<in> set YEARS_CATEGORIES"
  using getYearsCategory_cases [of x] by (simp add: YEARS_CATEGORIES_def)

lemma getYearsCategory_ne: "getYearsCategory x \<noteq> []"
  by (simp add: getYearsCategory_def)

lemma set_string_values: "set (string_values vs) = {x. Some x \<in> set vs \<and> x \<noteq> []}"
  by (auto simp: string_values_def split: option.splits if_splits)

lemma node_id_simps [simp]: "node_id (mk_node f x) = node_id_of f x" "node_id (dummy_node i) = i"
  by (simp_all add: mk_node_def dummy_node_def)

lemma set_sort_categories [simp]: "set (sort_categories f cs) = set cs"
  by (simp add: sort_categories_def)

lemma mem_sources:
  assumes "d \<in> set data" "field_category f d = Some x"
  shows "x \<in> set (sources data f) \<longleftrightarrow> x \<noteq> []"
proof (cases "f = YearsAtMedtronic")
  case True
  with assms(2) have x: "x = getValidYearsCategory (years_or_zero d)"
    by (simp add: field_category_def getValidYearsCategory_eq)
  have "x \<in> set (years_present data)"
    using assms(1) getYearsCategory_mem
    by (auto simp: years_present_def list_ex_iff x getValidYearsCategory_eq)
  with True assms(1) x show ?thesis by (auto simp: sources_def getValidYearsCategory_eq getYearsCategory_ne)
next
  case False
  with assms have "Some x \<in> set (map (raw_field f) data)" by (force simp: field_category_def)
  with False assms(1) show ?thesis by (auto simp: sources_def set_string_values)
qed

lemma mem_targets:
  assumes "d \<in> set data" "field_category f d = Some x"
  shows "x \<in> set (targets data f) \<longleftrightarrow> x \<noteq> []"
  using mem_sources [OF assms] assms(1) by (auto simp: sources_def targets_def)

lemma counted_iff:
  assumes "d \<in> set data"
  shows "counted src tgt (sorted_sources data src) (sorted_targets data tgt) d \<longleftrightarrow>
         present (field_category src d) \<and> present (field_category tgt d)"
  using mem_sources [OF assms, of src] mem_targets [OF assms, of tgt]
  by (auto simp: counted_def present_def sorted_sources_def sorted_targets_def split: option.splits)

lemma filtered_links_nondummy:
  assumes "wf_links m" "dummy_wf m"
  shows "filtered_links (map snd m) = filter (\<lambda>l. \<not> is_dummy l) (map snd m)"
  unfolding filtered_links_def
proof (rule filter_cong [OF refl])
  fix l assume "l \<in> set (map snd m)"
  then obtain k where "(k, l) \<in> set m" by auto
  with assms show "(link_source l \<noteq> DUMMY_SOURCE_ID \<and> link_target l \<noteq> DUMMY_TARGET_ID) = (\<not> is_dummy l)"
    unfolding wf_links_def dummy_wf_def by fastforce
qed

lemma aggregate_links_real:
  "filter (\<lambda>l. \<not> is_dummy l) (map snd (aggregate_links src tgt ss ts ds)) =
   map snd (aggregate_links src tgt ss ts ds)"
proof (rule filter_True, rule ballI)
  fix l assume "l \<in> set (map snd (aggregate_links src tgt ss ts ds))"
  then obtain k where kl: "(k, l) \<in> set (aggregate_links src tgt ss ts ds)" by auto
  then have "k \<in> node_id_of src ` set ss \<times> node_id_of tgt ` set ts"
    using aggregate_links_keys by fastforce
  then have "fst k \<noteq> DUMMY_SOURCE_ID" "snd k \<noteq> DUMMY_TARGET_ID" by auto
  with kl aggregate_links_dummy_wf show "\<not> is_dummy l" unfolding dummy_wf_def by fastforce
qed

lemma sankey_drawn_weight:
  "sum_list (map link_value (filtered_links (snd (build_sankey data src tgt)))) =
   real (length (filter (counted src tgt (sorted_sources data src) (sorted_targets data tgt))
                        (filtered_data data src tgt)))"
proof -
  define ss ts where "ss = sorted_sources data src" and "ts = sorted_targets data tgt"
  define m0 where "m0 = aggregate_links src tgt ss ts (filtered_data data src tgt)"
  obtain ds dt m2 where b: "snd (build_sankey data src tgt) = map snd m2" and w: "wf_links m2" "dummy_wf m2"
    and nd: "filter (\<lambda>l. \<not> is_dummy l) (map snd m2) = filter (\<lambda>l. \<not> is_dummy l) (map snd m0)"
    by (rule build_sankey_facts [of data src tgt]) (simp_all add: ss_def ts_def m0_def)
  have "filtered_links (snd (build_sankey data src tgt)) = map snd m0"
    using filtered_links_nondummy [OF w] nd aggregate_links_real b by (simp add: m0_def)
  moreover have "sum_list (map link_value (map snd m0)) =
      real (length (filter (counted src tgt ss ts) (filtered_data data src tgt)))"
    using aggregate_links_sum by (simp add: m0_def comp_def)
  ultimately show ?thesis by (simp add: ss_def ts_def)
qed

text \<open>
  C11: conservation of the flows. The drawn links (dummies filtered out) carry a
  total weight equal to the number of records of \<open>filteredData\<close> whose source and
  target categories are both present: every such record is counted exactly once and
  nothing else is counted.
\<close>

theorem sankey_conservation:
  "sum_list (map link_value (filtered_links (snd (build_sankey data src tgt)))) =
   real (length (filter (\<lambda>d. present (field_category src d) \<and> present (field_category tgt d))
                        (filtered_data data src tgt)))"
proof -
  have "filter (counted src tgt (sorted_sources data src) (sorted_targets data tgt)) (filtered_data data src tgt) =
      filter (\<lambda>d. present (field_category src d) \<and> present (field_category tgt d)) (filtered_data data src tgt)"
  proof (rule filter_cong [OF refl])
    fix d assume "d \<in> set (filtered_data data src tgt)"
    then have "d \<in> set data" by (simp add: filtered_data_def)
    then show "counted src tgt (sorted_sources data src) (sorted_targets data tgt) d =
               (present (field_category src d) \<and> present (field_category tgt d))"
      by (rule counted_iff)
  qed
  then show ?thesis using sankey_drawn_weight [of data src tgt] by simp
qed

lemma wf_links_pair:
  "wf_links m \<Longrightarrow> (k, l) \<in> set m \<Longrightarrow> link_source l = fst k \<and> link_target l = snd k \<and> 0 < link_value l"
  unfolding wf_links_def by (drule (1) bspec) simp

lemma wf_links_ends:
  assumes "wf_links m" "l \<in> set (map snd m)"
  shows "\<exists>k \<in> fst ` set m. link_source l = fst k \<and> link_target l = snd k \<and> 0 < link_value l"
proof -
  from assms(2) obtain k where kl: "(k, l) \<in> set m" by auto
  then have "k \<in> fst ` set m" by (rule rev_image_eqI) simp
  with wf_links_pair [OF assms(1) kl] show ?thesis by blast
qed

lemma wf_links_key:
  assumes "wf_links m" "k \<in> fst ` set m"
  shows "\<exists>l \<in> set (map snd m). link_source l = fst k \<and> link_target l = snd k"
proof -
  from assms(2) obtain l where kl: "(k, l) \<in> set m" by auto
  have "l \<in> snd ` set m" by (rule rev_image_eqI [OF kl]) simp
  then have "l \<in> set (map snd m)" by simp
  with wf_links_pair [OF assms(1) kl] show ?thesis by blast
qed

text \<open>
  C12: every link the render passes to \<open>d3-sankey\<close> joins two nodes of its node
  list (the layout throws on a link to a missing node id); in particular a dummy link
  is only ever added together with its dummy node.
\<close>

theorem sankey_links_reference_nodes:
  "link_source ` set (snd (build_sankey data src tgt)) \<subseteq> node_id ` set (fst (build_sankey data src tgt)) \<and>
   link_target ` set (snd (build_sankey data src tgt)) \<subseteq> node_id ` set (fst (build_sankey data src tgt))"
proof -
  define ss ts where "ss = sorted_sources data src" and "ts = sorted_targets data tgt"
  define B where "B = build_sankey data src tgt"
  obtain ds dt m2 where b: "B =
       ((if ds then [dummy_node DUMMY_SOURCE_ID] else []) @ map (mk_node src) ss @
        map (mk_node tgt) ts @ (if dt then [dummy_node DUMMY_TARGET_ID] else []), map snd m2)"
    and w: "wf_links m2"
    and k: "fst ` set m2 \<subseteq> node_id_of src ` set ss \<times> node_id_of tgt ` set ts \<union>
       {DUMMY_SOURCE_ID} \<times> node_id_of tgt ` set ts \<union> node_id_of src ` set ss \<times> {DUMMY_TARGET_ID}"
    and fs: "DUMMY_SOURCE_ID \<in> fst ` fst ` set m2 \<longrightarrow> ds"
    and ft: "DUMMY_TARGET_ID \<in> snd ` fst ` set m2 \<longrightarrow> dt"
    unfolding B_def by (rule build_sankey_facts [of data src tgt]) (simp_all add: ss_def ts_def)
  define N where "N = node_id ` set (fst B)"
  have ids: "N = (if ds then {DUMMY_SOURCE_ID} else {}) \<union> node_id_of src ` set ss \<union>
     node_id_of tgt ` set ts \<union> (if dt then {DUMMY_TARGET_ID} else {})"
    unfolding N_def b by (simp add: image_Un image_image)
  have ends: "link_source l \<in> N \<and> link_target l \<in> N" if l: "l \<in> set (map snd m2)" for l
  proof -
    obtain key where key: "key \<in> fst ` set m2" "link_source l = fst key" "link_target l = snd key"
      using wf_links_ends [OF w l] by blast
    have "fst key \<in> fst ` fst ` set m2" "snd key \<in> snd ` fst ` set m2" using key(1) by simp_all
    with fs ft have d: "fst key = DUMMY_SOURCE_ID \<Longrightarrow> ds" "snd key = DUMMY_TARGET_ID \<Longrightarrow> dt"
      by simp_all
    have "fst key \<in> node_id_of src ` set ss \<or> fst key = DUMMY_SOURCE_ID"
         "snd key \<in> node_id_of tgt ` set ts \<or> snd key = DUMMY_TARGET_ID"
      using subsetD [OF k key(1)] by (simp_all add: mem_Times_iff) blast+
    with d show ?thesis unfolding ids key(2,3) by auto
  qed
  have "set (snd B) = set (map snd m2)" by (simp add: b)
  with ends have "link_source ` set (snd B) \<subseteq> N \<and> link_target ` set (snd B) \<subseteq> N" by auto
  then show ?thesis by (simp add: N_def B_def)
qed

text \<open>
  C13: every source category node has an outgoing link and every target category node
  an incoming one, and every link has a positive weight, so the layout gives every
  category node a nonzero height (the purpose of the dummy links).
\<close>

theorem sankey_nodes_have_links:
  "node_id_of src ` set (sorted_sources data src) \<subseteq> link_source ` set (snd (build_sankey data src tgt)) \<and>
   node_id_of tgt ` set (sorted_targets data tgt) \<subseteq> link_target ` set (snd (build_sankey data src tgt)) \<and>
   link_value ` set (snd (build_sankey data src tgt)) \<subseteq> {0<..}"
proof -
  define ss ts where "ss = sorted_sources data src" and "ts = sorted_targets data tgt"
  define B where "B = build_sankey data src tgt"
  obtain ds dt m2 where b: "snd B = map snd m2"
    and w: "wf_links m2"
    and cs: "node_id_of src ` set ss \<subseteq> fst ` fst ` set m2"
    and ct: "node_id_of tgt ` set ts \<subseteq> snd ` fst ` set m2"
    unfolding B_def by (rule build_sankey_facts [of data src tgt]) (simp_all add: ss_def ts_def)
  have src: "x \<in> link_source ` set (snd B)" if "x \<in> fst ` fst ` set m2" for x
  proof -
    from that obtain k where k: "k \<in> fst ` set m2" "x = fst k" by blast
    from wf_links_key [OF w k(1)] obtain l where "l \<in> set (map snd m2)" "link_source l = fst k" by blast
    with k(2) b show ?thesis by (metis image_eqI)
  qed
  have tgt: "x \<in> link_target ` set (snd B)" if "x \<in> snd ` fst ` set m2" for x
  proof -
    from that obtain k where k: "k \<in> fst ` set m2" "x = snd k" by blast
    from wf_links_key [OF w k(1)] obtain l where "l \<in> set (map snd m2)" "link_target l = snd k" by blast
    with k(2) b show ?thesis by (metis image_eqI)
  qed
  have pos: "0 < link_value l" if "l \<in> set (snd B)" for l
  proof -
    from that b have "l \<in> set (map snd m2)" by simp
    from wf_links_ends [OF w this] show ?thesis by blast
  qed
  have "node_id_of src ` set ss \<subseteq> link_source ` set (snd B)" using cs src by blast
  moreover have "node_id_of tgt ` set ts \<subseteq> link_target ` set (snd B)" using ct tgt by blast
  moreover have "link_value ` set (snd B) \<subseteq> {0<..}" using pos by auto
  ultimately show ?thesis unfolding B_def ss_def ts_def by (intro conjI)
qed

lemma node_id_of_key: "takeWhile (\<lambda>c. c \<noteq> CHR '':'') (node_id_of f x) = field_key f"
  by (cases f) (simp_all add: node_id_of_def)

lemma field_key_inj: "field_key f = field_key g \<longleftrightarrow> f = g"
  by (cases f; cases g) simp_all

lemma node_id_of_eq: "node_id_of f x = node_id_of g y \<longleftrightarrow> f = g \<and> x = y"
proof
  assume e: "node_id_of f x = node_id_of g y"
  then have "field_key f = field_key g" using node_id_of_key [of f x] node_id_of_key [of g y] by simp
  with e show "f = g \<and> x = y" by (simp add: field_key_inj node_id_of_def)
qed simp

lemma distinct_string_values: "distinct (string_values vs)"
proof -
  have "distinct (concat (map (\<lambda>v. case v of Some x \<Rightarrow> if x \<noteq> [] then [x] else [] | None \<Rightarrow> []) ws))"
    if "distinct ws" for ws :: "string option list"
    using that by (induction ws) (auto split: option.splits)
  then show ?thesis unfolding string_values_def by simp
qed

lemma distinct_sorted_sources: "distinct (sorted_sources data f)"
  by (simp add: sorted_sources_def sort_categories_def sources_def years_present_def
      YEARS_CATEGORIES_def distinct_string_values)

lemma distinct_sorted_targets: "distinct (sorted_targets data f)"
  by (simp add: sorted_targets_def sort_categories_def targets_def years_present_def
      YEARS_CATEGORIES_def distinct_string_values)

lemma distinct_node_ids:
  "distinct (map (node_id_of f) xs) \<longleftrightarrow> distinct xs"
  by (simp add: distinct_map inj_on_def node_id_of_eq)

lemma dummy_ids_differ: "DUMMY_SOURCE_ID \<noteq> DUMMY_TARGET_ID"
  by (simp add: DUMMY_SOURCE_ID_def DUMMY_TARGET_ID_def)

lemma sankey_graph_simple:
  assumes "src \<noteq> tgt"
  shows "distinct (map node_id (fst (build_sankey data src tgt))) \<and>
         (\<forall>l \<in> set (snd (build_sankey data src tgt)). link_source l \<noteq> link_target l)"
proof -
  define ss ts where "ss = sorted_sources data src" and "ts = sorted_targets data tgt"
  define B where "B = build_sankey data src tgt"
  obtain ds dt m2 where b: "B =
       ((if ds then [dummy_node DUMMY_SOURCE_ID] else []) @ map (mk_node src) ss @
        map (mk_node tgt) ts @ (if dt then [dummy_node DUMMY_TARGET_ID] else []), map snd m2)"
    and w: "wf_links m2"
    and k: "fst ` set m2 \<subseteq> node_id_of src ` set ss \<times> node_id_of tgt ` set ts \<union>
       {DUMMY_SOURCE_ID} \<times> node_id_of tgt ` set ts \<union> node_id_of src ` set ss \<times> {DUMMY_TARGET_ID}"
    unfolding B_def by (rule build_sankey_facts [of data src tgt]) (simp_all add: ss_def ts_def)
  have ids: "map node_id (fst B) = (if ds then [DUMMY_SOURCE_ID] else []) @ map (node_id_of src) ss @
      map (node_id_of tgt) ts @ (if dt then [DUMMY_TARGET_ID] else [])"
    unfolding b by simp
  have cross: "node_id_of src x \<noteq> node_id_of tgt y" for x y
    using assms by (simp add: node_id_of_eq)
  have ds_out: "DUMMY_SOURCE_ID \<notin> node_id_of f ` A" "DUMMY_TARGET_ID \<notin> node_id_of f ` A" for f A
    by (metis imageE node_id_not_dummy(1), metis imageE node_id_not_dummy(2))
  have "distinct (map node_id (fst B))"
    unfolding ids using distinct_sorted_sources [of data src] distinct_sorted_targets [of data tgt]
      cross ds_out dummy_ids_differ
    by (auto simp: distinct_node_ids ss_def ts_def)
  moreover have "link_source l \<noteq> link_target l" if l: "l \<in> set (snd B)" for l
  proof -
    from l b have "l \<in> set (map snd m2)" by simp
    then obtain key where key: "key \<in> fst ` set m2" "link_source l = fst key" "link_target l = snd key"
      using wf_links_ends [OF w] by blast
    from subsetD [OF k key(1)] show ?thesis unfolding key(2,3)
      using cross dummy_ids_differ node_id_not_dummy [THEN not_sym] by (cases key) auto
  qed
  ultimately show ?thesis unfolding B_def by blast
qed

lemma fold_pick_max_mem: "fold pick_max ls a \<in> insert a (set ls)"
  by (induction ls arbitrary: a) (auto split: if_splits)

lemma fold_pick_max_acc: "link_value a \<le> link_value (fold pick_max ls a)"
proof (induction ls arbitrary: a)
  case Nil
  then show ?case by simp
next
  case (Cons b ls)
  have "link_value a \<le> link_value (pick_max b a)" by simp
  with Cons.IH [of "pick_max b a"] show ?case by simp
qed

lemma fold_pick_max_ge: "b \<in> set ls \<Longrightarrow> link_value b \<le> link_value (fold pick_max ls a)"
proof (induction ls arbitrary: a)
  case Nil
  then show ?case by simp
next
  case (Cons c ls)
  show ?case
  proof (cases "b = c")
    case True
    have "link_value c \<le> link_value (pick_max c a)" by simp
    with fold_pick_max_acc [of "pick_max c a" ls] True show ?thesis by simp
  next
    case False
    with Cons show ?thesis by simp
  qed
qed

text \<open>
  The "Most Common Flow" insight is a link of the list with the largest weight.
\<close>

theorem most_common_max:
  assumes "most_common ls = Some l"
  shows "l \<in> set ls \<and> link_value ` set ls \<subseteq> {..link_value l}"
proof (cases ls)
  case Nil
  with assms show ?thesis by (simp add: most_common_def)
next
  case (Cons a rest)
  with assms have l: "l = fold (\<lambda>b a. if link_value b > link_value a then b else a) ls a"
    by (simp add: most_common_def)
  have "l \<in> set ls" using fold_pick_max_mem [of rest "a"] Cons l by auto
  moreover have "link_value ` set ls \<subseteq> {..link_value l}"
    using fold_pick_max_ge [of _ ls a] l by auto
  ultimately show ?thesis by blast
qed

theorem most_common_max_witness:
  "most_common [\<lparr>link_source = ''a'', link_target = ''b'', link_value = 1, is_dummy = False\<rparr>,
                \<lparr>link_source = ''a'', link_target = ''c'', link_value = 3, is_dummy = False\<rparr>] =
     Some \<lparr>link_source = ''a'', link_target = ''c'', link_value = 3, is_dummy = False\<rparr> \<and>
   link_value ` set [\<lparr>link_source = ''a'', link_target = ''b'', link_value = 1, is_dummy = False\<rparr>,
                \<lparr>link_source = ''a'', link_target = ''c'', link_value = 3, is_dummy = False\<rparr>]
     \<subseteq> {..link_value \<lparr>link_source = ''a'', link_target = ''c'', link_value = (3::real), is_dummy = False\<rparr>}"
proof -
  have e: "most_common [\<lparr>link_source = ''a'', link_target = ''b'', link_value = 1, is_dummy = False\<rparr>,
                \<lparr>link_source = ''a'', link_target = ''c'', link_value = 3, is_dummy = False\<rparr>] =
     Some \<lparr>link_source = ''a'', link_target = ''c'', link_value = 3, is_dummy = False\<rparr>"
    by (simp add: most_common_def)
  with most_common_max [OF e] show ?thesis by simp
qed

lemma most_common_None: "most_common ls = None \<longleftrightarrow> ls = []"
  by (simp add: most_common_def split: list.splits)

end
