(* ===== verification/DataFeed.thy ===== *)
theory DataFeed
  imports Survey
begin

text \<open>
  The data feed of both diagrams, \<open>useVisualizationData.ts\<close>: the validation of a
  response row, the reduction of the loaded rows to one response per attendee (the
  latest by \<open>updated_at\<close>), the initial load with its fallback to the built-in mock
  data and its retry counter, and the realtime handler that upserts or deletes single
  rows. The network calls themselves are inputs: a fetch is a value of
  \<open>fetch_result\<close>, a realtime message a value of \<open>realtime_event\<close>. The attendee
  dedupe is shown to refine a map specification (attendee id to latest response).
\<close>

subsection \<open>Validation\<close>

text \<open>
  \<open>validateResponse\<close>: a numeric tenure that is not negative, the four string
  fields present and non-empty, and a joined attendee object.
\<close>

definition validateResponse :: "survey_response \<Rightarrow> bool" where
  "validateResponse r \<longleftrightarrow>
     (case years_at_medtronic r of None \<Rightarrow> False | Some y \<Rightarrow> \<not> y < 0) \<and>
     present (learning_style r) \<and> present (shaped_by r) \<and>
     present (peak_performance r) \<and> present (motivation r) \<and> has_attendee r"

subsection \<open>One response per attendee\<close>

text \<open>
  One step of the \<open>reduce\<close>: a new attendee is appended; a known one is replaced
  in place when the new row is strictly newer.
\<close>

definition dedupe_step :: "survey_response list \<Rightarrow> survey_response \<Rightarrow> survey_response list" where
  "dedupe_step acc cur =
     (let i = js_find_index (\<lambda>r. attendee_id r = attendee_id cur) acc
      in if i = -1 then acc @ [cur]
         else if updated_at (acc ! nat i) < updated_at cur then acc[nat i := cur]
         else acc)"

definition dedupe :: "survey_response list \<Rightarrow> survey_response list" where
  "dedupe rs = fold (\<lambda>cur acc. dedupe_step acc cur) rs []"

text \<open>
  The specification the dedupe implements: a map from attendee id to the latest
  response seen so far (the first of equally recent ones).
\<close>

definition newer :: "(string \<rightharpoonup> survey_response) \<Rightarrow> survey_response \<Rightarrow> string \<rightharpoonup> survey_response" where
  "newer m c =
     (case m (attendee_id c) of
        None \<Rightarrow> m(attendee_id c \<mapsto> c)
      | Some r \<Rightarrow> if updated_at r < updated_at c then m(attendee_id c \<mapsto> c) else m)"

definition latest :: "survey_response list \<Rightarrow> string \<rightharpoonup> survey_response" where
  "latest rs = fold (\<lambda>c m. newer m c) rs Map.empty"

text \<open>The abstraction of a response list: the map from attendee id to its response.\<close>

definition by_attendee :: "survey_response list \<Rightarrow> string \<rightharpoonup> survey_response" where
  "by_attendee xs = map_of (map (\<lambda>r. (attendee_id r, r)) xs)"

subsection \<open>Initial load\<close>

datatype fetch_result = FetchOk "survey_response list" | FetchError string

text \<open>
  The hook's state, with the effect-local \<open>mounted\<close> flag and \<open>retryCount\<close>
  variable of the loading effect.
\<close>

record feed_state =
  feed_data :: "survey_response list"
  isLoading :: bool
  feed_error :: "string option"
  isMockData :: bool
  feed_mounted :: bool
  retryCount :: nat

definition MAX_RETRIES :: nat where "MAX_RETRIES = 3"

text \<open>
  The three mock rows. Their timestamps \<open>2024-01-01T00:00:00Z\<close> are read as
  seconds since the epoch.
\<close>

definition mock_row ::
  "string \<Rightarrow> string \<Rightarrow> real \<Rightarrow> string \<Rightarrow> string \<Rightarrow> string \<Rightarrow> string \<Rightarrow> survey_response" where
  "mock_row i a y ls sb pp mo =
     \<lparr>resp_id = i, attendee_id = a, years_at_medtronic = Some y, learning_style = Some ls,
      shaped_by = Some sb, peak_performance = Some pp, motivation = Some mo,
      updated_at = 1704067200, has_attendee = True, test_data = False\<rparr>"

definition mockData :: "survey_response list" where
  "mockData =
     [mock_row ''mock-1'' ''mock-attendee-1'' 5 ''visual'' ''mentor'' ''Extrovert, Morning'' ''growth'',
      mock_row ''mock-2'' ''mock-attendee-2'' 10 ''auditory'' ''challenge'' ''Introvert, Morning'' ''impact'',
      mock_row ''mock-3'' ''mock-attendee-3'' 15 ''kinesthetic'' ''success'' ''Ambivert, Morning'' ''purpose'']"

text \<open>The state changes \<open>fetchData\<close> makes before its request.\<close>

definition fetch_start :: "bool \<Rightarrow> feed_state \<Rightarrow> feed_state" where
  "fetch_start isRetry st =
     (if isRetry then st\<lparr>feed_error := Some ''Retrying connection...''\<rparr>
      else st\<lparr>isLoading := True, feed_error := None\<rparr>)"

text \<open>
  What it does with the answer: valid rows deduplicated, or the mock data when there
  are none; on an error, a retry after \<open>1000 * retryCount\<close> ms while retrying and
  under the limit, the mock data otherwise; then the \<open>finally\<close> clause. The second
  component is the delay of a scheduled retry.
\<close>

definition fetch_finish :: "bool \<Rightarrow> fetch_result \<Rightarrow> feed_state \<Rightarrow> feed_state \<times> nat option" where
  "fetch_finish isRetry res st =
     (if \<not> feed_mounted st then (st, None)
      else
        let (st1, retry) =
          (case res of
             FetchOk rs \<Rightarrow>
               (if rs \<noteq> [] then st\<lparr>feed_data := dedupe (filter validateResponse rs), isMockData := False,
                                    feed_error := None\<rparr>
                else st\<lparr>feed_data := mockData, isMockData := True, feed_error := None\<rparr>, None)
           | FetchError msg \<Rightarrow>
               (if isRetry \<and> retryCount st < MAX_RETRIES
                then (st\<lparr>retryCount := Suc (retryCount st)\<rparr>, Some (1000 * Suc (retryCount st)))
                else (st\<lparr>feed_error := Some msg, feed_data := mockData, isMockData := True\<rparr>, None)))
        in (st1\<lparr>isLoading := False\<rparr>, retry))"

definition fetchData :: "bool \<Rightarrow> fetch_result \<Rightarrow> feed_state \<Rightarrow> feed_state \<times> nat option" where
  "fetchData isRetry res st = fetch_finish isRetry res (fetch_start isRetry st)"

text \<open>The hook's initial state, and the loading effect: \<open>fetchData()\<close> once.\<close>

definition feed_init :: feed_state where
  "feed_init = \<lparr>feed_data = [], isLoading = True, feed_error = None, isMockData = False,
                feed_mounted = True, retryCount = 0\<rparr>"

definition feed_load :: "fetch_result \<Rightarrow> feed_state" where
  "feed_load res = fst (fetchData False res feed_init)"

subsection \<open>Realtime updates\<close>

text \<open>
  A change message after its single-row fetch: an inserted or updated row, a failed
  fetch, or a deletion by row id. The effect's cleanup clears \<open>mounted\<close>.
\<close>

datatype realtime_event = RtUpsert survey_response | RtFetchError string | RtDelete string | RtUnmount

definition upsert_by_id :: "survey_response \<Rightarrow> survey_response list \<Rightarrow> survey_response list" where
  "upsert_by_id r xs =
     (let i = js_find_index (\<lambda>x. resp_id x = resp_id r) xs
      in if i = -1 then xs @ [r] else xs[nat i := r])"

definition realtime_step :: "realtime_event \<Rightarrow> feed_state \<Rightarrow> feed_state" where
  "realtime_step ev st =
     (case ev of
        RtUnmount \<Rightarrow> st\<lparr>feed_mounted := False\<rparr>
      | _ \<Rightarrow>
        if \<not> feed_mounted st then st
        else (case ev of
                RtUpsert r \<Rightarrow>
                  if validateResponse r then st\<lparr>feed_data := upsert_by_id r (feed_data st)\<rparr> else st
              | RtFetchError msg \<Rightarrow> st\<lparr>feed_error := Some msg\<rparr>
              | RtDelete i \<Rightarrow> st\<lparr>feed_data := filter (\<lambda>x. resp_id x \<noteq> i) (feed_data st)\<rparr>
              | RtUnmount \<Rightarrow> st))"

text \<open>A newer row of the first mock attendee, with a fresh row id.\<close>

definition late_row :: survey_response where
  "late_row = (mock_row ''mock-4'' ''mock-attendee-1'' 7 ''auditory'' ''mentor'' ''Extrovert, Morning'' ''impact'')
                \<lparr>updated_at := 1704153600\<rparr>"

text \<open>The states of the hook: one load, then any sequence of realtime messages.\<close>

inductive feed_reach :: "feed_state \<Rightarrow> bool" where
  loaded: "feed_reach (feed_load res)"
| realtime: "feed_reach st \<Longrightarrow> feed_reach (realtime_step ev st)"

subsection \<open>Properties of the feed\<close>

lemma map_of_list_update_key:
  "distinct (map fst xs) \<Longrightarrow> i < length xs \<Longrightarrow> fst (xs ! i) = k \<Longrightarrow>
   map_of (xs[i := (k, v)]) = (map_of xs)(k \<mapsto> v)"
proof (induction xs arbitrary: i)
  case Nil
  then show ?case by simp
next
  case (Cons x xs)
  show ?case
  proof (cases i)
    case 0
    with Cons.prems show ?thesis by (cases x) (simp add: fun_eq_iff)
  next
    case (Suc j)
    with Cons.prems have "k \<in> set (map fst xs)" "fst x \<noteq> k"
      by (auto simp: nth_mem)
    with Cons Suc show ?thesis by (cases x) (auto simp: fun_eq_iff)
  qed
qed

lemma by_attendee_found:
  assumes "distinct (map attendee_id acc)" "0 \<le> js_find_index (\<lambda>r. attendee_id r = a) acc"
  shows "by_attendee acc a = Some (acc ! nat (js_find_index (\<lambda>r. attendee_id r = a) acc))"
proof -
  let ?i = "nat (js_find_index (\<lambda>r. attendee_id r = a) acc)"
  from js_find_index_found [OF assms(2)] have i: "?i < length acc" "attendee_id (acc ! ?i) = a" by simp_all
  have "(a, acc ! ?i) \<in> set (map (\<lambda>r. (attendee_id r, r)) acc)"
    unfolding set_map by (rule rev_image_eqI [OF nth_mem [OF i(1)]]) (simp add: i(2))
  moreover have "distinct (map fst (map (\<lambda>r. (attendee_id r, r)) acc))" using assms(1) by (simp add: comp_def)
  ultimately show ?thesis unfolding by_attendee_def by (simp add: map_of_eq_Some_iff)
qed

lemma by_attendee_missing:
  "js_find_index (\<lambda>r. attendee_id r = a) acc = -1 \<Longrightarrow> by_attendee acc a = None"
  using js_find_index_neg [of "\<lambda>r. attendee_id r = a" acc]
  by (auto simp: by_attendee_def map_of_eq_None_iff)

lemma dedupe_step_refines:
  assumes "distinct (map attendee_id acc)"
  shows "distinct (map attendee_id (dedupe_step acc c)) \<and>
         by_attendee (dedupe_step acc c) = newer (by_attendee acc) c"
proof -
  define i where "i = js_find_index (\<lambda>r. attendee_id r = attendee_id c) acc"
  consider "i = -1" | "0 \<le> i" using js_find_index_cases i_def by blast
  then show ?thesis
  proof cases
    case 1
    then have none: "by_attendee acc (attendee_id c) = None" using by_attendee_missing i_def by simp
    have "\<forall>x \<in> set acc. attendee_id x \<noteq> attendee_id c"
      using js_find_index_neg [of "\<lambda>r. attendee_id r = attendee_id c" acc] 1 i_def by simp
    then have "attendee_id c \<notin> set (map attendee_id acc)" by auto
    with assms 1 none show ?thesis
      by (simp add: dedupe_step_def i_def [symmetric] newer_def by_attendee_def map_add_def fun_eq_iff
               map_of_append split: option.splits)
  next
    case 2
    have some: "by_attendee acc (attendee_id c) = Some (acc ! nat i)"
      using by_attendee_found [OF assms] 2 i_def by simp
    from js_find_index_found [of "\<lambda>r. attendee_id r = attendee_id c" acc] 2 have ix: "nat i < length acc" "attendee_id (acc ! nat i) = attendee_id c"
      unfolding i_def by simp_all
    have ne: "i \<noteq> -1" using 2 by simp
    show ?thesis
    proof (cases "updated_at (acc ! nat i) < updated_at c")
      case True
      have "map (\<lambda>r. (attendee_id r, r)) (acc[nat i := c]) =
            (map (\<lambda>r. (attendee_id r, r)) acc)[nat i := (attendee_id c, c)]" by (simp add: map_update)
      moreover have "map_of ((map (\<lambda>r. (attendee_id r, r)) acc)[nat i := (attendee_id c, c)]) =
            (by_attendee acc)(attendee_id c \<mapsto> c)"
        unfolding by_attendee_def using assms ix by (intro map_of_list_update_key) (simp_all add: comp_def)
      moreover have "map attendee_id (acc[nat i := c]) = map attendee_id acc"
        using ix by (metis list_update_id map_update)
      ultimately show ?thesis using True ne some assms
        by (simp add: dedupe_step_def i_def [symmetric] newer_def by_attendee_def)
    next
      case False
      with ne some assms show ?thesis by (simp add: dedupe_step_def i_def [symmetric] newer_def)
    qed
  qed
qed

lemma newer_keeps_latest:
  assumes inv: "\<forall>a r. m a = Some r \<longrightarrow> attendee_id r = a \<and> r \<in> S \<and> (\<forall>r' \<in> S. attendee_id r' = a \<longrightarrow> updated_at r' \<le> updated_at r)"
    and dom: "\<forall>r \<in> S. m (attendee_id r) \<noteq> None"
  shows "(\<forall>a r. newer m c a = Some r \<longrightarrow> attendee_id r = a \<and> r \<in> insert c S \<and>
            (\<forall>r' \<in> insert c S. attendee_id r' = a \<longrightarrow> updated_at r' \<le> updated_at r)) \<and>
         (\<forall>r \<in> insert c S. newer m c (attendee_id r) \<noteq> None)"
proof -
  have A: "\<forall>a r. newer m c a = Some r \<longrightarrow> attendee_id r = a \<and> r \<in> insert c S \<and>
            (\<forall>r' \<in> insert c S. attendee_id r' = a \<longrightarrow> updated_at r' \<le> updated_at r)"
  proof (intro allI impI)
  fix a r assume nr: "newer m c a = Some r"
  show "attendee_id r = a \<and> r \<in> insert c S \<and>
        (\<forall>r' \<in> insert c S. attendee_id r' = a \<longrightarrow> updated_at r' \<le> updated_at r)"
  proof (cases "a = attendee_id c")
    case False
    then have "m a = Some r" using nr by (auto simp: newer_def split: option.splits if_splits)
    with inv False show ?thesis by auto
  next
    case True
    show ?thesis
    proof (cases "m (attendee_id c)")
      case None
      then have "r = c" using nr True by (simp add: newer_def)
      moreover have "\<forall>r' \<in> S. attendee_id r' \<noteq> attendee_id c" using dom None by auto
      ultimately show ?thesis using True by auto
    next
      case (Some r0)
      with inv have r0: "attendee_id r0 = attendee_id c" "r0 \<in> S"
        "\<forall>r' \<in> S. attendee_id r' = attendee_id c \<longrightarrow> updated_at r' \<le> updated_at r0" by auto
      show ?thesis
      proof (cases "updated_at r0 < updated_at c")
        case lt: True
        then have "r = c" using nr True Some by (simp add: newer_def)
        with r0 lt True show ?thesis by force
      next
        case ge: False
        then have "r = r0" using nr True Some by (simp add: newer_def)
        with r0 ge True show ?thesis by force
      qed
    qed
  qed
  qed
  have B: "\<forall>r \<in> insert c S. newer m c (attendee_id r) \<noteq> None"
  proof
  fix r assume r: "r \<in> insert c S"
  show "newer m c (attendee_id r) \<noteq> None"
  proof (cases "attendee_id r = attendee_id c")
    case True
    then show ?thesis by (auto simp: newer_def split: option.splits)
  next
    case False
    with r have "r \<in> S" by auto
    with dom False show ?thesis by (auto simp: newer_def split: option.splits)
  qed
  qed
  from A B show ?thesis by blast
qed

lemma dedupe_fold_refines:
  "distinct (map attendee_id acc) \<Longrightarrow>
   distinct (map attendee_id (fold (\<lambda>cur acc. dedupe_step acc cur) rs acc)) \<and>
   by_attendee (fold (\<lambda>cur acc. dedupe_step acc cur) rs acc) = fold (\<lambda>c m. newer m c) rs (by_attendee acc)"
proof (induction rs arbitrary: acc)
  case Nil
  then show ?case by simp
next
  case (Cons c rs)
  from dedupe_step_refines [OF Cons.prems] Cons.IH [of "dedupe_step acc c"] show ?case by simp
qed

lemma fold_newer_keeps_latest:
  assumes "\<forall>a r. m a = Some r \<longrightarrow> attendee_id r = a \<and> r \<in> S \<and> (\<forall>r' \<in> S. attendee_id r' = a \<longrightarrow> updated_at r' \<le> updated_at r)"
    and "\<forall>r \<in> S. m (attendee_id r) \<noteq> None"
  shows "(\<forall>a r. fold (\<lambda>c m. newer m c) rs m a = Some r \<longrightarrow> attendee_id r = a \<and> r \<in> S \<union> set rs \<and>
            (\<forall>r' \<in> S \<union> set rs. attendee_id r' = a \<longrightarrow> updated_at r' \<le> updated_at r)) \<and>
         (\<forall>r \<in> S \<union> set rs. fold (\<lambda>c m. newer m c) rs m (attendee_id r) \<noteq> None)"
  using assms
proof (induction rs arbitrary: m S)
  case Nil
  then show ?case by simp
next
  case (Cons c rs)
  note step = newer_keeps_latest [OF Cons.prems, of c]
  from Cons.IH [OF conjunct1 [OF step] conjunct2 [OF step]] show ?case by simp
qed

lemma latest_spec:
  "(latest rs a = Some r \<longrightarrow> attendee_id r = a \<and> r \<in> set rs \<and>
      (\<forall>r' \<in> set rs. attendee_id r' = a \<longrightarrow> updated_at r' \<le> updated_at r)) \<and>
   (a \<in> attendee_id ` set rs \<longrightarrow> latest rs a \<noteq> None)"
  using fold_newer_keeps_latest [of Map.empty "{}" rs] by (auto simp: latest_def)

lemma latest_dom: "latest rs a \<noteq> None \<Longrightarrow> a \<in> attendee_id ` set rs"
  using latest_spec [of rs a] by (metis image_eqI not_None_eq)

text \<open>
  C16: the attendee dedupe refines its specification: read as a map from attendee id to
  response, the reduced list is exactly the map of latest responses, and it holds one
  response per attendee.
\<close>

theorem dedupe_refines_latest:
  "by_attendee (dedupe rs) = latest rs \<and> distinct (map attendee_id (dedupe rs))"
  using dedupe_fold_refines [of "[]" rs] by (simp add: dedupe_def latest_def by_attendee_def)

lemma by_attendee_mem:
  "distinct (map attendee_id xs) \<Longrightarrow> r \<in> set xs \<Longrightarrow> by_attendee xs (attendee_id r) = Some r"
  unfolding by_attendee_def by (rule map_of_is_SomeI) (auto simp: comp_def)

text \<open>
  C17: every response the dedupe keeps is one of the loaded rows and is at least as
  recent as every row of the same attendee, and no attendee is lost or invented.
\<close>

theorem dedupe_keeps_latest:
  assumes "r \<in> set (dedupe rs)"
  shows "r \<in> set rs \<and> updated_at ` {r' \<in> set rs. attendee_id r' = attendee_id r} \<subseteq> {..updated_at r} \<and>
         attendee_id ` set (dedupe rs) = attendee_id ` set rs"
proof -
  have d: "distinct (map attendee_id (dedupe rs))" and e: "by_attendee (dedupe rs) = latest rs"
    using dedupe_fold_refines [of "[]" rs] by (simp_all add: dedupe_def latest_def by_attendee_def)
  have "latest rs (attendee_id r) = Some r" using by_attendee_mem [OF d assms] e by simp
  with latest_spec [of rs "attendee_id r" r]
  have 1: "r \<in> set rs \<and> (\<forall>r' \<in> set rs. attendee_id r' = attendee_id r \<longrightarrow> updated_at r' \<le> updated_at r)"
    by simp
  have "a \<in> attendee_id ` set (dedupe rs) \<longleftrightarrow> a \<in> attendee_id ` set rs" for a
  proof -
    have "a \<in> attendee_id ` set (dedupe rs) \<longleftrightarrow> by_attendee (dedupe rs) a \<noteq> None"
      by (auto simp: by_attendee_def map_of_eq_None_iff image_image)
    also have "\<dots> \<longleftrightarrow> a \<in> attendee_id ` set rs"
      using e latest_spec [of rs a] latest_dom [of rs a] by auto
    finally show ?thesis .
  qed
  with 1 show ?thesis by blast
qed

theorem dedupe_keeps_latest_witness:
  "hd mockData \<in> set mockData \<and>
   updated_at ` {r' \<in> set mockData. attendee_id r' = attendee_id (hd mockData)} \<subseteq> {..updated_at (hd mockData)} \<and>
   attendee_id ` set (dedupe mockData) = attendee_id ` set mockData"
proof -
  have "hd mockData \<in> set (dedupe mockData)"
    by (simp add: mockData_def mock_row_def dedupe_def dedupe_step_def)
  then show ?thesis by (rule dedupe_keeps_latest)
qed

lemma dedupe_step_subset: "set (dedupe_step acc c) \<subseteq> insert c (set acc)"
  by (auto simp: dedupe_step_def Let_def dest: subsetD [OF set_update_subset_insert])

lemma dedupe_subset: "set (dedupe rs) \<subseteq> set rs"
proof -
  have "set (fold (\<lambda>cur acc. dedupe_step acc cur) rs acc) \<subseteq> set acc \<union> set rs" for acc
  proof (induction rs arbitrary: acc)
    case Nil
    then show ?case by simp
  next
    case (Cons c rs)
    from Cons.IH [of "dedupe_step acc c"] dedupe_step_subset [of acc c] show ?case by auto
  qed
  from this [of "[]"] show ?thesis by (simp add: dedupe_def)
qed

lemma mockData_valid: "list_all validateResponse mockData"
  by (simp add: mockData_def mock_row_def validateResponse_def present_def)

lemma fetchData_valid:
  assumes "list_all validateResponse (feed_data st)"
  shows "list_all validateResponse (feed_data (fst (fetchData b res st)))"
proof -
  have "list_all validateResponse (dedupe (filter validateResponse rs))" for rs
    using dedupe_subset [of "filter validateResponse rs"] by (auto simp: list_all_iff)
  with assms mockData_valid show ?thesis
    by (auto simp: fetchData_def fetch_start_def fetch_finish_def Let_def
             split: fetch_result.splits if_splits prod.splits)
qed

lemma js_find_index_none: "\<forall>x \<in> set xs. \<not> P x \<Longrightarrow> js_find_index P xs = -1"
  using js_find_index_cases [of P xs] js_find_index_neg [of P xs] by linarith

lemma upsert_by_id_fresh: "resp_id r \<notin> resp_id ` set xs \<Longrightarrow> upsert_by_id r xs = xs @ [r]"
proof -
  assume "resp_id r \<notin> resp_id ` set xs"
  then have "\<forall>x \<in> set xs. \<not> resp_id x = resp_id r" by (metis image_eqI)
  then show ?thesis by (simp add: upsert_by_id_def js_find_index_none)
qed

lemma upsert_by_id_set: "set (upsert_by_id r xs) \<subseteq> insert r (set xs)"
  by (auto simp: upsert_by_id_def Let_def dest: subsetD [OF set_update_subset_insert])

lemma realtime_step_valid:
  assumes "list_all validateResponse (feed_data st)"
  shows "list_all validateResponse (feed_data (realtime_step ev st))"
proof (cases ev)
  case (RtUpsert r)
  with assms upsert_by_id_set [of r "feed_data st"] show ?thesis
    by (auto simp: realtime_step_def list_all_iff)
qed (use assms in \<open>auto simp: realtime_step_def list_all_iff\<close>)

lemma feed_init_valid: "list_all validateResponse (feed_data feed_init)"
  by (simp add: feed_init_def)

lemma feed_data_valid:
  assumes "feed_reach st"
  shows "list_all validateResponse (feed_data st)"
  using assms
proof (induction rule: feed_reach.induct)
  case (loaded res)
  then show ?case unfolding feed_load_def by (rule fetchData_valid [OF feed_init_valid])
next
  case (realtime st ev)
  from realtime.IH show ?case by (rule realtime_step_valid)
qed

text \<open>
  C18: error path of the initial load. The loading effect calls \<open>fetchData()\<close> with
  \<open>isRetry\<close> false, so no retry is ever scheduled, whatever the answer; a failed
  request goes straight to the mock data with the error message.
\<close>

theorem initial_fetch_no_retry:
  assumes "feed_mounted st"
  shows "snd (fetchData False res st) = None \<and>
         fetchData False (FetchError msg) st =
           (st\<lparr>isLoading := False, feed_error := Some msg, feed_data := mockData, isMockData := True\<rparr>, None)"
  using assms by (auto simp: fetchData_def fetch_start_def fetch_finish_def split: fetch_result.splits)

theorem initial_fetch_no_retry_witness:
  "snd (fetchData False (FetchError ''timeout'') feed_init) = None \<and>
   fetchData False (FetchError ''timeout'') feed_init =
     (feed_init\<lparr>isLoading := False, feed_error := Some ''timeout'', feed_data := mockData, isMockData := True\<rparr>, None)"
  by (rule initial_fetch_no_retry) (simp add: feed_init_def)

text \<open>
  C19: the realtime handler does not keep the one-row-per-attendee property of the
  load: it upserts by row id, so in a mounted hook a valid row with a fresh row id is
  appended even when its attendee is already shown, and the data then holds two rows
  of that attendee.
\<close>

theorem realtime_duplicates_attendee:
  assumes "feed_mounted st" "validateResponse r" "resp_id r \<notin> resp_id ` set (feed_data st)"
    and "attendee_id r \<in> attendee_id ` set (feed_data st)"
  shows "feed_data (realtime_step (RtUpsert r) st) = feed_data st @ [r] \<and>
         \<not> distinct (map attendee_id (feed_data (realtime_step (RtUpsert r) st)))"
  using assms by (auto simp: realtime_step_def upsert_by_id_fresh)

theorem realtime_duplicates_attendee_witness:
  "feed_data (realtime_step (RtUpsert late_row) (feed_load (FetchOk mockData))) =
     feed_data (feed_load (FetchOk mockData)) @ [late_row] \<and>
   \<not> distinct (map attendee_id (feed_data (realtime_step (RtUpsert late_row) (feed_load (FetchOk mockData)))))"
  by (rule realtime_duplicates_attendee)
     (simp_all add: feed_load_def fetchData_def fetch_start_def fetch_finish_def feed_init_def mockData_def
      mock_row_def dedupe_def dedupe_step_def late_row_def validateResponse_def present_def)

lemma valid_present:
  "validateResponse d \<Longrightarrow> present (field_category f d) \<and> years_at_medtronic d \<noteq> None"
  by (cases f) (auto simp: validateResponse_def field_category_def present_def getYearsCategory_def
                     split: option.splits)

end
