(* ===== verification/Settings.thy ===== *)
theory Settings
  imports Survey
begin

text \<open>
  The global settings of \<open>AppContext.tsx\<close> and the controls that edit them: the
  settings record with its per-theme category colour maps, the provider's update
  operations (as a datatype of operations and one step function), the context hook
  with its error outside a provider, the colour picker of the admin page
  (\<open>app/admin/controls/page.tsx\<close>) with its hex-colour validation, and the field
  selector \<open>QuestionSelector.tsx\<close>. The lemmas show that a colour update is read
  back exactly and touches nothing else, that no colour entry is ever lost, and that
  the picker forwards only valid hex colours.
\<close>

subsection \<open>The settings record\<close>

text \<open>\<open>CategoryColors\<close>: category, then answer, to a colour string.\<close>

type_synonym category_colors = "string \<rightharpoonup> (string \<rightharpoonup> string)"

datatype theme = Light | Dark

record theme_aware_colors =
  light :: category_colors
  dark :: category_colors

record visualization_settings =
  categoryColors :: theme_aware_colors
  isDarkMode :: bool
  useTestData :: bool
  autoPlaySpeed :: real
  isAutoPlayEnabled :: bool

text \<open>\<open>colors[category]?.[answer]\<close>: optional chaining on the nested map.\<close>

definition color_at :: "category_colors \<Rightarrow> string \<Rightarrow> string \<Rightarrow> string option" where
  "color_at cc c a = (case cc c of None \<Rightarrow> None | Some m \<Rightarrow> m a)"

definition colors_of :: "theme \<Rightarrow> theme_aware_colors \<Rightarrow> category_colors" where
  "colors_of t tc = (case t of Light \<Rightarrow> light tc | Dark \<Rightarrow> dark tc)"

definition set_colors_of :: "theme \<Rightarrow> category_colors \<Rightarrow> theme_aware_colors \<Rightarrow> theme_aware_colors" where
  "set_colors_of t cc tc = (case t of Light \<Rightarrow> tc\<lparr>light := cc\<rparr> | Dark \<Rightarrow> tc\<lparr>dark := cc\<rparr>)"

text \<open>The default palettes, written as association lists in the source's key order.\<close>

definition palette :: "(string \<times> (string \<times> string) list) list \<Rightarrow> category_colors" where
  "palette xs = map_of (map (\<lambda>(c, as). (c, map_of as)) xs)"

definition defaultLightColors :: category_colors where
  "defaultLightColors = palette
     [(''years_at_medtronic'', [(''0-5'', ''#FF6B6B''), (''6-10'', ''#4ECDC4''), (''11-15'', ''#45B7D1''),
                               (''16-20'', ''#96CEB4''), (''20+'', ''#FFEAA7'')]),
      (''peak_performance'', [(''individual'', ''#FF6B6B''), (''innovation'', ''#4ECDC4''),
                             (''leadership'', ''#45B7D1''), (''crisis'', ''#96CEB4''), (''team'', ''#FFEAA7'')]),
      (''learning_style'', [(''visual'', ''#FF6B6B''), (''auditory'', ''#4ECDC4''),
                           (''kinesthetic'', ''#45B7D1''), (''reading_writing'', ''#96CEB4'')]),
      (''motivation'', [(''autonomy'', ''#FF6B6B''), (''recognition'', ''#4ECDC4''), (''impact'', ''#45B7D1''),
                       (''purpose'', ''#96CEB4''), (''growth'', ''#FFEAA7'')]),
      (''shaped_by'', [(''mentor'', ''#FF6B6B''), (''other'', ''#4ECDC4''), (''failure'', ''#45B7D1''),
                      (''education'', ''#96CEB4''), (''challenge'', ''#FFEAA7'')])]"

definition defaultDarkColors :: category_colors where
  "defaultDarkColors = palette
     [(''years_at_medtronic'', [(''0-5'', ''#FF8A8A''), (''6-10'', ''#6EDCD4''), (''11-15'', ''#65C7F1''),
                               (''16-20'', ''#B6DEC4''), (''20+'', ''#FFED87'')]),
      (''peak_performance'', [(''individual'', ''#FF8A8A''), (''innovation'', ''#6EDCD4''),
                             (''leadership'', ''#65C7F1''), (''crisis'', ''#B6DEC4''), (''team'', ''#FFED87'')]),
      (''learning_style'', [(''visual'', ''#FF8A8A''), (''auditory'', ''#6EDCD4''),
                           (''kinesthetic'', ''#65C7F1''), (''reading_writing'', ''#B6DEC4'')]),
      (''motivation'', [(''autonomy'', ''#FF8A8A''), (''recognition'', ''#6EDCD4''), (''impact'', ''#65C7F1''),
                       (''purpose'', ''#B6DEC4''), (''growth'', ''#FFED87'')]),
      (''shaped_by'', [(''mentor'', ''#FF8A8A''), (''other'', ''#6EDCD4''), (''failure'', ''#65C7F1''),
                      (''education'', ''#B6DEC4''), (''challenge'', ''#FFED87'')])]"

definition defaultSettings :: visualization_settings where
  "defaultSettings =
     \<lparr>categoryColors = \<lparr>light = defaultLightColors, dark = defaultDarkColors\<rparr>,
      isDarkMode = False, useTestData = True, autoPlaySpeed = 5000, isAutoPlayEnabled = True\<rparr>"

subsection \<open>The provider's operations\<close>

text \<open>
  \<open>updateCategoryColor\<close>: the theme given, or the current one; the answer's entry of
  the category's map is set, the map created when the category is new (spreading
  \<open>undefined\<close> gives the empty object).
\<close>

definition target_theme :: "theme option \<Rightarrow> visualization_settings \<Rightarrow> theme" where
  "target_theme th s = (case th of Some t \<Rightarrow> t | None \<Rightarrow> if isDarkMode s then Dark else Light)"

definition updateCategoryColor ::
  "string \<Rightarrow> string \<Rightarrow> string \<Rightarrow> theme option \<Rightarrow> visualization_settings \<Rightarrow> visualization_settings" where
  "updateCategoryColor category answer color th s =
     (let t = target_theme th s;
          cc = colors_of t (categoryColors s);
          inner = (case cc category of None \<Rightarrow> Map.empty | Some m \<Rightarrow> m)
      in s\<lparr>categoryColors := set_colors_of t (cc(category \<mapsto> inner(answer \<mapsto> color))) (categoryColors s)\<rparr>)"

datatype settings_op =
    UpdateCategoryColor string string string "theme option"
  | ToggleDarkMode
  | ToggleTestData
  | UpdateAutoPlaySpeed real
  | ToggleAutoPlay
  | ResetToDefaults

fun apply_op :: "settings_op \<Rightarrow> visualization_settings \<Rightarrow> visualization_settings" where
  "apply_op (UpdateCategoryColor c a col th) s = updateCategoryColor c a col th s"
| "apply_op ToggleDarkMode s = s\<lparr>isDarkMode := \<not> isDarkMode s\<rparr>"
| "apply_op ToggleTestData s = s\<lparr>useTestData := \<not> useTestData s\<rparr>"
| "apply_op (UpdateAutoPlaySpeed v) s = s\<lparr>autoPlaySpeed := v\<rparr>"
| "apply_op ToggleAutoPlay s = s\<lparr>isAutoPlayEnabled := \<not> isAutoPlayEnabled s\<rparr>"
| "apply_op ResetToDefaults s = defaultSettings"

definition getCurrentThemeColors :: "visualization_settings \<Rightarrow> category_colors" where
  "getCurrentThemeColors s = (if isDarkMode s then dark (categoryColors s) else light (categoryColors s))"

text \<open>The settings the provider can hold: the defaults, then any operations.\<close>

inductive settings_reach :: "visualization_settings \<Rightarrow> bool" where
  defaults: "settings_reach defaultSettings"
| op: "settings_reach s \<Longrightarrow> settings_reach (apply_op p s)"

text \<open>\<open>useAppContext\<close>: the context value, or the error it throws outside a provider.\<close>

definition useAppContext :: "'c option \<Rightarrow> string + 'c" where
  "useAppContext ctx =
     (case ctx of None \<Rightarrow> Inl ''useAppContext must be used within an AppProvider'' | Some c \<Rightarrow> Inr c)"

subsection \<open>The admin colour picker\<close>

text \<open>The test \<open>/^#[0-9A-F]{6}$/i\<close>.\<close>

definition is_hex_digit :: "char \<Rightarrow> bool" where
  "is_hex_digit ch \<longleftrightarrow> ch \<in> set ''0123456789ABCDEFabcdef''"

definition is_hex_color :: "string \<Rightarrow> bool" where
  "is_hex_color s \<longleftrightarrow> length s = 7 \<and> hd s = CHR ''#'' \<and> list_all is_hex_digit (tl s)"

text \<open>
  The picker's events: the native colour input, typing in the text field, leaving the
  text field. A step takes the \<open>color\<close> prop and the \<open>inputValue\<close> state and returns
  the new \<open>inputValue\<close> and the colour passed to \<open>onChange\<close>, if any.
\<close>

datatype picker_event = ColorInput string | HexInput string | HexBlur

fun picker_step :: "string \<Rightarrow> picker_event \<Rightarrow> string \<Rightarrow> string \<times> string option" where
  "picker_step color (ColorInput v) iv = (v, Some v)"
| "picker_step color (HexInput v) iv = (v, if is_hex_color v then Some v else None)"
| "picker_step color HexBlur iv = (if is_hex_color iv then iv else color, None)"

text \<open>
  The text field over a sequence of typing and blur events, with the colours it forwards
  (the native input is not part of it).
\<close>

fun hex_field_run :: "string \<Rightarrow> picker_event list \<Rightarrow> string \<Rightarrow> string \<times> string list" where
  "hex_field_run color [] iv = (iv, [])"
| "hex_field_run color (e # es) iv =
     (let (iv', out) = picker_step color e iv;
          (iv'', outs) = hex_field_run color es iv'
      in (iv'', (case out of None \<Rightarrow> [] | Some c \<Rightarrow> [c]) @ outs))"

subsection \<open>The field selector\<close>

text \<open>
  Each dropdown lists every field and disables the one selected on the other side; a
  choice calls \<open>onChange\<close> with the new pair.
\<close>

definition selector_options :: "'f list \<Rightarrow> 'f \<Rightarrow> ('f \<times> bool) list" where
  "selector_options fs other = map (\<lambda>f. (f, f = other)) fs"

datatype 'f selector_event = PickSource 'f | PickTarget 'f

fun selector_change :: "'f selector_event \<Rightarrow> 'f \<Rightarrow> 'f \<Rightarrow> 'f \<times> 'f" where
  "selector_change (PickSource v) src tgt = (v, tgt)"
| "selector_change (PickTarget v) src tgt = (src, v)"

subsection \<open>Properties of the settings\<close>

lemma colors_of_set [simp]:
  "colors_of t' (set_colors_of t cc tc) = (if t' = t then cc else colors_of t' tc)"
  by (cases t; cases t') (simp_all add: colors_of_def set_colors_of_def)

lemma color_at_upd:
  "color_at (cc(c \<mapsto> inner(a \<mapsto> col))) c' a' =
   (if c' = c then (if a' = a then Some col else inner a') else color_at cc c' a')"
  by (simp add: color_at_def)

text \<open>
  C21: a colour update is read back exactly, and every other theme, category and answer
  keeps its colour (the nested spreads copy everything else).
\<close>

theorem color_update_roundtrip:
  "color_at (colors_of t' (categoryColors (updateCategoryColor c a col th s))) c' a' =
   (if t' = target_theme th s \<and> c' = c \<and> a' = a then Some col
    else color_at (colors_of t' (categoryColors s)) c' a')"
  by (auto simp: updateCategoryColor_def Let_def color_at_upd color_at_def split: option.splits)

lemma update_keeps_colors:
  "color_at (colors_of t (categoryColors s)) c a \<noteq> None \<Longrightarrow>
   color_at (colors_of t (categoryColors (updateCategoryColor c' a' col th s))) c a \<noteq> None"
  by (simp add: color_update_roundtrip)

text \<open>
  C22: no colour entry of the default palettes is ever lost: in every settings state the
  provider can reach, each default (theme, category, answer) still has a colour, so the
  node colouring never falls back to its built-in scales for them.
\<close>

theorem colors_never_lost:
  assumes "settings_reach s" "color_at (colors_of t (categoryColors defaultSettings)) c a \<noteq> None"
  shows "color_at (colors_of t (categoryColors s)) c a \<noteq> None"
  using assms(1)
proof (induction rule: settings_reach.induct)
  case defaults
  from assms(2) show ?case .
next
  case (op s p)
  then show ?case by (cases p) (simp_all add: update_keeps_colors assms(2))
qed

theorem colors_never_lost_witness:
  "color_at (colors_of Dark (categoryColors
     (apply_op ToggleDarkMode (apply_op (UpdateCategoryColor ''motivation'' ''growth'' ''#000000'' None) defaultSettings))))
     ''shaped_by'' ''mentor'' \<noteq> None"
proof (rule colors_never_lost)
  show "settings_reach (apply_op ToggleDarkMode
          (apply_op (UpdateCategoryColor ''motivation'' ''growth'' ''#000000'' None) defaultSettings))"
    by (intro settings_reach.intros)
  show "color_at (colors_of Dark (categoryColors defaultSettings)) ''shaped_by'' ''mentor'' \<noteq> None"
    by (simp add: defaultSettings_def colors_of_def color_at_def defaultDarkColors_def palette_def)
qed

text \<open>
  Toggling dark mode twice restores the settings, and after one toggle the current
  theme colours are the other theme's map.
\<close>

theorem toggle_dark_mode_roundtrip:
  "apply_op ToggleDarkMode (apply_op ToggleDarkMode s) = s \<and>
   getCurrentThemeColors (apply_op ToggleDarkMode s) =
     colors_of (if isDarkMode s then Light else Dark) (categoryColors s)"
  by (simp add: getCurrentThemeColors_def colors_of_def)

lemma hex_field_run_snoc:
  "fst (hex_field_run color (es @ [e]) iv) = fst (picker_step color e (fst (hex_field_run color es iv)))"
  by (induction es arbitrary: iv) (simp_all add: case_prod_beta)

text \<open>
  C24: the picker's text field forwards to \<open>onChange\<close> only valid hex colours (any other
  forwarded colour comes from the native colour input), and when the shown colour is
  valid, leaving the field always leaves a valid colour in it.
\<close>

theorem picker_forwards_hex:
  assumes "is_hex_color color"
  shows "set (snd (hex_field_run color es iv)) \<subseteq> {c. is_hex_color c} \<union> {v. ColorInput v \<in> set es} \<and>
         is_hex_color (fst (hex_field_run color (es @ [HexBlur]) iv))"
proof
  show "set (snd (hex_field_run color es iv)) \<subseteq> {c. is_hex_color c} \<union> {v. ColorInput v \<in> set es}"
  proof (induction es arbitrary: iv)
    case Nil
    then show ?case by simp
  next
    case (Cons e es)
    then show ?case by (cases e) (auto simp: case_prod_beta split: if_splits)
  qed
  show "is_hex_color (fst (hex_field_run color (es @ [HexBlur]) iv))"
    using assms by (simp add: hex_field_run_snoc)
qed

theorem picker_forwards_hex_witness:
  "set (snd (hex_field_run ''#FF6B6B'' [HexInput ''#12'', HexInput ''#00ff00''] ''#FF6B6B''))
     \<subseteq> {c. is_hex_color c} \<union> {v. ColorInput v \<in> set [HexInput ''#12'', HexInput ''#00ff00'']} \<and>
   is_hex_color (fst (hex_field_run ''#FF6B6B'' ([HexInput ''#12'', HexInput ''#00ff00''] @ [HexBlur]) ''#FF6B6B''))"
  by (rule picker_forwards_hex) (simp add: is_hex_color_def is_hex_digit_def)

end
