(* ===== verification/Colors.thy ===== *)
theory Colors
  imports Sankey Settings
begin

text \<open>
  Node colouring: the theme palettes and ordinal colour scales of \<open>colorUtils.ts\<close>,
  its \<open>getNodeColor\<close> used by the Sankey view, and the separate \<open>getNodeColor\<close> of
  \<open>ChordDiagram.tsx\<close>. Both read the settings' category colours first and fall back
  to built-in colours. \<open>d3.scaleOrdinal\<close> with an explicit domain and an
  \<open>unknown\<close> colour is modelled as a lookup by position in the domain;
  \<open>interpolateRgb\<close> (a d3 library function) is a parameter \<open>interp\<close> of the
  tenure scale.
\<close>

subsection \<open>Theme palettes\<close>

text \<open>\<open>lightTheme\<close> and \<open>darkTheme\<close>; the nested \<open>text\<close> object is flattened into three fields.\<close>

record theme_palette =
  primary :: string
  secondary :: string
  accent :: string
  background :: string
  surface :: string
  text_primary :: string
  text_secondary :: string
  text_muted :: string
  border :: string
  error_color :: string
  success_color :: string
  warning_color :: string

definition lightTheme :: theme_palette where
  "lightTheme = \<lparr>primary = ''#0077CC'', secondary = ''#00A3E0'', accent = ''#FF6B6B'',
                 background = ''#FFFFFF'', surface = ''#F8F9FA'',
                 text_primary = ''#1A1A1A'', text_secondary = ''#6B7280'', text_muted = ''#9CA3AF'',
                 border = ''#E5E7EB'', error_color = ''#EF4444'', success_color = ''#10B981'',
                 warning_color = ''#F59E0B''\<rparr>"

definition darkTheme :: theme_palette where
  "darkTheme = \<lparr>primary = ''#0088FF'', secondary = ''#00B4FF'', accent = ''#FF7B7B'',
                background = ''#0A0A0F'', surface = ''#1A1A1F'',
                text_primary = ''#FFFFFF'', text_secondary = ''#A0A0A0'', text_muted = ''#707070'',
                border = ''#2A2A2F'', error_color = ''#FF4D4D'', success_color = ''#4CAF50'',
                warning_color = ''#FFC107''\<rparr>"

definition getThemeColors :: "bool \<Rightarrow> theme_palette" where
  "getThemeColors d = (if d then darkTheme else lightTheme)"

subsection \<open>Ordinal scales\<close>

text \<open>
  \<open>scaleOrdinal().domain(dom).range(rng).unknown(u)\<close>: a value of the domain gets the
  range entry at its position (cycling through the range), any other value gets
  \<open>u\<close>.
\<close>

definition scaleOrdinal :: "'a list \<Rightarrow> 'b list \<Rightarrow> 'b \<Rightarrow> 'a \<Rightarrow> 'b" where
  "scaleOrdinal ds rng u x =
     (let i = js_index_of ds x in if i < 0 then u else rng ! (nat i mod length rng))"

definition getYearsColorScale :: "(string \<Rightarrow> string \<Rightarrow> real \<Rightarrow> string) \<Rightarrow> bool \<Rightarrow> string \<Rightarrow> string" where
  "getYearsColorScale interp d =
     (let th = getThemeColors d
      in scaleOrdinal YEARS_CATEGORIES (map (interp (primary th) (secondary th)) [0.2, 0.4, 0.6, 0.8, 1])
           (surface th))"

definition getLearningStyleColors :: "bool \<Rightarrow> string \<Rightarrow> string" where
  "getLearningStyleColors d =
     scaleOrdinal [''visual'', ''auditory'', ''kinesthetic'', ''reading_writing'']
       (if d then [''#FF8A8A'', ''#6EDCD4'', ''#65C7F1'', ''#B6DEC4'']
        else [''#FF6B6B'', ''#4ECDC4'', ''#45B7D1'', ''#96CEB4''])
       (surface (getThemeColors d))"

definition getShapedByColors :: "bool \<Rightarrow> string \<Rightarrow> string" where
  "getShapedByColors d =
     scaleOrdinal [''mentor'', ''other'', ''failure'', ''education'', ''challenge'']
       (if d then [''#FF8A8A'', ''#6EDCD4'', ''#65C7F1'', ''#B6DEC4'', ''#FFB83C'']
        else [''#FF6B6B'', ''#4ECDC4'', ''#45B7D1'', ''#96CEB4'', ''#FF9F1C''])
       (surface (getThemeColors d))"

definition getPeakPerformanceColors :: "bool \<Rightarrow> string \<Rightarrow> string" where
  "getPeakPerformanceColors d =
     scaleOrdinal [''individual'', ''innovation'', ''leadership'', ''crisis'', ''team'']
       (if d then [''#FFD486'', ''#26E6C0'', ''#2AA2D2'', ''#1A5B7C'', ''#FF8A8A'']
        else [''#FFD166'', ''#06D6A0'', ''#118AB2'', ''#073B4C'', ''#FF6B6B''])
       (surface (getThemeColors d))"

definition getMotivationColors :: "bool \<Rightarrow> string \<Rightarrow> string" where
  "getMotivationColors d =
     scaleOrdinal [''autonomy'', ''recognition'', ''impact'', ''purpose'', ''growth'']
       (if d then [''#FF8A8A'', ''#6EDCD4'', ''#65C7F1'', ''#B6DEC4'', ''#FFB83C'']
        else [''#FF6B6B'', ''#4ECDC4'', ''#45B7D1'', ''#96CEB4'', ''#FF9F1C''])
       (surface (getThemeColors d))"

text \<open>
  \<open>getSequentialColorScale\<close>: \<open>scaleSequential\<close> over the domain \<open>[0, 1]\<close>
  hands its input to the interpolator between the theme's primary and secondary colour.
\<close>

definition getSequentialColorScale :: "(string \<Rightarrow> string \<Rightarrow> real \<Rightarrow> string) \<Rightarrow> bool \<Rightarrow> real \<Rightarrow> string" where
  "getSequentialColorScale interp d t =
     (let th = getThemeColors d in interp (primary th) (secondary th) ((t - 0) / (1 - 0)))"

text \<open>\<open>getColorConstants\<close>: the theme's colours for nodes, edges, text and backgrounds.\<close>

record color_constants =
  node_default :: string
  node_hover :: string
  node_selected :: string
  edge_default :: string
  edge_hover :: string
  edge_selected :: string
  cc_text_default :: string
  cc_text_secondary :: string
  cc_text_muted :: string
  background_default :: string
  background_surface :: string

definition getColorConstants :: "bool \<Rightarrow> color_constants" where
  "getColorConstants d =
     (let th = getThemeColors d
      in \<lparr>node_default = surface th, node_hover = secondary th, node_selected = primary th,
          edge_default = border th, edge_hover = secondary th, edge_selected = primary th,
          cc_text_default = text_primary th, cc_text_secondary = text_secondary th,
          cc_text_muted = text_muted th, background_default = background th,
          background_surface = surface th\<rparr>)"

subsection \<open>Node colours\<close>

text \<open>\<open>a || b\<close> for a looked-up colour: \<open>undefined\<close> and the empty string fall through.\<close>

definition js_or :: "string option \<Rightarrow> string \<Rightarrow> string" where
  "js_or v d = (case v of Some c \<Rightarrow> if c = [] then d else c | None \<Rightarrow> d)"

text \<open>\<open>getNodeColor\<close> of \<open>colorUtils.ts\<close>, on a Sankey node and the current theme's colours.\<close>

definition getNodeColor ::
  "(string \<Rightarrow> string \<Rightarrow> real \<Rightarrow> string) \<Rightarrow> sankey_node \<Rightarrow> category_colors \<Rightarrow> bool \<Rightarrow> string" where
  "getNodeColor interp node gc d =
     (let c = node_category node; n = node_name node
      in if c = ''years_at_medtronic'' then js_or (color_at gc c n) (getYearsColorScale interp d n)
         else if c = ''learning_style'' then js_or (color_at gc c n) (getLearningStyleColors d n)
         else if c = ''peak_performance'' then js_or (color_at gc c n) (getPeakPerformanceColors d n)
         else if c = ''motivation'' then js_or (color_at gc c n) (getMotivationColors d n)
         else if c = ''shaped_by'' then js_or (color_at gc c n) (getShapedByColors d n)
         else primary (getThemeColors d))"

text \<open>\<open>getNodeColor\<close> of \<open>ChordDiagram.tsx\<close>: both themes given, one fixed fallback per field.\<close>

definition chord_getNodeColor :: "string \<Rightarrow> string \<Rightarrow> theme_aware_colors \<Rightarrow> bool \<Rightarrow> string" where
  "chord_getNodeColor name category gc d =
     (let tc = (if d then dark gc else light gc)
      in if category = ''years_at_medtronic'' then js_or (color_at tc category name) ''#FF6B6B''
         else if category = ''learning_style'' then js_or (color_at tc category name) ''#60a5fa''
         else if category = ''peak_performance'' then js_or (color_at tc category name) ''#4F8EF7''
         else if category = ''motivation'' then js_or (color_at tc category name) ''#9467bd''
         else if category = ''shaped_by'' then js_or (color_at tc category name) ''#1f77b4''
         else ''#8884d8'')"

subsection \<open>Properties of the colouring\<close>

lemma scaleOrdinal_nth:
  "distinct ds \<Longrightarrow> i < length ds \<Longrightarrow> scaleOrdinal ds rng u (ds ! i) = rng ! (i mod length rng)"
  by (simp add: scaleOrdinal_def js_index_of_nth)

lemma scaleOrdinal_unknown: "x \<notin> set ds \<Longrightarrow> scaleOrdinal ds rng u x = u"
  by (simp add: scaleOrdinal_def js_index_of_missing)

lemma field_key_cases:
  "field_key f \<in> {''years_at_medtronic'', ''learning_style'', ''peak_performance'', ''motivation'', ''shaped_by''}"
  by (cases f) simp_all

text \<open>
  C25: the two node colourings agree with the settings: when the current theme's palette
  has a non-empty colour for an answer of a field, the Sankey's \<open>getNodeColor\<close> and
  the chord's \<open>getNodeColor\<close> both return it.
\<close>

theorem node_colors_agree:
  assumes "color_at (getCurrentThemeColors s) (field_key f) a = Some col" "col \<noteq> []"
  shows "getNodeColor interp (mk_node f a) (getCurrentThemeColors s) (isDarkMode s) = col \<and>
         chord_getNodeColor a (field_key f) (categoryColors s) (isDarkMode s) = col"
proof -
  have "color_at (if isDarkMode s then dark (categoryColors s) else light (categoryColors s)) (field_key f) a = Some col"
    using assms(1) by (simp add: getCurrentThemeColors_def)
  then show ?thesis using assms(2)
    by (cases f) (simp_all add: getNodeColor_def chord_getNodeColor_def mk_node_def js_or_def getCurrentThemeColors_def)
qed

theorem node_colors_agree_witness:
  "getNodeColor (\<lambda>a b t. a) (mk_node LearningStyle ''visual'') (getCurrentThemeColors defaultSettings)
     (isDarkMode defaultSettings) = ''#FF6B6B'' \<and>
   chord_getNodeColor ''visual'' (field_key LearningStyle) (categoryColors defaultSettings)
     (isDarkMode defaultSettings) = ''#FF6B6B''"
  by (rule node_colors_agree)
     (simp_all add: getCurrentThemeColors_def defaultSettings_def defaultLightColors_def palette_def color_at_def)

text \<open>
  The tenure fallback scale gives the i-th band the i-th shade between the theme's
  primary and secondary colours (the band list and the shade list line up).
\<close>

theorem years_fallback_shades:
  assumes "i < length YEARS_CATEGORIES"
  shows "getYearsColorScale interp d (YEARS_CATEGORIES ! i) =
         interp (primary (getThemeColors d)) (secondary (getThemeColors d)) ([0.2, 0.4, 0.6, 0.8, 1] ! i)"
proof -
  have "distinct YEARS_CATEGORIES" by (simp add: YEARS_CATEGORIES_def)
  with assms show ?thesis
    by (simp add: getYearsColorScale_def scaleOrdinal_nth Let_def) (auto simp: YEARS_CATEGORIES_def less_Suc_eq)
qed

theorem years_fallback_shades_witness:
  "getYearsColorScale (\<lambda>a b t. a) False (YEARS_CATEGORIES ! 1) =
   (\<lambda>a b t. a) (primary (getThemeColors False)) (secondary (getThemeColors False)) ([0.2, 0.4, 0.6, 0.8, 1] ! 1)"
  by (rule years_fallback_shades) (simp add: YEARS_CATEGORIES_def)

text \<open>
  C27: an answer outside the built-in peak-performance palette that the settings do not
  colour (such as \<open>Extrovert, Morning\<close> of the mock data) is painted in the
  theme's surface colour (\<open>#F8F9FA\<close> in the light theme, almost the white
  background) by the Sankey view, and in a fixed blue by the chord view: the scale's
  \<open>unknown\<close> colour replaces the ordinal fallback palette, and the two views
  disagree.
\<close>

theorem unlisted_answer_colors:
  assumes "a \<notin> set [''individual'', ''innovation'', ''leadership'', ''crisis'', ''team'']"
    and "color_at (getCurrentThemeColors s) ''peak_performance'' a \<in> {None, Some []}"
  shows "getNodeColor interp (mk_node PeakPerformance a) (getCurrentThemeColors s) (isDarkMode s) =
           surface (getThemeColors (isDarkMode s)) \<and>
         chord_getNodeColor a ''peak_performance'' (categoryColors s) (isDarkMode s) = ''#4F8EF7''"
  using assms
  by (auto simp: getNodeColor_def chord_getNodeColor_def mk_node_def js_or_def getCurrentThemeColors_def
      getPeakPerformanceColors_def scaleOrdinal_unknown)

theorem unlisted_answer_colors_witness:
  "getNodeColor (\<lambda>a b t. a) (mk_node PeakPerformance ''Extrovert, Morning'') (getCurrentThemeColors defaultSettings)
     (isDarkMode defaultSettings) = surface (getThemeColors (isDarkMode defaultSettings)) \<and>
   chord_getNodeColor ''Extrovert, Morning'' ''peak_performance'' (categoryColors defaultSettings)
     (isDarkMode defaultSettings) = ''#4F8EF7''"
  by (rule unlisted_answer_colors)
     (simp_all add: getCurrentThemeColors_def defaultSettings_def defaultLightColors_def palette_def color_at_def)

end
