(* ===== verification/ChordCycle.thy ===== *)
theory ChordCycle
  imports Survey
begin

text \<open>
  The field-pair state machine of \<open>ChordDiagram.tsx\<close>: the correction
  \<open>ensureDifferentCategories\<close> applied on mount and on every selector change, the
  auto-play interval that moves to the mode after the current one in
  \<open>cyclingModes\<close>, and the rotation interval. \<open>cyclingModes\<close> is defined in
  \<open>chordUtils\<close>, which is not part of the sources; it is a parameter \<open>modes\<close> of
  every definition here, so the lemmas hold for any list of modes. A step of the
  interval that would throw is an \<open>Inl\<close> error value.
\<close>

subsection \<open>Correcting a field pair\<close>

definition ensureDifferentCategories :: "field \<Rightarrow> field \<Rightarrow> field \<times> field" where
  "ensureDifferentCategories s t =
     (if s = t then (s, case find (\<lambda>f. f \<noteq> s) chordFields of Some f \<Rightarrow> f | None \<Rightarrow> LearningStyle)
      else (s, t))"

subsection \<open>The interval callbacks\<close>

text \<open>JavaScript \<open>a % b\<close> on numbers: the remainder of the truncated quotient.\<close>

definition js_rem :: "real \<Rightarrow> real \<Rightarrow> real" where
  "js_rem a b = a - b * (if a / b < 0 then of_int \<lceil>a / b\<rceil> else of_int \<lfloor>a / b\<rfloor>)"

text \<open>
  The auto-play tick: the mode after the current pair (the first mode when the pair is
  not listed); a mode with equal fields is skipped (\<open>None\<close>). With no modes the index
  is \<open>NaN\<close> and reading \<open>nextMode.source\<close> throws.
\<close>

definition chord_next_mode ::
  "(field \<times> field) list \<Rightarrow> field \<Rightarrow> field \<Rightarrow> string + (field \<times> field) option" where
  "chord_next_mode modes src tgt =
     (if modes = [] then Inl ''TypeError: Cannot read properties of undefined (reading source)''
      else
        let i = js_find_index (\<lambda>m. fst m = src \<and> snd m = tgt) modes;
            j = nat ((i + 1) mod int (length modes));
            m = modes ! j
        in Inr (if fst m = snd m then None else Some m))"

record chord_state =
  c_source :: field
  c_target :: field
  c_last_change :: "field \<times> field"
  rotationAngle :: real
  notified_pairs :: "(field \<times> field) list"

record chord_env =
  c_autoPlay :: bool
  c_enableRotation :: bool
  c_autoPlayEnabled :: bool

datatype chord_event = CycleTick | RotateTick | SelectPair field field

text \<open>
  One event: an interval callback (only while its effect is installed) or a selector
  change. An error leaves the state as it was and is returned beside it.
\<close>

definition chord_step ::
  "(field \<times> field) list \<Rightarrow> chord_env \<Rightarrow> chord_event \<Rightarrow> chord_state \<Rightarrow> string + chord_state" where
  "chord_step modes env ev st =
     (case ev of
        CycleTick \<Rightarrow>
          if \<not> c_autoPlay env \<or> \<not> c_autoPlayEnabled env then Inr st
          else (case chord_next_mode modes (c_source st) (c_target st) of
                  Inl e \<Rightarrow> Inl e
                | Inr None \<Rightarrow> Inr st
                | Inr (Some (s, t)) \<Rightarrow>
                    Inr (st\<lparr>c_source := s, c_target := t, c_last_change := (s, t),
                           notified_pairs := notified_pairs st @ [(s, t)]\<rparr>))
      | RotateTick \<Rightarrow>
          if c_autoPlay env \<and> c_enableRotation env \<and> c_autoPlayEnabled env
          then Inr (st\<lparr>rotationAngle := js_rem (rotationAngle st + 1 / 2) 360\<rparr>)
          else Inr st
      | SelectPair s t \<Rightarrow>
          (let (s', t') = ensureDifferentCategories s t
           in Inr (st\<lparr>c_source := s', c_target := t', c_last_change := (s', t')\<rparr>)))"

text \<open>A sequence of events, stopping at the first error.\<close>

fun chord_run ::
  "(field \<times> field) list \<Rightarrow> chord_env \<Rightarrow> chord_event list \<Rightarrow> chord_state \<Rightarrow> string + chord_state" where
  "chord_run modes env [] st = Inr st"
| "chord_run modes env (e # es) st =
     (case chord_step modes env e st of Inl err \<Rightarrow> Inl err | Inr st' \<Rightarrow> chord_run modes env es st')"

text \<open>The initial state after the mount-time correction of the initial pair.\<close>

definition chord_init :: chord_state where
  "chord_init =
     (let (s, t) = ensureDifferentCategories YearsAtMedtronic LearningStyle
      in \<lparr>c_source = s, c_target = t, c_last_change = (YearsAtMedtronic, LearningStyle),
          rotationAngle = 0, notified_pairs = []\<rparr>)"

text \<open>The states the chord view can be in: the initial one, then events that do not throw.\<close>

inductive chord_reach :: "(field \<times> field) list \<Rightarrow> chord_env \<Rightarrow> chord_state \<Rightarrow> bool"
  for modes env where
  init: "chord_reach modes env chord_init"
| step: "chord_reach modes env st \<Longrightarrow> chord_step modes env ev st = Inr st' \<Longrightarrow> chord_reach modes env st'"

subsection \<open>Properties of the chord state machine\<close>

lemma ensure_distinct: "fst (ensureDifferentCategories s t) \<noteq> snd (ensureDifferentCategories s t)"
  by (cases s) (simp_all add: ensureDifferentCategories_def chordFields_def)

lemma js_rem_bounds:
  assumes "0 \<le> a" "0 < b"
  shows "0 \<le> js_rem a b \<and> js_rem a b < b"
proof -
  have q: "\<not> a / b < 0" using assms by (simp add: not_less)
  have "b * of_int \<lfloor>a / b\<rfloor> \<le> b * (a / b)"
    using assms(2) by (intro mult_left_mono) simp_all
  then have 1: "b * of_int \<lfloor>a / b\<rfloor> \<le> a" using assms(2) by simp
  have "a / b < of_int \<lfloor>a / b\<rfloor> + 1" by (rule real_of_int_floor_add_one_gt)
  then have 2: "a < b * of_int \<lfloor>a / b\<rfloor> + b" using assms(2) by (simp add: pos_divide_less_eq algebra_simps)
  note 1 2
  then show ?thesis using q by (simp add: js_rem_def)
qed

lemma chord_init_inv: "c_source chord_init \<noteq> c_target chord_init \<and> rotationAngle chord_init = 0"
  by (simp add: chord_init_def ensureDifferentCategories_def)

lemma chord_next_mode_valid:
  "chord_next_mode modes src tgt = Inr (Some (s, t)) \<Longrightarrow> s \<noteq> t"
  by (auto simp: chord_next_mode_def Let_def split: if_splits)

lemma chord_step_inv:
  assumes "c_source st \<noteq> c_target st" "0 \<le> rotationAngle st" "rotationAngle st < 360"
    and "chord_step modes env ev st = Inr st'"
  shows "c_source st' \<noteq> c_target st' \<and> 0 \<le> rotationAngle st' \<and> rotationAngle st' < 360"
proof (cases ev)
  case CycleTick
  then show ?thesis using assms chord_next_mode_valid
    by (auto simp: chord_step_def split: if_splits sum.splits option.splits prod.splits)
next
  case RotateTick
  have "0 \<le> rotationAngle st + 1 / 2" using assms(2) by simp
  from js_rem_bounds [OF this, of 360] show ?thesis using RotateTick assms
    by (auto simp: chord_step_def split: if_splits)
next
  case (SelectPair s t)
  then show ?thesis using assms ensure_distinct [of s t]
    by (auto simp: chord_step_def split: prod.splits)
qed

text \<open>
  C28: in every state of the chord view, whatever the list of cycling modes, the source
  and target fields differ (modes with equal fields are skipped, selector changes are
  corrected) and the rotation angle stays in \<open>[0, 360)\<close>.
\<close>

theorem chord_pair_invariant:
  assumes "chord_reach modes env st"
  shows "c_source st \<noteq> c_target st \<and> 0 \<le> rotationAngle st \<and> rotationAngle st < 360"
  using assms
proof (induction rule: chord_reach.induct)
  case init
  then show ?case using chord_init_inv by simp
next
  case (step st ev st')
  then show ?case using chord_step_inv by blast
qed

theorem chord_pair_invariant_witness:
  "c_source chord_init \<noteq> c_target chord_init \<and> 0 \<le> rotationAngle chord_init \<and> rotationAngle chord_init < 360"
  by (rule chord_pair_invariant [OF chord_reach.init [of "[]" "\<lparr>c_autoPlay = True, c_enableRotation = True, c_autoPlayEnabled = True\<rparr>"]])

text \<open>
  The only error of the chord state machine: an auto-play tick with an empty
  \<open>cyclingModes\<close> throws (the index is \<open>NaN\<close>); every other event succeeds.
\<close>

lemma chord_cycle_error:
  "chord_step modes env ev st = Inl e \<longleftrightarrow>
   ev = CycleTick \<and> c_autoPlay env \<and> c_autoPlayEnabled env \<and> modes = [] \<and>
   e = ''TypeError: Cannot read properties of undefined (reading source)''"
  by (cases ev) (auto simp: chord_step_def chord_next_mode_def Let_def split: option.splits prod.splits)

lemma chord_next_mode_nth:
  assumes "distinct modes" "k < length modes"
  shows "chord_next_mode modes (fst (modes ! k)) (snd (modes ! k)) =
         Inr (if fst (modes ! ((k + 1) mod length modes)) = snd (modes ! ((k + 1) mod length modes)) then None
              else Some (modes ! ((k + 1) mod length modes)))"
proof -
  have "(\<lambda>m. fst m = fst (modes ! k) \<and> snd m = snd (modes ! k)) = (\<lambda>m. m = modes ! k)"
    by (auto simp: prod_eq_iff)
  then have i: "js_find_index (\<lambda>m. fst m = fst (modes ! k) \<and> snd m = snd (modes ! k)) modes = int k"
    using js_index_of_nth [OF assms] by (simp add: js_find_index_eq)
  have "(int k + 1) mod int (length modes) = int ((k + 1) mod length modes)"
    by (simp add: of_nat_mod add.commute)
  then have "nat ((int k + 1) mod int (length modes)) = (k + 1) mod length modes" by simp
  with i assms(2) show ?thesis by (auto simp: chord_next_mode_def Let_def)
qed

lemma chord_tick_nth:
  assumes "distinct modes" "k < length modes"
    and "fst (modes ! ((k + 1) mod length modes)) \<noteq> snd (modes ! ((k + 1) mod length modes))"
    and "c_autoPlay env" "c_autoPlayEnabled env"
    and "c_source st = fst (modes ! k)" "c_target st = snd (modes ! k)"
  shows "chord_step modes env CycleTick st =
         Inr (st\<lparr>c_source := fst (modes ! ((k + 1) mod length modes)),
                 c_target := snd (modes ! ((k + 1) mod length modes)),
                 c_last_change := modes ! ((k + 1) mod length modes),
                 notified_pairs := notified_pairs st @ [modes ! ((k + 1) mod length modes)]\<rparr>)"
proof -
  have "chord_next_mode modes (c_source st) (c_target st) = Inr (Some (modes ! ((k + 1) mod length modes)))"
    using chord_next_mode_nth [OF assms(1,2)] assms(3,6,7) by simp
  with assms(4,5) show ?thesis by (simp add: chord_step_def split: prod.splits)
qed

text \<open>
  C30: with distinct modes whose fields differ, auto-play walks through
  \<open>cyclingModes\<close> in order: starting at the k-th mode, after n ticks the pair shown is
  the mode at position \<open>(k + n) mod length\<close>, so every mode is shown in turn.
\<close>

theorem chord_cycles_through_modes:
  assumes "distinct modes" "k < length modes" "\<forall>m \<in> set modes. fst m \<noteq> snd m"
    and "c_autoPlay env" "c_autoPlayEnabled env"
    and "c_source st = fst (modes ! k)" "c_target st = snd (modes ! k)"
  shows "\<exists>st'. chord_run modes env (replicate n CycleTick) st = Inr st' \<and>
               (c_source st', c_target st') = modes ! ((k + n) mod length modes)"
  using assms(2,6,7)
proof (induction n arbitrary: k st)
  case 0
  then show ?case by simp
next
  case (Suc n)
  let ?k = "(k + 1) mod length modes"
  have k': "?k < length modes" by (rule mod_less_divisor) (use Suc.prems(1) in auto)
  have "modes ! ?k \<in> set modes" using k' by (rule nth_mem)
  with assms(3) have v: "fst (modes ! ?k) \<noteq> snd (modes ! ?k)" by blast
  define st1 where "st1 = st\<lparr>c_source := fst (modes ! ?k), c_target := snd (modes ! ?k),
      c_last_change := modes ! ?k, notified_pairs := notified_pairs st @ [modes ! ?k]\<rparr>"
  have step: "chord_step modes env CycleTick st = Inr st1"
    unfolding st1_def by (rule chord_tick_nth [OF assms(1) Suc.prems(1) v assms(4,5) Suc.prems(2,3)])
  have s1: "c_source st1 = fst (modes ! ?k)" "c_target st1 = snd (modes ! ?k)" by (simp_all add: st1_def)
  obtain st' where r: "chord_run modes env (replicate n CycleTick) st1 = Inr st'"
      and p: "(c_source st', c_target st') = modes ! ((?k + n) mod length modes)"
    using Suc.IH [OF k' s1] by blast
  have e: "(?k + n) mod length modes = (k + Suc n) mod length modes" by (simp add: mod_add_left_eq)
  have "chord_run modes env (replicate (Suc n) CycleTick) st = Inr st'" using step r by simp
  with p e show ?case by auto
qed

theorem chord_cycles_through_modes_witness:
  "\<exists>st'. chord_run [(YearsAtMedtronic, LearningStyle), (PeakPerformance, Motivation), (LearningStyle, ShapedBy)]
           \<lparr>c_autoPlay = True, c_enableRotation = False, c_autoPlayEnabled = True\<rparr>
           (replicate 2 CycleTick) chord_init = Inr st' \<and>
         (c_source st', c_target st') =
           [(YearsAtMedtronic, LearningStyle), (PeakPerformance, Motivation), (LearningStyle, ShapedBy)] ! ((0 + 2) mod
           length [(YearsAtMedtronic, LearningStyle), (PeakPerformance, Motivation), (LearningStyle, ShapedBy)])"
  by (rule chord_cycles_through_modes) (simp_all add: chord_init_def ensureDifferentCategories_def)

end
