(* ===== verification/Chord.thy ===== *)
theory Chord
  imports Sankey Colors DataFeed
begin

text \<open>
  The main chord render effect of \<open>ChordDiagram.tsx\<close>: the test-data filter, the two
  value lists that the arcs are laid out from (\<open>leftValues\<close>, \<open>rightValues\<close>), the
  two sorted category arrays that index the connection matrix (\<open>sourceArray\<close>,
  \<open>targetArray\<close>), the totals and the matrix, the angular layout of the arcs on the
  two half circles, and the ribbons, which take their arcs as \<open>leftArcs[i]\<close> and
  \<open>rightArcs[j]\<close> for the matrix cell \<open>(i, j)\<close>; reading a field of an
  \<open>undefined\<close> arc throws, which is an \<open>Inl\<close> value here. Angles are reals;
  \<open>Math.PI\<close> is \<open>pi\<close>. The drawing itself (SVG paths, gradients, labels) is not
  modelled.
\<close>

subsection \<open>Category lists and the connection matrix\<close>

text \<open>Rows flagged as test data are dropped unless the settings include them.\<close>

definition chord_filtered_data :: "bool \<Rightarrow> survey_response list \<Rightarrow> survey_response list" where
  "chord_filtered_data useTest data = (if useTest then data else filter (\<lambda>d. \<not> test_data d) data)"

definition YEARS_GROUPS :: "string list" where
  "YEARS_GROUPS = [''0-5'', ''6-10'', ''11-15'', ''16-20'', ''20+'']"

text \<open>\<open>leftValues\<close> / \<open>rightValues\<close>: the fixed bands, or the field's values in first-seen order.\<close>

definition side_values :: "field \<Rightarrow> survey_response list \<Rightarrow> string list" where
  "side_values f fd = (if f = YearsAtMedtronic then YEARS_GROUPS else string_values (map (raw_field f) fd))"

text \<open>The category a row adds to \<open>sourceCategories\<close>: a missing or empty value is \<open>Unknown\<close>.\<close>

definition category_or_unknown :: "field \<Rightarrow> survey_response \<Rightarrow> string" where
  "category_or_unknown f d =
     (if f = YearsAtMedtronic then getYearsCategory (years_or_zero d)
      else (case raw_field f d of Some x \<Rightarrow> if x = [] then ''Unknown'' else x | None \<Rightarrow> ''Unknown''))"

text \<open>\<open>sourceArray\<close> / \<open>targetArray\<close>: the distinct categories, sorted as strings.\<close>

definition category_array :: "field \<Rightarrow> survey_response list \<Rightarrow> string list" where
  "category_array f fd = sort (js_set_values (map (category_or_unknown f) fd))"

text \<open>Rows whose value is exactly the category (\<open>value === cat\<close>).\<close>

definition cat_count :: "field \<Rightarrow> survey_response list \<Rightarrow> string \<Rightarrow> nat" where
  "cat_count f fd c = length (filter (\<lambda>d. field_category f d = Some c) fd)"

definition side_totals :: "field \<Rightarrow> survey_response list \<Rightarrow> nat list" where
  "side_totals f fd = map (cat_count f fd) (category_array f fd)"

definition connectionMatrix :: "field \<Rightarrow> field \<Rightarrow> survey_response list \<Rightarrow> nat list list" where
  "connectionMatrix src tgt fd =
     map (\<lambda>sc. map (\<lambda>tc. length (filter (\<lambda>d. field_category src d = Some sc \<and> field_category tgt d = Some tc) fd))
                   (category_array tgt fd))
         (category_array src fd)"

subsection \<open>Arc layout\<close>

definition arcGap :: real where "arcGap = pi * 0.12"
definition leftStart :: real where "leftStart = pi + arcGap"
definition leftEnd :: real where "leftEnd = 2 * pi - arcGap"
definition rightStart :: real where "rightStart = arcGap"
definition rightEnd :: real where "rightEnd = pi - arcGap"
definition minArcSpacing :: real where "minArcSpacing = pi * 0.02"

record chord_arc =
  arc_name :: string
  arc_value :: nat
  startAngle :: real
  endAngle :: real
  arc_color :: string
  arc_opacity :: real

text \<open>
  The span of one arc: an equal share for tenure bands, otherwise the count's share of
  the available span but at least \<open>minArcSpacing\<close> (\<open>totalSum || 1\<close> avoids a zero
  divisor).
\<close>

definition arc_span :: "bool \<Rightarrow> real \<Rightarrow> nat \<Rightarrow> nat \<Rightarrow> nat \<Rightarrow> real" where
  "arc_span yrs avail n cnt tot =
     (if yrs then avail / real n
      else max minArcSpacing (avail * (real cnt / real (if tot = 0 then 1 else tot))))"

text \<open>The \<open>map\<close> with the running angle: each arc starts \<open>minArcSpacing\<close> after the previous one ends.\<close>

fun place_arcs :: "(string \<Rightarrow> nat) \<Rightarrow> (nat \<Rightarrow> real) \<Rightarrow> (string \<Rightarrow> string) \<Rightarrow> real \<Rightarrow> string list \<Rightarrow> chord_arc list" where
  "place_arcs cnt sp col a [] = []"
| "place_arcs cnt sp col a (v # vs) =
     \<lparr>arc_name = v, arc_value = cnt v, startAngle = a, endAngle = a + sp (cnt v), arc_color = col v,
      arc_opacity = (if cnt v = 0 then 0.15 else 0.8)\<rparr>
     # place_arcs cnt sp col (a + sp (cnt v) + minArcSpacing) vs"

definition side_arcs ::
  "field \<Rightarrow> survey_response list \<Rightarrow> real \<Rightarrow> real \<Rightarrow> theme_aware_colors \<Rightarrow> bool \<Rightarrow> chord_arc list" where
  "side_arcs f fd a0 width colors dk =
     (let vals = side_values f fd;
          n = length vals;
          avail = width - minArcSpacing * (real n - 1);
          tot = sum_list (side_totals f fd)
      in place_arcs (cat_count f fd) (\<lambda>c. arc_span (f = YearsAtMedtronic) avail n c tot)
           (\<lambda>v. chord_getNodeColor v (field_key f) colors dk) a0 vals)"

subsection \<open>Ribbons\<close>

record connection =
  conn_i :: nat
  conn_j :: nat
  conn_value :: nat
  left_arc :: chord_arc
  right_arc :: chord_arc

text \<open>The matrix cell \<open>(i, j)\<close>: a ribbon when its value is positive.\<close>

definition conn_at :: "nat list list \<Rightarrow> chord_arc list \<Rightarrow> chord_arc list \<Rightarrow> nat \<times> nat \<Rightarrow> string + connection list" where
  "conn_at M L R ij =
     (let (i, j) = ij; v = M ! i ! j
      in if 0 < v then
           (case (js_at L (int i), js_at R (int j)) of
              (Some l, Some r) \<Rightarrow> Inr [\<lparr>conn_i = i, conn_j = j, conn_value = v, left_arc = l, right_arc = r\<rparr>]
            | _ \<Rightarrow> Inl ''TypeError: Cannot read properties of undefined (reading startAngle)'')
         else Inr [])"

text \<open>The two nested loops, stopping at the first error.\<close>

fun collect_conns :: "(nat \<times> nat \<Rightarrow> string + connection list) \<Rightarrow> (nat \<times> nat) list \<Rightarrow> string + connection list" where
  "collect_conns g [] = Inr []"
| "collect_conns g (ij # ijs) =
     (case g ij of Inl e \<Rightarrow> Inl e
      | Inr cs \<Rightarrow> (case collect_conns g ijs of Inl e \<Rightarrow> Inl e | Inr cs' \<Rightarrow> Inr (cs @ cs')))"

definition chord_connections :: "nat list list \<Rightarrow> chord_arc list \<Rightarrow> chord_arc list \<Rightarrow> nat \<Rightarrow> nat \<Rightarrow> string + connection list" where
  "chord_connections M L R ns nt = collect_conns (conn_at M L R) (List.product [0..<ns] [0..<nt])"

subsection \<open>The render effect\<close>

record chord_view =
  leftArcs :: "chord_arc list"
  rightArcs :: "chord_arc list"
  connections :: "connection list"

text \<open>
  The effect: nothing to draw without data (\<open>None\<close>); otherwise the arcs and the
  ribbons, or the error the ribbon loop throws. The call
  \<open>processChordData(filteredData, currentSource, currentTarget)\<close> (line 373) is left
  out: its module \<open>shared/chordUtils\<close> is not part of the sources, and the effect never
  reads the \<open>chordData\<close> it returns, so the model assumes that call returns normally
  and has no effect on what is drawn.
\<close>

definition chord_render ::
  "bool \<Rightarrow> theme_aware_colors \<Rightarrow> bool \<Rightarrow> field \<Rightarrow> field \<Rightarrow> survey_response list \<Rightarrow> (string + chord_view) option" where
  "chord_render useTest colors dk src tgt data =
     (if data = [] then None
      else
        let fd = chord_filtered_data useTest data;
            sa = category_array src fd;
            ta = category_array tgt fd;
            M = connectionMatrix src tgt fd;
            L = side_arcs src fd leftStart (leftEnd - leftStart) colors dk;
            R = side_arcs tgt fd rightStart (rightEnd - rightStart) colors dk
        in Some (case chord_connections M L R (length sa) (length ta) of
                   Inl e \<Rightarrow> Inl e
                 | Inr cs \<Rightarrow> Inr \<lparr>leftArcs = L, rightArcs = R, connections = cs\<rparr>))"

subsection \<open>The secondary chord\<close>

text \<open>
  \<open>renderSecondaryChord\<close>, drawn when one of the fields is the peak-performance
  answer: the tenure bands followed by the sorted peak-performance answers, and a
  square matrix over them that connects a band to an answer in both directions and
  is zero within a group. The matrix is built with \<open>allCategories.map((cat, i) =>
  ...)\<close>, which \<open>enumerate\<close> models. Fewer than five answered rows draw nothing.
\<close>

definition show_secondary :: "field \<Rightarrow> field \<Rightarrow> bool" where
  "show_secondary src tgt = (src = PeakPerformance \<or> tgt = PeakPerformance)"

definition secondary_cell :: "survey_response list \<Rightarrow> nat \<times> string \<Rightarrow> nat \<times> string \<Rightarrow> nat" where
  "secondary_cell sd a b =
     (let (si, sc) = a; (ti, tc) = b;
          sy = si < length YEARS_GROUPS; ty = ti < length YEARS_GROUPS
      in if sy = ty then 0
         else let yc = (if sy then sc else tc); pc = (if sy then tc else sc)
              in length (filter (\<lambda>d. getYearsCategory (years_or_zero d) = yc \<and> peak_performance d = Some pc) sd))"

definition secondary_grid :: "survey_response list \<Rightarrow> string list \<Rightarrow> nat list list" where
  "secondary_grid sd cats = map (\<lambda>a. map (secondary_cell sd a) (enumerate 0 cats)) (enumerate 0 cats)"

definition secondary_matrix :: "bool \<Rightarrow> field \<Rightarrow> field \<Rightarrow> survey_response list \<Rightarrow> (string list \<times> nat list list) option" where
  "secondary_matrix useTest src tgt data =
     (if \<not> show_secondary src tgt \<or> data = [] then None
      else
        let sd = filter (\<lambda>d. present (peak_performance d)) (chord_filtered_data useTest data)
        in if length sd < 5 then None
           else let cats = YEARS_GROUPS @ sort (string_values (map peak_performance sd))
                in Some (cats, secondary_grid sd cats))"

subsection \<open>Sample inputs\<close>

text \<open>
  Two inputs for the layout and the ribbon loop: sixty \<open>visual\<close> rows and one
  \<open>auditory\<close> row, and two rows of which the second has no learning style.
\<close>

definition skewed_rows :: "survey_response list" where
  "skewed_rows = replicate 60 (mock_row ''s-1'' ''a-1'' 3 ''visual'' ''mentor'' ''team'' ''growth'') @
                 [mock_row ''s-2'' ''a-2'' 3 ''auditory'' ''mentor'' ''team'' ''growth'']"

definition gap_rows :: "survey_response list" where
  "gap_rows = [mock_row ''g-1'' ''a-1'' 3 ''visual'' ''mentor'' ''team'' ''growth'',
               (mock_row ''g-2'' ''a-2'' 3 ''auditory'' ''mentor'' ''team'' ''growth'')\<lparr>learning_style := None\<rparr>]"

subsection \<open>Properties of the chord view\<close>

lemma place_arcs_length [simp]: "length (place_arcs cnt sp col a vs) = length vs"
  by (induction vs arbitrary: a) simp_all

lemma place_arcs_const:
  assumes "\<forall>c. sp c = w"
  shows "map startAngle (place_arcs cnt sp col a vs) = map (\<lambda>i. a + real i * (w + minArcSpacing)) [0..<length vs] \<and>
         map (\<lambda>x. endAngle x - startAngle x) (place_arcs cnt sp col a vs) = replicate (length vs) w"
proof (induction vs arbitrary: a)
  case Nil
  then show ?case by simp
next
  case (Cons v vs)
  have "map (\<lambda>i. a + real i * (w + minArcSpacing)) [0..<Suc (length vs)] =
        a # map (\<lambda>i. (a + w + minArcSpacing) + real i * (w + minArcSpacing)) [0..<length vs]"
    by (simp add: map_upt_Suc algebra_simps del: upt_Suc)
  with Cons.IH [of "a + w + minArcSpacing"] assms show ?case by simp
qed

lemma years_arcs_eq:
  "side_arcs YearsAtMedtronic fd a0 w colors dk =
   place_arcs (cat_count YearsAtMedtronic fd) (\<lambda>c. (w - minArcSpacing * 4) / 5)
     (\<lambda>v. chord_getNodeColor v (field_key YearsAtMedtronic) colors dk) a0 YEARS_GROUPS"
  by (simp add: side_arcs_def side_values_def YEARS_GROUPS_def arc_span_def)

text \<open>
  C32: the tenure side is laid out as five equal arcs, one per band, spaced
  \<open>minArcSpacing\<close> apart, whose last arc ends exactly at the end of the half circle.
\<close>

theorem years_arcs_tile:
  "length (side_arcs YearsAtMedtronic fd a0 w colors dk) = 5 \<and>
   map startAngle (side_arcs YearsAtMedtronic fd a0 w colors dk) =
     map (\<lambda>i. a0 + real i * ((w - 4 * minArcSpacing) / 5 + minArcSpacing)) [0..<5] \<and>
   map (\<lambda>x. endAngle x - startAngle x) (side_arcs YearsAtMedtronic fd a0 w colors dk) =
     replicate 5 ((w - 4 * minArcSpacing) / 5) \<and>
   endAngle (last (side_arcs YearsAtMedtronic fd a0 w colors dk)) = a0 + w"
proof -
  let ?w = "(w - minArcSpacing * 4) / 5"
  have c: "\<forall>c. (\<lambda>c. ?w) c = ?w" by simp
  note pc = place_arcs_const [OF c, of "cat_count YearsAtMedtronic fd"
      "\<lambda>v. chord_getNodeColor v (field_key YearsAtMedtronic) colors dk" a0 YEARS_GROUPS]
  have l: "length YEARS_GROUPS = 5" by (simp add: YEARS_GROUPS_def)
  have "endAngle (last (side_arcs YearsAtMedtronic fd a0 w colors dk)) = a0 + w"
    by (simp add: years_arcs_eq YEARS_GROUPS_def field_simps)
  with pc l show ?thesis by (simp add: years_arcs_eq mult.commute)
qed

lemma category_or_unknown_ne: "category_or_unknown f d \<noteq> []"
  by (auto simp: category_or_unknown_def getYearsCategory_def split: option.splits)

lemma set_category_array: "set (category_array f fd) = category_or_unknown f ` set fd"
  by (simp add: category_array_def)

lemma distinct_category_array: "distinct (category_array f fd)"
  by (simp add: category_array_def)

lemma mem_category_array:
  assumes "d \<in> set fd"
  shows "field_category f d \<in> Some ` set (category_array f fd) \<longleftrightarrow> present (field_category f d)"
proof (cases "f = YearsAtMedtronic")
  case True
  then have "field_category f d = Some (category_or_unknown f d)"
    by (simp add: field_category_def category_or_unknown_def)
  with assms category_or_unknown_ne [of f d] show ?thesis
    by (auto simp: set_category_array present_def)
next
  case False
  show ?thesis
  proof (cases "raw_field f d")
    case None
    with False show ?thesis by (auto simp: field_category_def present_def)
  next
    case (Some x)
    show ?thesis
    proof (cases "x = []")
      case True
      with Some False show ?thesis using category_or_unknown_ne [THEN not_sym]
        by (auto simp: field_category_def present_def set_category_array)
    next
      case nx: False
      with Some False have "category_or_unknown f d = x" by (simp add: category_or_unknown_def)
      with assms Some False nx show ?thesis
        by (force simp: field_category_def present_def set_category_array)
    qed
  qed
qed

lemma filter_conj_length:
  "length (filter (\<lambda>d. P d \<and> Q d) xs) = length (filter Q (filter P xs))"
  by (simp add: filter_filter conj_commute)

lemma count_over_options:
  assumes "distinct cs"
  shows "(\<Sum>c\<leftarrow>cs. length (filter (\<lambda>d. g d = Some c) rs)) = length (filter (\<lambda>d. g d \<in> Some ` set cs) rs)"
proof -
  have "(\<Sum>c\<leftarrow>cs. length (filter (\<lambda>d. g d = Some c) rs)) = (\<Sum>c\<leftarrow>map Some cs. length (filter (\<lambda>d. g d = c) rs))"
    by (simp add: comp_def)
  also have "\<dots> = length (filter (\<lambda>d. g d \<in> set (map Some cs)) rs)"
    by (rule sum_list_count_filter) (simp add: assms distinct_map)
  finally show ?thesis by simp
qed

lemma connection_matrix_total:
  "sum_list (map sum_list (connectionMatrix src tgt fd)) =
   length (filter (\<lambda>d. present (field_category src d) \<and> present (field_category tgt d)) fd)"
proof -
  let ?A = "category_array src fd" and ?B = "category_array tgt fd"
  let ?fs = "field_category src" and ?ft = "field_category tgt"
  have row: "sum_list (map (\<lambda>tc. length (filter (\<lambda>d. ?fs d = Some sc \<and> ?ft d = Some tc) fd)) ?B) =
             length (filter (\<lambda>d. ?ft d \<in> Some ` set ?B) (filter (\<lambda>d. ?fs d = Some sc) fd))" for sc
    unfolding filter_conj_length by (rule count_over_options [OF distinct_category_array])
  have "sum_list (map sum_list (connectionMatrix src tgt fd)) =
        (\<Sum>sc\<leftarrow>?A. length (filter (\<lambda>d. ?fs d = Some sc) (filter (\<lambda>d. ?ft d \<in> Some ` set ?B) fd)))"
    unfolding connectionMatrix_def by (simp add: comp_def row filter_filter conj_commute)
  also have "\<dots> = length (filter (\<lambda>d. ?fs d \<in> Some ` set ?A) (filter (\<lambda>d. ?ft d \<in> Some ` set ?B) fd))"
    by (rule count_over_options [OF distinct_category_array])
  also have "\<dots> = length (filter (\<lambda>d. present (?fs d) \<and> present (?ft d)) fd)"
    unfolding filter_filter
    by (rule arg_cong [where f = length], rule filter_cong [OF refl])
       (use mem_category_array in blast)
  finally show ?thesis .
qed

text \<open>
  C31: the connection matrix counts every row that has both fields exactly once: its
  entries add up to the number of rows with a present source and target value.
\<close>

theorem chord_matrix_conservation:
  "sum_list (map sum_list (connectionMatrix src tgt fd)) =
   length (filter (\<lambda>d. present (field_category src d) \<and> present (field_category tgt d)) fd)"
  by (rule connection_matrix_total)

lemma collect_conns_ok:
  "(\<forall>ij \<in> set ijs. \<exists>cs. g ij = Inr cs) \<Longrightarrow> \<exists>cs. collect_conns g ijs = Inr cs"
  by (induction ijs) (auto split: sum.splits)

lemma conn_at_ok:
  "i < length L \<Longrightarrow> j < length R \<Longrightarrow> \<exists>cs. conn_at M L R (i, j) = Inr cs"
  by (simp add: conn_at_def js_at_def Let_def)

lemma side_arcs_length [simp]: "length (side_arcs f fd a w colors dk) = length (side_values f fd)"
  by (simp add: side_arcs_def Let_def)

lemma distinct_length_le:
  "distinct xs \<Longrightarrow> distinct ys \<Longrightarrow> set xs \<subseteq> set ys \<Longrightarrow> length xs \<le> length ys"
  by (metis card_mono distinct_card finite_set)

lemma valid_raw:
  "validateResponse d \<Longrightarrow> f \<noteq> YearsAtMedtronic \<Longrightarrow> \<exists>x. raw_field f d = Some x \<and> x \<noteq> []"
  using valid_present [of d f] by (auto simp: field_category_def present_def split: option.splits)

lemma category_array_fits:
  assumes "list_all validateResponse fd"
  shows "length (category_array f fd) \<le> length (side_values f fd)"
proof (cases "f = YearsAtMedtronic")
  case True
  have "set (category_array f fd) \<subseteq> set YEARS_GROUPS"
    using True getYearsCategory_mem by (auto simp: set_category_array category_or_unknown_def
                                             YEARS_GROUPS_def YEARS_CATEGORIES_def)
  then show ?thesis using True
    by (intro distinct_length_le distinct_category_array) (simp_all add: side_values_def YEARS_GROUPS_def)
next
  case False
  have "set (category_array f fd) \<subseteq> set (side_values f fd)"
  proof
    fix c assume "c \<in> set (category_array f fd)"
    then obtain d where d: "d \<in> set fd" "c = category_or_unknown f d" by (auto simp: set_category_array)
    from d(1) assms have "validateResponse d" by (simp add: list_all_iff)
    from valid_raw [OF this False] obtain x where "raw_field f d = Some x" "x \<noteq> []" by blast
    with d False show "c \<in> set (side_values f fd)"
      by (force simp: category_or_unknown_def side_values_def set_string_values)
  qed
  then show ?thesis
    by (intro distinct_length_le distinct_category_array) (simp_all add: side_values_def False distinct_string_values)
qed

lemma chord_render_no_error:
  assumes "list_all validateResponse data" "data \<noteq> []"
  shows "\<exists>v. chord_render useTest colors dk src tgt data = Some (Inr v)"
proof -
  define fd where "fd = chord_filtered_data useTest data"
  have v: "list_all validateResponse fd"
    using assms(1) by (auto simp: fd_def chord_filtered_data_def list_all_iff)
  let ?L = "side_arcs src fd leftStart (leftEnd - leftStart) colors dk"
  let ?R = "side_arcs tgt fd rightStart (rightEnd - rightStart) colors dk"
  have "\<forall>ij \<in> set (List.product [0..<length (category_array src fd)] [0..<length (category_array tgt fd)]).
          \<exists>cs. conn_at (connectionMatrix src tgt fd) ?L ?R ij = Inr cs"
    using category_array_fits [OF v, of src] category_array_fits [OF v, of tgt] conn_at_ok by auto
  from collect_conns_ok [OF this] obtain cs where
    "chord_connections (connectionMatrix src tgt fd) ?L ?R (length (category_array src fd))
       (length (category_array tgt fd)) = Inr cs"
    unfolding chord_connections_def by blast
  then show ?thesis using assms(2) by (simp add: chord_render_def fd_def [symmetric] Let_def)
qed

text \<open>
  On \<open>gap_rows\<close> a row without a learning style adds the category \<open>Unknown\<close>
  to the sorted matrix categories but no arc, so a ribbon's \<open>leftArcs[i]\<close> is
  \<open>undefined\<close> and the render effect throws a \<open>TypeError\<close>.
\<close>

lemma gap_rows_throw:
  "chord_render True colors False LearningStyle YearsAtMedtronic gap_rows =
     Some (Inl ''TypeError: Cannot read properties of undefined (reading startAngle)'')"
proof -
  have a: "category_array LearningStyle gap_rows = [''Unknown'', ''visual'']"
    by (simp add: category_array_def gap_rows_def mock_row_def category_or_unknown_def js_set_values_def)
  have b: "category_array YearsAtMedtronic gap_rows = [''0-5'']"
    by (simp add: category_array_def gap_rows_def mock_row_def category_or_unknown_def js_set_values_def
                  getYearsCategory_def years_or_zero_def)
  have m: "connectionMatrix LearningStyle YearsAtMedtronic gap_rows = [[0], [1]]"
    unfolding connectionMatrix_def a b
    by (simp add: gap_rows_def mock_row_def field_category_def getYearsCategory_def years_or_zero_def)
  have l: "string_values (map (raw_field LearningStyle) gap_rows) = [''visual'']"
    by (simp add: string_values_def gap_rows_def mock_row_def js_set_values_def)
  have ne: "gap_rows \<noteq> []" by (simp add: gap_rows_def)
  show ?thesis
    by (simp add: chord_render_def chord_filtered_data_def ne a b m side_arcs_def l side_values_def
        YEARS_GROUPS_def chord_connections_def conn_at_def js_at_def Let_def)
qed

lemma mock_years_array: "category_array YearsAtMedtronic mockData = [''0-5'', ''11-15'', ''6-10'']"
  by (simp add: category_array_def mockData_def mock_row_def category_or_unknown_def getYearsCategory_def
       years_or_zero_def js_set_values_def)

lemma mock_style_array: "category_array LearningStyle mockData = [''auditory'', ''kinesthetic'', ''visual'']"
  by (simp add: category_array_def mockData_def mock_row_def category_or_unknown_def js_set_values_def)

lemma mock_matrix: "connectionMatrix YearsAtMedtronic LearningStyle mockData = [[0, 0, 1], [0, 1, 0], [1, 0, 0]]"
  unfolding connectionMatrix_def mock_years_array mock_style_array
  by (simp add: mockData_def mock_row_def field_category_def getYearsCategory_def years_or_zero_def)

lemma mock_years_values: "side_values YearsAtMedtronic mockData = YEARS_GROUPS"
  by (simp add: side_values_def)

lemma mock_style_values: "side_values LearningStyle mockData = [''visual'', ''auditory'', ''kinesthetic'']"
  by (simp add: side_values_def string_values_def mockData_def mock_row_def js_set_values_def)

lemma mockData_ne: "mockData \<noteq> []" by (simp add: mockData_def)

text \<open>
  On the mock data the ribbons join the wrong arcs: the matrix is indexed by the
  sorted category arrays, the arcs by \<open>YEARS_GROUPS\<close> and first-seen order, so
  the ribbon of the rows (0-5, visual) is drawn between the arcs 0-5 and kinesthetic.
\<close>

lemma mock_ribbons_misplaced:
  "\<exists>v. chord_render True (categoryColors defaultSettings) False YearsAtMedtronic LearningStyle mockData = Some (Inr v) \<and>
       map (\<lambda>c. (category_array YearsAtMedtronic mockData ! conn_i c, category_array LearningStyle mockData ! conn_j c))
         (connections v) = [(''0-5'', ''visual''), (''11-15'', ''kinesthetic''), (''6-10'', ''auditory'')] \<and>
       map (\<lambda>c. (arc_name (left_arc c), arc_name (right_arc c))) (connections v) =
         [(''0-5'', ''kinesthetic''), (''6-10'', ''auditory''), (''11-15'', ''visual'')]"
  by (simp add: chord_render_def chord_filtered_data_def mockData_ne mock_years_array mock_style_array mock_matrix side_arcs_def mock_years_values mock_style_values YEARS_GROUPS_def
       chord_connections_def conn_at_def js_at_def Let_def del: of_nat_Suc)

lemma set_insert_all_replicate:
  "set_insert_all acc (replicate n x @ ys) =
   set_insert_all (if n = 0 \<or> x \<in> set acc then acc else acc @ [x]) ys"
  by (induction n arbitrary: acc) auto

lemma skewed_values: "side_values LearningStyle skewed_rows = [''visual'', ''auditory'']"
  by (simp add: side_values_def string_values_def skewed_rows_def js_set_values_def set_insert_all_replicate
       mock_row_def)

lemma skewed_array: "category_array LearningStyle skewed_rows = [''auditory'', ''visual'']"
  by (simp add: category_array_def skewed_rows_def js_set_values_def set_insert_all_replicate
       mock_row_def category_or_unknown_def)

lemma skewed_counts:
  "cat_count LearningStyle skewed_rows ''visual'' = 60" "cat_count LearningStyle skewed_rows ''auditory'' = 1"
  by (simp_all add: cat_count_def skewed_rows_def mock_row_def field_category_def)

lemma pi_spans: "rightEnd - rightStart = pi * 0.76" "minArcSpacing = pi * 0.02" "rightEnd = rightStart + pi * 0.76"
  by (simp_all add: rightEnd_def rightStart_def arcGap_def minArcSpacing_def algebra_simps)

text \<open>
  The minimum arc span is added on top of the proportional spans, so with one
  rare answer the arcs of the right half run past \<open>rightEnd\<close> into the gap
  between the half circles.
\<close>

lemma skewed_arcs_overflow:
  "rightEnd < endAngle (last (side_arcs LearningStyle skewed_rows rightStart (rightEnd - rightStart) colors dk))"
proof -
  let ?av = "pi * 0.76 - pi * 0.02 * (real 2 - 1)"
  have e: "endAngle (last (side_arcs LearningStyle skewed_rows rightStart (rightEnd - rightStart) colors dk)) =
           rightStart + arc_span False ?av 2 60 61 + pi * 0.02 + arc_span False ?av 2 1 61"
    by (simp add: side_arcs_def skewed_values side_totals_def skewed_array skewed_counts pi_spans(1,2) numeral_2_eq_2)
  have a60: "arc_span False ?av 2 60 61 = (pi * 0.76 - pi * 0.02) * (60 / 61)"
    using pi_gt_zero by (simp add: arc_span_def max_def minArcSpacing_def field_simps)
  have a1: "arc_span False ?av 2 1 61 = pi * 0.02"
    using pi_gt_zero by (simp add: arc_span_def max_def minArcSpacing_def field_simps)
  have "rightEnd < rightStart + (pi * 0.76 - pi * 0.02) * (60 / 61) + pi * 0.02 + pi * 0.02"
    using pi_gt_zero by (simp add: pi_spans(3) field_simps)
  then show ?thesis by (simp only: e a60 a1)
qed

subsection \<open>The ribbon loop in general\<close>

lemma collect_conns_Inl:
  "(\<exists>e. collect_conns g ijs = Inl e) \<longleftrightarrow> (\<exists>ij \<in> set ijs. \<exists>e. g ij = Inl e)"
  by (induction ijs) (auto split: sum.splits)

lemma conn_at_Inl:
  "(\<exists>e. conn_at M L R (i, j) = Inl e) \<longleftrightarrow> 0 < M ! i ! j \<and> (length L \<le> i \<or> length R \<le> j)"
  by (auto simp: conn_at_def js_at_def Let_def)

lemma collect_conns_mem:
  "collect_conns g ijs = Inr cs \<Longrightarrow> c \<in> set cs \<Longrightarrow> \<exists>ij \<in> set ijs. \<exists>cs'. g ij = Inr cs' \<and> c \<in> set cs'"
  by (induction ijs arbitrary: cs) (auto split: sum.splits)

lemma conn_at_mem:
  assumes "conn_at M L R (i, j) = Inr cs" "c \<in> set cs"
  shows "conn_i c = i \<and> conn_j c = j \<and> conn_value c = M ! i ! j \<and> left_arc c = L ! i \<and> right_arc c = R ! j"
  using assms by (auto simp: conn_at_def js_at_def Let_def split: if_splits)

lemma place_arcs_names: "map arc_name (place_arcs cnt sp col a vs) = vs"
  by (induction cnt sp col a vs rule: place_arcs.induct) simp_all

lemma side_arcs_names: "map arc_name (side_arcs f fd a w colors dk) = side_values f fd"
  by (simp add: side_arcs_def Let_def place_arcs_names)

lemma side_arcs_name_nth:
  "i < length (side_arcs f fd a w colors dk) \<Longrightarrow> arc_name (side_arcs f fd a w colors dk ! i) = side_values f fd ! i"
  by (metis nth_map side_arcs_names)

lemma chord_render_Inl:
  "(\<exists>e. chord_render useTest colors dk src tgt data = Some (Inl e)) \<longleftrightarrow>
   data \<noteq> [] \<and>
   (\<exists>e. chord_connections (connectionMatrix src tgt (chord_filtered_data useTest data))
          (side_arcs src (chord_filtered_data useTest data) leftStart (leftEnd - leftStart) colors dk)
          (side_arcs tgt (chord_filtered_data useTest data) rightStart (rightEnd - rightStart) colors dk)
          (length (category_array src (chord_filtered_data useTest data)))
          (length (category_array tgt (chord_filtered_data useTest data))) = Inl e)"
  by (auto simp: chord_render_def Let_def split: sum.splits)

text \<open>
  C34: the render effect throws exactly when a positive cell of the connection matrix
  has no arc at its index on one side. This happens when a category of the sorted
  matrix categories (such as \<open>Unknown\<close> for a missing answer) lies beyond the last
  arc, so that \<open>leftArcs[i]\<close> or \<open>rightArcs[j]\<close> is \<open>undefined\<close>.
\<close>

theorem chord_missing_field_throws:
  "(\<exists>e. chord_render useTest colors dk src tgt data = Some (Inl e)) \<longleftrightarrow>
   data \<noteq> [] \<and>
   (\<exists>i < length (category_array src (chord_filtered_data useTest data)).
    \<exists>j < length (category_array tgt (chord_filtered_data useTest data)).
      0 < connectionMatrix src tgt (chord_filtered_data useTest data) ! i ! j \<and>
      (length (side_values src (chord_filtered_data useTest data)) \<le> i \<or>
       length (side_values tgt (chord_filtered_data useTest data)) \<le> j))"
  unfolding chord_render_Inl chord_connections_def collect_conns_Inl
  by (auto simp: conn_at_Inl) (fastforce simp: atLeastLessThan_iff)+

text \<open>
  C35: each ribbon joins the arcs at its matrix indices, the \<open>i\<close>-th value of the
  source side and the \<open>j\<close>-th of the target side, and weighs the rows of the
  \<open>i\<close>-th and \<open>j\<close>-th sorted matrix categories. The arcs follow the order of the
  side values and the matrix the sorted categories, so a ribbon is drawn between the
  arcs of other categories than the rows it counts whenever the two orders differ.
\<close>

theorem chord_ribbons_misplaced:
  assumes "chord_render useTest colors dk src tgt data = Some (Inr v)" "c \<in> set (connections v)"
  shows "arc_name (left_arc c) = side_values src (chord_filtered_data useTest data) ! conn_i c \<and>
         arc_name (right_arc c) = side_values tgt (chord_filtered_data useTest data) ! conn_j c \<and>
         conn_value c =
           length (filter (\<lambda>d. field_category src d = Some (category_array src (chord_filtered_data useTest data) ! conn_i c) \<and>
                              field_category tgt d = Some (category_array tgt (chord_filtered_data useTest data) ! conn_j c))
                   (chord_filtered_data useTest data))"
proof -
  define fd where "fd = chord_filtered_data useTest data"
  let ?M = "connectionMatrix src tgt fd"
  let ?L = "side_arcs src fd leftStart (leftEnd - leftStart) colors dk"
  let ?R = "side_arcs tgt fd rightStart (rightEnd - rightStart) colors dk"
  have "chord_connections ?M ?L ?R (length (category_array src fd)) (length (category_array tgt fd)) =
        Inr (connections v)"
    using assms(1) by (auto simp: chord_render_def fd_def Let_def split: if_splits sum.splits)
  from collect_conns_mem [OF this [unfolded chord_connections_def] assms(2)]
  obtain i j cs where ij: "i < length (category_array src fd)" "j < length (category_array tgt fd)"
    and ca: "conn_at ?M ?L ?R (i, j) = Inr cs" "c \<in> set cs"
    by auto
  note m = conn_at_mem [OF ca]
  have "\<not> (\<exists>e. conn_at ?M ?L ?R (i, j) = Inl e)" using ca(1) by simp
  moreover have "0 < ?M ! i ! j"
    using ca by (auto simp: conn_at_def Let_def split: if_splits)
  ultimately have "i < length ?L" "j < length ?R" by (auto simp: conn_at_Inl)
  then show ?thesis
    using m ij by (simp add: fd_def [symmetric] side_arcs_name_nth connectionMatrix_def)
qed

theorem chord_ribbons_misplaced_witness:
  "\<exists>v. chord_render True (categoryColors defaultSettings) False YearsAtMedtronic LearningStyle mockData = Some (Inr v) \<and>
       connections v \<noteq> [] \<and>
       arc_name (left_arc (hd (connections v))) =
         side_values YearsAtMedtronic (chord_filtered_data True mockData) ! conn_i (hd (connections v)) \<and>
       arc_name (right_arc (hd (connections v))) =
         side_values LearningStyle (chord_filtered_data True mockData) ! conn_j (hd (connections v)) \<and>
       conn_value (hd (connections v)) =
         length (filter (\<lambda>d. field_category YearsAtMedtronic d =
                               Some (category_array YearsAtMedtronic (chord_filtered_data True mockData) ! conn_i (hd (connections v))) \<and>
                             field_category LearningStyle d =
                               Some (category_array LearningStyle (chord_filtered_data True mockData) ! conn_j (hd (connections v))))
                 (chord_filtered_data True mockData))"
proof -
  obtain v where hv: "chord_render True (categoryColors defaultSettings) False YearsAtMedtronic LearningStyle mockData = Some (Inr v)"
    and names: "map (\<lambda>c. (arc_name (left_arc c), arc_name (right_arc c))) (connections v) =
         [(''0-5'', ''kinesthetic''), (''6-10'', ''auditory''), (''11-15'', ''visual'')]"
    using mock_ribbons_misplaced by (elim exE conjE)
  have ne: "connections v \<noteq> []"
  proof
    assume "connections v = []"
    with names show False by simp
  qed
  then have "hd (connections v) \<in> set (connections v)" by simp
  note r = chord_ribbons_misplaced [OF hv this]
  show ?thesis
    by (rule exI [of _ v], intro conjI hv ne r [THEN conjunct1] r [THEN conjunct2, THEN conjunct1]
        r [THEN conjunct2, THEN conjunct2])
qed

subsection \<open>The arc layout in general\<close>

lemma place_arcs_end:
  "vs \<noteq> [] \<Longrightarrow> endAngle (last (place_arcs cnt sp col a vs)) =
     a + sum_list (map (\<lambda>v. sp (cnt v)) vs) + minArcSpacing * (real (length vs) - 1)"
proof (induction vs arbitrary: a)
  case (Cons v vs)
  show ?case
  proof (cases "vs = []")
    case False
    then have "place_arcs cnt sp col (a + sp (cnt v) + minArcSpacing) vs \<noteq> []" by (cases vs) simp_all
    with False Cons.IH [of "a + sp (cnt v) + minArcSpacing"] show ?thesis
      by (simp add: algebra_simps)
  qed simp
qed simp

lemma sum_list_strict_mono:
  "\<forall>x \<in> set xs. f x \<le> g x \<Longrightarrow> y \<in> set xs \<Longrightarrow> f y < g y \<Longrightarrow>
   sum_list (map f xs) < sum_list (map (g :: _ \<Rightarrow> real) xs)"
proof (induction xs)
  case (Cons x xs)
  have le: "sum_list (map f xs) \<le> sum_list (map g xs)" using Cons.prems(1) by (simp add: sum_list_mono)
  show ?case
  proof (cases "y = x")
    case True
    with Cons.prems(3) le show ?thesis by simp
  next
    case False
    with Cons.prems Cons.IH have "sum_list (map f xs) < sum_list (map g xs)" by simp
    moreover have "f x \<le> g x" using Cons.prems(1) by simp
    ultimately show ?thesis by simp
  qed
qed simp

lemma sum_list_shares:
  "sum_list (map (\<lambda>u. a * (real (g u) / t)) xs) = a * real (sum_list (map g xs)) / (t :: real)"
  by (induction xs) (simp_all add: add_divide_distrib distrib_left)

text \<open>
  C36: the minimum span is added on top of the proportional spans. When the counted
  rows of a (non-tenure) side all have a listed value and one value's share of the
  available span is below \<open>minArcSpacing\<close>, the arcs of that side run past the end
  of their half circle, into the gap that should separate the two sides.
\<close>

theorem chord_arcs_overflow:
  assumes "f \<noteq> YearsAtMedtronic" "0 < sum_list (side_totals f fd)"
    and "sum_list (map (cat_count f fd) (side_values f fd)) = sum_list (side_totals f fd)"
    and "v \<in> set (side_values f fd)"
    and "(w - minArcSpacing * (real (length (side_values f fd)) - 1)) *
           (real (cat_count f fd v) / real (sum_list (side_totals f fd))) < minArcSpacing"
  shows "a0 + w < endAngle (last (side_arcs f fd a0 w colors dk))"
proof -
  define vals where "vals = side_values f fd"
  define avail where "avail = w - minArcSpacing * (real (length vals) - 1)"
  define tot where "tot = sum_list (side_totals f fd)"
  let ?share = "\<lambda>u. avail * (real (cat_count f fd u) / real tot)"
  let ?span = "\<lambda>u. arc_span False avail (length vals) (cat_count f fd u) tot"
  have ne: "vals \<noteq> []" using assms(4) by (auto simp: vals_def)
  have tz: "tot \<noteq> 0" using assms(2) unfolding tot_def by linarith
  have sp: "?span u = max minArcSpacing (?share u)" for u
    using tz by (simp only: arc_span_def if_False if_not_P)
  have e: "endAngle (last (side_arcs f fd a0 w colors dk)) =
           a0 + sum_list (map ?span vals) + minArcSpacing * (real (length vals) - 1)"
    using ne assms(1) by (simp add: side_arcs_def vals_def avail_def tot_def Let_def place_arcs_end)
  have lt: "sum_list (map ?share vals) < sum_list (map ?span vals)"
  proof (rule sum_list_strict_mono)
    show "\<forall>x \<in> set vals. ?share x \<le> ?span x" by (simp add: sp)
    show "v \<in> set vals" using assms(4) by (simp add: vals_def)
    have "?share v < minArcSpacing" using assms(5) by (simp add: vals_def avail_def tot_def)
    then show "?share v < ?span v" unfolding sp by simp
  qed
  have sh: "sum_list (map ?share vals) = avail * real (sum_list (map (cat_count f fd) vals)) / real tot"
    by (rule sum_list_shares)
  have "sum_list (map (cat_count f fd) vals) = tot"
    using assms(3) by (simp add: vals_def tot_def)
  then have "sum_list (map ?share vals) = avail"
    using sh tz by simp
  then show ?thesis using lt e by (simp add: avail_def)
qed

theorem chord_arcs_overflow_witness:
  "rightStart + (rightEnd - rightStart) <
   endAngle (last (side_arcs LearningStyle skewed_rows rightStart (rightEnd - rightStart) (categoryColors defaultSettings) False))"
proof (rule chord_arcs_overflow [where v = "''auditory''"])
  have t: "sum_list (side_totals LearningStyle skewed_rows) = 61"
    by (simp add: side_totals_def skewed_array skewed_counts)
  show "LearningStyle \<noteq> YearsAtMedtronic" by simp
  show "0 < sum_list (side_totals LearningStyle skewed_rows)" by (simp add: t)
  show "sum_list (map (cat_count LearningStyle skewed_rows) (side_values LearningStyle skewed_rows)) =
        sum_list (side_totals LearningStyle skewed_rows)"
    by (simp add: t skewed_values skewed_counts)
  show "''auditory'' \<in> set (side_values LearningStyle skewed_rows)" by (simp add: skewed_values)
  show "(rightEnd - rightStart - minArcSpacing * (real (length (side_values LearningStyle skewed_rows)) - 1)) *
          (real (cat_count LearningStyle skewed_rows ''auditory'') / real (sum_list (side_totals LearningStyle skewed_rows)))
        < minArcSpacing"
    using pi_gt_zero by (simp add: t skewed_values skewed_counts pi_spans(1,2) field_simps)
qed

subsection \<open>Properties of the secondary chord\<close>

lemma secondary_cell_sym: "secondary_cell sd a b = secondary_cell sd b a"
  by (cases a; cases b) (auto simp: secondary_cell_def Let_def)

lemma foldr_max_const: "foldr (\<lambda>x. max c) ys 0 = (if ys = [] then 0 else (c::nat))"
  by (induction ys) (auto simp: max_def)

lemma transpose_square:
  "transpose (map (\<lambda>a. map (f a) xs) xs) = map (\<lambda>b. map (\<lambda>a. f a b) xs) xs"
proof (cases "xs = []")
  case False
  have l: "length (transpose (map (\<lambda>a. map (f a) xs) xs)) = length xs"
    using False by (simp add: length_transpose foldr_map comp_def foldr_max_const)
  show ?thesis
    by (rule nth_equalityI) (simp_all add: l nth_transpose)
qed simp

lemma secondary_symmetric:
  "transpose (secondary_grid sd cats) = secondary_grid sd cats"
  unfolding secondary_grid_def transpose_square by (simp add: secondary_cell_sym)

lemma sum_map_snd:
  "(\<And>b. b \<in> set E \<Longrightarrow> g b = h (snd b)) \<Longrightarrow> sum_list (map g E) = sum_list (map h (map snd E))"
  by (simp add: comp_def cong: map_cong)

lemma set_enumerate_fst: "b \<in> set (enumerate n xs) \<Longrightarrow> n \<le> fst b \<and> fst b < n + length xs"
  by (simp add: in_set_enumerate_eq)

lemma years_in_groups: "getYearsCategory x \<in> set YEARS_GROUPS"
  using getYearsCategory_cases [of x] by (auto simp: YEARS_GROUPS_def)

lemma peak_in_values:
  "d \<in> set sd \<Longrightarrow> peak_performance d \<in> Some ` set (sort (string_values (map peak_performance sd))) \<longleftrightarrow>
   present (peak_performance d)"
  by (force simp: set_string_values present_def split: option.splits)

lemma secondary_zero:
  "(fst a < length YEARS_GROUPS) = (fst b < length YEARS_GROUPS) \<Longrightarrow> secondary_cell sd a b = 0"
  by (auto simp: secondary_cell_def Let_def split: prod.splits)

lemma secondary_yp:
  "fst a < length YEARS_GROUPS \<Longrightarrow> \<not> fst b < length YEARS_GROUPS \<Longrightarrow>
   secondary_cell sd a b = length (filter (\<lambda>d. getYearsCategory (years_or_zero d) = snd a \<and> peak_performance d = Some (snd b)) sd)"
  by (auto simp: secondary_cell_def Let_def split: prod.splits)

lemma secondary_py:
  "\<not> fst a < length YEARS_GROUPS \<Longrightarrow> fst b < length YEARS_GROUPS \<Longrightarrow>
   secondary_cell sd a b = length (filter (\<lambda>d. getYearsCategory (years_or_zero d) = snd b \<and> peak_performance d = Some (snd a)) sd)"
  by (auto simp: secondary_cell_def Let_def split: prod.splits)

lemma secondary_row_years:
  assumes "fst a < length YEARS_GROUPS"
  shows "sum_list (map (secondary_cell sd a) (enumerate 0 (YEARS_GROUPS @ P))) =
         (\<Sum>p\<leftarrow>P. length (filter (\<lambda>d. getYearsCategory (years_or_zero d) = snd a \<and> peak_performance d = Some p) sd))"
proof -
  have "sum_list (map (secondary_cell sd a) (enumerate 0 YEARS_GROUPS)) = 0"
    using assms by (auto dest!: set_enumerate_fst intro!: sum_list_eq_0_iff [THEN iffD2] secondary_zero)
  moreover have "sum_list (map (secondary_cell sd a) (enumerate (length YEARS_GROUPS) P)) =
    sum_list (map (\<lambda>p. length (filter (\<lambda>d. getYearsCategory (years_or_zero d) = snd a \<and> peak_performance d = Some p) sd))
      (map snd (enumerate (length YEARS_GROUPS) P)))"
    by (rule sum_map_snd) (use assms in \<open>auto dest!: set_enumerate_fst intro: secondary_yp\<close>)
  ultimately show ?thesis by (simp add: enumerate_append_eq map_snd_enumerate)
qed

lemma secondary_row_peak:
  assumes "\<not> fst a < length YEARS_GROUPS"
  shows "sum_list (map (secondary_cell sd a) (enumerate 0 (YEARS_GROUPS @ P))) =
         (\<Sum>y\<leftarrow>YEARS_GROUPS. length (filter (\<lambda>d. getYearsCategory (years_or_zero d) = y \<and> peak_performance d = Some (snd a)) sd))"
proof -
  have "sum_list (map (secondary_cell sd a) (enumerate (length YEARS_GROUPS) P)) = 0"
    using assms by (auto dest!: set_enumerate_fst intro!: sum_list_eq_0_iff [THEN iffD2] secondary_zero)
  moreover have "sum_list (map (secondary_cell sd a) (enumerate 0 YEARS_GROUPS)) =
    sum_list (map (\<lambda>y. length (filter (\<lambda>d. getYearsCategory (years_or_zero d) = y \<and> peak_performance d = Some (snd a)) sd))
      (map snd (enumerate 0 YEARS_GROUPS)))"
    by (rule sum_map_snd) (use assms in \<open>auto dest!: set_enumerate_fst intro: secondary_py\<close>)
  ultimately show ?thesis by (simp add: enumerate_append_eq map_snd_enumerate)
qed

lemma secondary_rows:
  "sum_list (map sum_list (secondary_grid sd (YEARS_GROUPS @ P))) =
   (\<Sum>y\<leftarrow>YEARS_GROUPS. \<Sum>p\<leftarrow>P. length (filter (\<lambda>d. getYearsCategory (years_or_zero d) = y \<and> peak_performance d = Some p) sd)) +
   (\<Sum>p\<leftarrow>P. \<Sum>y\<leftarrow>YEARS_GROUPS. length (filter (\<lambda>d. getYearsCategory (years_or_zero d) = y \<and> peak_performance d = Some p) sd))"
proof -
  let ?r = "\<lambda>a. sum_list (map (secondary_cell sd a) (enumerate 0 (YEARS_GROUPS @ P)))"
  have "sum_list (map sum_list (secondary_grid sd (YEARS_GROUPS @ P))) =
        sum_list (map ?r (enumerate 0 YEARS_GROUPS)) + sum_list (map ?r (enumerate (length YEARS_GROUPS) P))"
    by (simp add: secondary_grid_def comp_def enumerate_append_eq [of 0 YEARS_GROUPS P])
  moreover have "sum_list (map ?r (enumerate 0 YEARS_GROUPS)) =
    sum_list (map (\<lambda>y. \<Sum>p\<leftarrow>P. length (filter (\<lambda>d. getYearsCategory (years_or_zero d) = y \<and> peak_performance d = Some p) sd))
      (map snd (enumerate 0 YEARS_GROUPS)))"
    by (rule sum_map_snd) (auto dest!: set_enumerate_fst intro: secondary_row_years)
  moreover have "sum_list (map ?r (enumerate (length YEARS_GROUPS) P)) =
    sum_list (map (\<lambda>p. \<Sum>y\<leftarrow>YEARS_GROUPS. length (filter (\<lambda>d. getYearsCategory (years_or_zero d) = y \<and> peak_performance d = Some p) sd))
      (map snd (enumerate (length YEARS_GROUPS) P)))"
    by (rule sum_map_snd) (auto dest!: set_enumerate_fst intro: secondary_row_peak)
  ultimately show ?thesis by (simp only: map_snd_enumerate)
qed

lemma secondary_by_years:
  assumes "distinct P" "\<And>d. d \<in> set sd \<Longrightarrow> peak_performance d \<in> Some ` set P \<longleftrightarrow> present (peak_performance d)"
  shows "(\<Sum>y\<leftarrow>YEARS_GROUPS. \<Sum>p\<leftarrow>P. length (filter (\<lambda>d. getYearsCategory (years_or_zero d) = y \<and> peak_performance d = Some p) sd)) =
         length (filter (\<lambda>d. present (peak_performance d)) sd)"
proof -
  let ?gy = "\<lambda>d. getYearsCategory (years_or_zero d)"
  have "(\<Sum>p\<leftarrow>P. length (filter (\<lambda>d. ?gy d = y \<and> peak_performance d = Some p) sd)) =
        length (filter (\<lambda>d. ?gy d = y) (filter (\<lambda>d. present (peak_performance d)) sd))" for y
  proof -
    have "(\<Sum>p\<leftarrow>P. length (filter (\<lambda>d. ?gy d = y \<and> peak_performance d = Some p) sd)) =
          length (filter (\<lambda>d. peak_performance d \<in> Some ` set P) (filter (\<lambda>d. ?gy d = y) sd))"
      unfolding filter_conj_length by (rule count_over_options [OF assms(1)])
    also have "\<dots> = length (filter (\<lambda>d. ?gy d = y) (filter (\<lambda>d. present (peak_performance d)) sd))"
      using assms(2) by (simp add: filter_filter conj_commute cong: filter_cong)
    finally show ?thesis .
  qed
  then have "(\<Sum>y\<leftarrow>YEARS_GROUPS. \<Sum>p\<leftarrow>P. length (filter (\<lambda>d. ?gy d = y \<and> peak_performance d = Some p) sd)) =
             (\<Sum>y\<leftarrow>YEARS_GROUPS. length (filter (\<lambda>d. ?gy d = y) (filter (\<lambda>d. present (peak_performance d)) sd)))"
    by (simp only:)
  also have "\<dots> = length (filter (\<lambda>d. ?gy d \<in> set YEARS_GROUPS) (filter (\<lambda>d. present (peak_performance d)) sd))"
    by (rule sum_list_count_filter) (simp add: YEARS_GROUPS_def)
  also have "\<dots> = length (filter (\<lambda>d. present (peak_performance d)) sd)"
    by (simp add: years_in_groups)
  finally show ?thesis .
qed

lemma secondary_by_peak:
  assumes "distinct P" "\<And>d. d \<in> set sd \<Longrightarrow> peak_performance d \<in> Some ` set P \<longleftrightarrow> present (peak_performance d)"
  shows "(\<Sum>p\<leftarrow>P. \<Sum>y\<leftarrow>YEARS_GROUPS. length (filter (\<lambda>d. getYearsCategory (years_or_zero d) = y \<and> peak_performance d = Some p) sd)) =
         length (filter (\<lambda>d. present (peak_performance d)) sd)"
proof -
  have dY: "distinct YEARS_GROUPS" by (simp add: YEARS_GROUPS_def)
  have "(\<Sum>y\<leftarrow>YEARS_GROUPS. length (filter (\<lambda>d. getYearsCategory (years_or_zero d) = y \<and> peak_performance d = Some p) sd)) =
        length (filter (\<lambda>d. peak_performance d = Some p) sd)" for p
    using sum_list_count_filter [OF dY, of "\<lambda>d. getYearsCategory (years_or_zero d)" "filter (\<lambda>d. peak_performance d = Some p) sd"]
    by (simp add: filter_filter conj_commute years_in_groups)
  then have "(\<Sum>p\<leftarrow>P. \<Sum>y\<leftarrow>YEARS_GROUPS. length (filter (\<lambda>d. getYearsCategory (years_or_zero d) = y \<and> peak_performance d = Some p) sd)) =
        length (filter (\<lambda>d. peak_performance d \<in> Some ` set P) sd)"
    by (simp add: count_over_options [OF assms(1)])
  also have "\<dots> = length (filter (\<lambda>d. present (peak_performance d)) sd)"
    using assms(2) by (simp cong: filter_cong)
  finally show ?thesis .
qed

lemma secondary_total:
  "sum_list (map sum_list (secondary_grid sd (YEARS_GROUPS @ sort (string_values (map peak_performance sd))))) =
   2 * length (filter (\<lambda>d. present (peak_performance d)) sd)"
proof -
  have d: "distinct (sort (string_values (map peak_performance sd)))" by (simp add: distinct_string_values)
  show ?thesis
    by (simp add: secondary_rows secondary_by_years [OF d peak_in_values] secondary_by_peak [OF d peak_in_values])
qed

text \<open>
  C37: the secondary chord matrix is a square, symmetric adjacency matrix over its
  categories, and its entries add up to twice the number of rows with a peak-performance
  answer: each row is one band-answer ribbon, counted once in each direction.
\<close>

theorem secondary_matrix_sound:
  assumes "secondary_matrix useTest src tgt data = Some (cats, M)"
  shows "length M = length cats \<and> transpose M = M \<and>
         sum_list (map sum_list M) =
           2 * length (filter (\<lambda>d. present (peak_performance d)) (chord_filtered_data useTest data))"
proof -
  define sd where "sd = filter (\<lambda>d. present (peak_performance d)) (chord_filtered_data useTest data)"
  have "cats = YEARS_GROUPS @ sort (string_values (map peak_performance sd)) \<and> M = secondary_grid sd cats"
    using assms by (auto simp: secondary_matrix_def sd_def [symmetric] Let_def split: if_splits)
  then show ?thesis
    using secondary_symmetric [of sd cats] secondary_total [of sd]
    by (simp add: secondary_grid_def sd_def)
qed

theorem secondary_matrix_sound_witness:
  "\<exists>cats M. secondary_matrix False PeakPerformance LearningStyle (mockData @ mockData) = Some (cats, M) \<and>
     length M = length cats \<and> transpose M = M \<and> sum_list (map sum_list M) = 12"
proof -
  let ?sd = "mockData @ mockData"
  let ?cats = "YEARS_GROUPS @ sort (string_values (map peak_performance ?sd))"
  have e: "secondary_matrix False PeakPerformance LearningStyle ?sd = Some (?cats, secondary_grid ?sd ?cats)"
    by (simp add: secondary_matrix_def show_secondary_def chord_filtered_data_def mockData_def mock_row_def present_def Let_def)
  have "length (filter (\<lambda>d. present (peak_performance d)) (chord_filtered_data False ?sd)) = 6"
    by (simp add: chord_filtered_data_def mockData_def mock_row_def present_def)
  with secondary_matrix_sound [OF e] e show ?thesis by auto
qed

end
