(* ===== verification/Contrast.thy ===== *)
theory Contrast
  imports Prelude "HOL-Library.While_Combinator"
begin

text \<open>
  The accessibility helpers of \<open>colorUtils.ts\<close>: \<open>getContrastRatio\<close>, which reads
  the channels of a colour with \<open>color.match(/\d+/g)\<close>, and \<open>isAccessible\<close>. The
  global regular-expression match is a loop over the string that skips to the next
  digit and takes the longest run of digits; it is kept as a \<open>while_option\<close> loop,
  and a recursive reference definition states what it computes. A \<open>NaN\<close> result
  (a channel read from \<open>undefined\<close>) is \<open>None\<close>. Digit strings are read as exact
  naturals; \<open>Math.pow\<close> is \<open>powr\<close>.
\<close>

subsection \<open>The digit scan\<close>

definition is_digit :: "char \<Rightarrow> bool" where
  "is_digit c \<longleftrightarrow> CHR ''0'' \<le> c \<and> c \<le> CHR ''9''"

text \<open>One match of \<open>/\d+/g\<close>: skip to the next digit, take the maximal run after it.\<close>

definition match_step :: "string \<times> string list \<Rightarrow> string \<times> string list" where
  "match_step st =
     (let (rest, runs) = st; r = dropWhile (\<lambda>c. \<not> is_digit c) rest
      in (dropWhile is_digit r, runs @ [takeWhile is_digit r]))"

text \<open>The matching loop, while a digit is left in the string.\<close>

definition scan_digits :: "string \<Rightarrow> string list option" where
  "scan_digits s = map_option snd (while_option (\<lambda>(rest, runs). list_ex is_digit rest) match_step (s, []))"

text \<open>\<open>color.match(/\d+/g)\<close>: the runs, or \<open>null\<close> (\<open>None\<close>) when there is none.\<close>

definition match_digits :: "string \<Rightarrow> string list option" where
  "match_digits s = (case scan_digits s of Some (r # rs) \<Rightarrow> Some (r # rs) | _ \<Rightarrow> None)"

text \<open>The reference: the maximal runs of digits, left to right.\<close>

function digit_runs :: "string \<Rightarrow> string list" where
  "digit_runs s =
     (let r = dropWhile (\<lambda>c. \<not> is_digit c) s
      in if r = [] then [] else takeWhile is_digit r # digit_runs (dropWhile is_digit r))"
  by pat_completeness auto
termination
proof (relation "measure length")
  fix s r
  assume r: "r = dropWhile (\<lambda>c. \<not> is_digit c) s" "r \<noteq> []"
  then have "is_digit (hd r)" by (metis (mono_tags, lifting) hd_dropWhile)
  with r(2) have "length (dropWhile is_digit r) < length r"
    by (cases r) (simp_all add: le_imp_less_Suc length_dropWhile_le)
  moreover have "length r \<le> length s" using r(1) by (simp add: length_dropWhile_le)
  ultimately show "(dropWhile is_digit r, s) \<in> measure length" by simp
qed simp

declare digit_runs.simps [simp del]

text \<open>\<open>Number(run)\<close> for a run of decimal digits.\<close>

definition dec_value :: "string \<Rightarrow> nat" where
  "dec_value ds = foldl (\<lambda>n c. 10 * n + (of_char c - 48)) 0 ds"

subsection \<open>Contrast\<close>

text \<open>One channel of \<open>getLuminance\<close>: the sRGB transfer function.\<close>

definition channel :: "real \<Rightarrow> real" where
  "channel v = (let c = v / 255 in if c \<le> 0.03928 then c / 12.92 else ((c + 0.055) / 1.055) powr 2.4)"

text \<open>
  \<open>getLuminance\<close>: the numbers in the string, \<open>[0, 0, 0]\<close> when there is none; with
  fewer than three numbers \<open>g\<close> or \<open>b\<close> is \<open>undefined\<close> and the luminance \<open>NaN\<close>.
\<close>

definition getLuminance :: "string \<Rightarrow> real option" where
  "getLuminance color =
     (let rgb = (case match_digits color of None \<Rightarrow> [0, 0, 0] | Some rs \<Rightarrow> map (\<lambda>r. real (dec_value r)) rs)
      in if length rgb < 3 then None
         else Some (0.2126 * channel (rgb ! 0) + 0.7152 * channel (rgb ! 1) + 0.0722 * channel (rgb ! 2)))"

definition getContrastRatio :: "string \<Rightarrow> string \<Rightarrow> real option" where
  "getContrastRatio fg bg =
     (case (getLuminance fg, getLuminance bg) of
        (Some l1, Some l2) \<Rightarrow> Some ((max l1 l2 + 0.05) / (min l1 l2 + 0.05))
      | _ \<Rightarrow> None)"

text \<open>\<open>NaN >= 4.5\<close> is false.\<close>

definition isAccessible :: "string \<Rightarrow> string \<Rightarrow> bool" where
  "isAccessible fg bg = (case getContrastRatio fg bg of Some r \<Rightarrow> 4.5 \<le> r | None \<Rightarrow> False)"

subsection \<open>Properties of the scan and the contrast check\<close>

lemma digit_left_iff: "list_ex is_digit s \<longleftrightarrow> dropWhile (\<lambda>c. \<not> is_digit c) s \<noteq> []"
  by (simp add: list_ex_iff dropWhile_eq_Nil_conv)

lemma match_step_eq:
  "match_step (s, acc) =
   (dropWhile is_digit (dropWhile (\<lambda>c. \<not> is_digit c) s), acc @ [takeWhile is_digit (dropWhile (\<lambda>c. \<not> is_digit c) s)])"
  by (simp add: match_step_def Let_def)

lemma scan_loop:
  "\<exists>rest'. while_option (\<lambda>(rest, runs). list_ex is_digit rest) match_step (s, acc) = Some (rest', acc @ digit_runs s)"
proof (induction s arbitrary: acc rule: digit_runs.induct)
  case (1 s)
  let ?r = "dropWhile (\<lambda>c. \<not> is_digit c) s"
  show ?case
  proof (cases "?r = []")
    case True
    then show ?thesis
      by (simp add: while_option_unfold [of _ _ "(s, acc)"] digit_left_iff digit_runs.simps [of s])
  next
    case False
    obtain rest' where "while_option (\<lambda>(rest, runs). list_ex is_digit rest) match_step
        (dropWhile is_digit ?r, acc @ [takeWhile is_digit ?r]) =
        Some (rest', (acc @ [takeWhile is_digit ?r]) @ digit_runs (dropWhile is_digit ?r))"
      using "1.IH" [OF refl False] by blast
    with False show ?thesis
      by (simp add: while_option_unfold [of _ _ "(s, acc)"] digit_left_iff match_step_eq
          digit_runs.simps [of s] Let_def)
  qed
qed

text \<open>
  The digit scan of \<open>color.match(/\d+/g)\<close> ends on every string (each pass
  consumes at least one digit) and returns exactly the maximal runs of digits, left to
  right.
\<close>

lemma scan_digits_total: "scan_digits s = Some (digit_runs s)"
  using scan_loop [of s "[]"] by (auto simp: scan_digits_def)

lemma match_digits_runs: "match_digits s = (if digit_runs s = [] then None else Some (digit_runs s))"
  by (simp add: match_digits_def scan_digits_total split: list.splits)

lemma channel_one: "channel 1 = 1 / (255 * 12.92)"
  by (simp add: channel_def)

lemma lum_white: "getLuminance ''#FFFFFF'' = Some 0"
  by (simp add: getLuminance_def match_digits_runs digit_runs.simps is_digit_def channel_def)

lemma lum_0A0A0F: "getLuminance ''#0A0A0F'' = Some 0"
  by (simp add: getLuminance_def match_digits_runs digit_runs.simps is_digit_def channel_def dec_value_def)

lemma lum_1A1A1A: "getLuminance ''#1A1A1A'' = Some (1 / (255 * 12.92))"
  by (simp add: getLuminance_def match_digits_runs digit_runs.simps is_digit_def dec_value_def channel_one)

text \<open>
  On the theme colours: the light theme's own text colour \<open>#1A1A1A\<close> on its white
  background gets the ratio 1.006, and the dark theme's white text on \<open>#0A0A0F\<close>
  the ratio 1, although their real contrast is above 17:1.
\<close>

lemma theme_text_rejected:
  "getContrastRatio ''#1A1A1A'' ''#FFFFFF'' = Some (1 + 20 / (255 * 12.92)) \<and> \<not> isAccessible ''#1A1A1A'' ''#FFFFFF'' \<and>
   getContrastRatio ''#FFFFFF'' ''#0A0A0F'' = Some 1 \<and> \<not> isAccessible ''#FFFFFF'' ''#0A0A0F''"
  by (simp add: getContrastRatio_def isAccessible_def lum_white lum_0A0A0F lum_1A1A1A)

lemma digit_runs_Nil_iff: "digit_runs s = [] \<longleftrightarrow> \<not> list_ex is_digit s"
  by (simp add: digit_runs.simps [of s] digit_left_iff Let_def)

lemma lum_no_digit: "\<not> list_ex is_digit s \<Longrightarrow> getLuminance s = Some 0"
  by (simp add: getLuminance_def match_digits_runs digit_runs_Nil_iff channel_def)

lemma lum_few_runs: "digit_runs s \<noteq> [] \<Longrightarrow> length (digit_runs s) < 3 \<Longrightarrow> getLuminance s = None"
  by (simp add: getLuminance_def match_digits_runs)

lemma accessible_lum:
  "isAccessible fg bg \<Longrightarrow> getLuminance fg \<noteq> None \<and> getLuminance bg \<noteq> None"
  by (auto simp: isAccessible_def getContrastRatio_def split: option.splits)

text \<open>
  C39: the contrast check reads decimal digit runs, so it misreads hex colours. Two
  colours without a decimal digit (such as \<open>#FFFFFF\<close> and \<open>#FFEEDD\<close>) both read
  as black, get the ratio 1 and fail; a colour with one or two digit runs (such as
  black, \<open>#000000\<close>) has no luminance (\<open>NaN\<close>), so no pair containing it is ever
  accessible, white on black included.
\<close>

theorem hex_colours_misread:
  assumes "\<not> list_ex is_digit fg" "\<not> list_ex is_digit bg"
    and "digit_runs c \<noteq> []" "length (digit_runs c) < 3"
  shows "getContrastRatio fg bg = Some 1 \<and> \<not> isAccessible fg bg \<and>
         getLuminance c = None \<and> \<not> isAccessible c x \<and> \<not> isAccessible x c"
proof -
  have l: "getLuminance c = None" by (rule lum_few_runs [OF assms(3,4)])
  then have "\<not> isAccessible c x \<and> \<not> isAccessible x c"
    using accessible_lum [of c x] accessible_lum [of x c] by blast
  moreover have "getContrastRatio fg bg = Some 1"
    using lum_no_digit [OF assms(1)] lum_no_digit [OF assms(2)] by (simp add: getContrastRatio_def)
  ultimately show ?thesis using l by (simp add: isAccessible_def)
qed

theorem hex_colours_misread_witness:
  "getContrastRatio ''#FFFFFF'' ''#FFEEDD'' = Some 1 \<and> \<not> isAccessible ''#FFFFFF'' ''#FFEEDD'' \<and>
   getLuminance ''#000000'' = None \<and> \<not> isAccessible ''#000000'' ''#FFFFFF'' \<and> \<not> isAccessible ''#FFFFFF'' ''#000000''"
  by (rule hex_colours_misread) (simp_all add: digit_runs.simps is_digit_def)

end
