(* ===== verification/AdminPage.thy ===== *)
theory AdminPage
  imports Settings
begin

text \<open>
  The admin page \<open>app/admin/controls/page.tsx\<close> (\<open>GlobalControlsPage\<close>): the
  toggles, the speed slider and the reset button, which call the provider's operations,
  the light/dark switch of the colour editor (\<open>colorEditMode\<close>), and one
  \<open>ColorPicker\<close> per (category, answer) of the edited theme. Each picker keeps its
  own \<open>inputValue\<close> state, created from its \<open>color\<close> prop when it mounts; React
  keys the pickers by category and answer only, so a picker keeps its state when the
  edited theme changes or the settings are reset. The page state holds these values
  as a map, and a render step mounts the pickers that appear and unmounts those that
  disappear.
\<close>

subsection \<open>The page state\<close>

record admin_page =
  colorEditMode :: theme
  page_settings :: visualization_settings
  hex_inputs :: "string \<times> string \<Rightarrow> string option"

text \<open>The \<open>color\<close> prop of the picker of an answer in the edited theme, if it is rendered.\<close>

definition picker_color :: "admin_page \<Rightarrow> string \<Rightarrow> string \<Rightarrow> string option" where
  "picker_color p c a = color_at (colors_of (colorEditMode p) (categoryColors (page_settings p))) c a"

text \<open>Rendering: a rendered picker keeps its state, or mounts with its colour.\<close>

definition admin_render :: "admin_page \<Rightarrow> admin_page" where
  "admin_render p =
     p\<lparr>hex_inputs := (\<lambda>(c, a). case picker_color p c a of None \<Rightarrow> None
                        | Some col \<Rightarrow> (case hex_inputs p (c, a) of None \<Rightarrow> Some col | Some v \<Rightarrow> Some v))\<rparr>"

text \<open>The page's events: the header's reset button, the three toggles, the slider, the
  editor's theme buttons, and an event of one picker.\<close>

datatype admin_event =
    ClickReset
  | ClickToggleDark
  | ClickToggleTestData
  | ClickToggleAutoPlay
  | SlideSpeed real
  | SetColorEditMode theme
  | PickerInput string string picker_event

fun admin_handle :: "admin_event \<Rightarrow> admin_page \<Rightarrow> admin_page" where
  "admin_handle ClickReset p = p\<lparr>page_settings := apply_op ResetToDefaults (page_settings p)\<rparr>"
| "admin_handle ClickToggleDark p = p\<lparr>page_settings := apply_op ToggleDarkMode (page_settings p)\<rparr>"
| "admin_handle ClickToggleTestData p = p\<lparr>page_settings := apply_op ToggleTestData (page_settings p)\<rparr>"
| "admin_handle ClickToggleAutoPlay p = p\<lparr>page_settings := apply_op ToggleAutoPlay (page_settings p)\<rparr>"
| "admin_handle (SlideSpeed v) p = p\<lparr>page_settings := apply_op (UpdateAutoPlaySpeed v) (page_settings p)\<rparr>"
| "admin_handle (SetColorEditMode t) p = p\<lparr>colorEditMode := t\<rparr>"
| "admin_handle (PickerInput c a e) p =
     (case (picker_color p c a, hex_inputs p (c, a)) of
        (Some color, Some iv) \<Rightarrow>
          (let (iv', out) = picker_step color e iv
           in p\<lparr>hex_inputs := (hex_inputs p)((c, a) \<mapsto> iv'),
                page_settings := (case out of None \<Rightarrow> page_settings p
                                  | Some nc \<Rightarrow> apply_op (UpdateCategoryColor c a nc (Some (colorEditMode p)))
                                                 (page_settings p))\<rparr>)
      | _ \<Rightarrow> p)"

text \<open>One event, then the re-render.\<close>

definition admin_step :: "admin_event \<Rightarrow> admin_page \<Rightarrow> admin_page" where
  "admin_step e p = admin_render (admin_handle e p)"

text \<open>The page mounted on the provider's settings, editing the light theme.\<close>

definition admin_init :: "visualization_settings \<Rightarrow> admin_page" where
  "admin_init s = admin_render \<lparr>colorEditMode = Light, page_settings = s, hex_inputs = Map.empty\<rparr>"

text \<open>
  The values the browser delivers: a range input only takes the values from its
  \<open>min\<close> to its \<open>max\<close> in steps of \<open>step\<close>, and a colour input always holds a
  \<open>#rrggbb\<close> colour.
\<close>

definition slider_values :: "real list" where
  "slider_values = map (\<lambda>k. 1000 + 500 * real k) [0..<19]"

fun admin_event_ok :: "admin_event \<Rightarrow> bool" where
  "admin_event_ok (SlideSpeed v) = (v \<in> set slider_values)"
| "admin_event_ok (PickerInput c a (ColorInput v)) = is_hex_color v"
| "admin_event_ok e = True"

inductive admin_reach :: "admin_page \<Rightarrow> bool" where
  init: "admin_reach (admin_init defaultSettings)"
| step: "admin_reach p \<Longrightarrow> admin_event_ok e \<Longrightarrow> admin_reach (admin_step e p)"

text \<open>Every colour of both themes.\<close>

definition all_colors :: "theme_aware_colors \<Rightarrow> string set" where
  "all_colors tc = (\<Union>m \<in> ran (light tc) \<union> ran (dark tc). ran m)"

definition settings_wf :: "visualization_settings \<Rightarrow> bool" where
  "settings_wf s \<longleftrightarrow> all_colors (categoryColors s) \<subseteq> Collect is_hex_color \<and> autoPlaySpeed s \<in> set slider_values"

subsection \<open>Properties of the admin page\<close>

lemma all_colors_set:
  "all_colors (set_colors_of t cc tc) \<subseteq> all_colors tc \<union> (\<Union>m \<in> ran cc. ran m)"
  unfolding all_colors_def set_colors_of_def by (cases t) auto

lemma colors_of_sub: "(\<Union>m \<in> ran (colors_of t tc). ran m) \<subseteq> all_colors tc"
  unfolding all_colors_def colors_of_def by (cases t) auto

lemma inner_sub:
  "ran (case cc c of None \<Rightarrow> Map.empty | Some m \<Rightarrow> m) \<subseteq> (\<Union>m \<in> ran cc. ran m)"
  by (auto simp: ran_def split: option.splits)

lemma update_colors:
  "all_colors (categoryColors (updateCategoryColor c a col th s)) \<subseteq> all_colors (categoryColors s) \<union> {col}"
proof -
  define t where "t = target_theme th s"
  define cc where "cc = colors_of t (categoryColors s)"
  define inner where "inner = (case cc c of None \<Rightarrow> Map.empty | Some m \<Rightarrow> m)"
  have "(\<Union>m \<in> ran (cc(c \<mapsto> inner(a \<mapsto> col))). ran m) \<subseteq> (\<Union>m \<in> ran cc. ran m) \<union> ran (inner(a \<mapsto> col))"
    by (rule union_ran_upd)
  also have "\<dots> \<subseteq> (\<Union>m \<in> ran cc. ran m) \<union> {col}"
    using ran_upd_sub [of inner a col] inner_sub [of cc c] unfolding inner_def by blast
  also have "\<dots> \<subseteq> all_colors (categoryColors s) \<union> {col}"
    using colors_of_sub [of t "categoryColors s"] unfolding cc_def by blast
  finally have "all_colors (set_colors_of t (cc(c \<mapsto> inner(a \<mapsto> col))) (categoryColors s)) \<subseteq>
             all_colors (categoryColors s) \<union> {col}"
    using all_colors_set [of t "cc(c \<mapsto> inner(a \<mapsto> col))" "categoryColors s"] by blast
  then show ?thesis by (simp add: updateCategoryColor_def Let_def t_def cc_def inner_def)
qed
lemma ran_palette: "(\<Union>m \<in> ran (palette xs). ran m) \<subseteq> set (concat (map (map snd \<circ> snd) xs))"
proof
  fix x assume "x \<in> (\<Union>m \<in> ran (palette xs). ran m)"
  then obtain m where m: "m \<in> ran (palette xs)" "x \<in> ran m" by blast
  from m(1) obtain c as where "(c, as) \<in> set xs" "m = map_of as"
    using ran_map_of_sub [of "map (\<lambda>(c, as). (c, map_of as)) xs"] by (auto simp: palette_def)
  with m(2) ran_map_of_sub [of as] show "x \<in> set (concat (map (map snd \<circ> snd) xs))" by force
qed

lemma palette_hex:
  "list_all is_hex_color (concat (map (map snd \<circ> snd) xs)) \<Longrightarrow> (\<Union>m \<in> ran (palette xs). ran m) \<subseteq> Collect is_hex_color"
proof -
  assume "list_all is_hex_color (concat (map (map snd \<circ> snd) xs))"
  then have "set (concat (map (map snd \<circ> snd) xs)) \<subseteq> Collect is_hex_color"
    by (auto simp: list_all_iff)
  with ran_palette [of xs] show ?thesis by (rule order_trans)
qed

lemma defaults_wf: "settings_wf defaultSettings"
proof -
  have l: "(\<Union>m \<in> ran defaultLightColors. ran m) \<subseteq> Collect is_hex_color"
    unfolding defaultLightColors_def by (rule palette_hex) (simp add: is_hex_color_def is_hex_digit_def)
  have d: "(\<Union>m \<in> ran defaultDarkColors. ran m) \<subseteq> Collect is_hex_color"
    unfolding defaultDarkColors_def by (rule palette_hex) (simp add: is_hex_color_def is_hex_digit_def)
  have "5000 \<in> set slider_values" by (simp add: slider_values_def image_iff)
  with l d show ?thesis
    by (simp add: settings_wf_def defaultSettings_def all_colors_def)
qed

lemma picker_out_hex:
  "admin_event_ok (PickerInput c a e) \<Longrightarrow> snd (picker_step color e iv) = Some nc \<Longrightarrow> is_hex_color nc"
  by (cases e) (auto split: if_splits)

lemma render_settings [simp]: "page_settings (admin_render p) = page_settings p"
  by (simp add: admin_render_def)

lemma wf_update:
  "settings_wf s \<Longrightarrow> is_hex_color col \<Longrightarrow> settings_wf (updateCategoryColor c a col th s)"
  using update_colors [of c a col th s]
  by (auto simp: settings_wf_def updateCategoryColor_def Let_def)

lemma handle_wf:
  assumes "settings_wf (page_settings p)" "admin_event_ok e"
  shows "settings_wf (page_settings (admin_handle e p))"
proof (cases e)
  case ClickReset
  then show ?thesis by (simp add: defaults_wf)
next
  case (PickerInput c a pe)
  show ?thesis
  proof (cases "\<exists>color iv. picker_color p c a = Some color \<and> hex_inputs p (c, a) = Some iv")
    case True
    then obtain color iv where ci: "picker_color p c a = Some color" "hex_inputs p (c, a) = Some iv" by blast
    obtain iv' out where ps: "picker_step color pe iv = (iv', out)" by fastforce
    have "settings_wf (case out of None \<Rightarrow> page_settings p
            | Some nc \<Rightarrow> apply_op (UpdateCategoryColor c a nc (Some (colorEditMode p))) (page_settings p))"
    proof (cases out)
      case (Some nc)
      with ps assms(2) PickerInput have "is_hex_color nc" using picker_out_hex [of c a pe color iv nc] by simp
      with Some assms(1) show ?thesis by (simp add: wf_update)
    qed (simp add: assms(1))
    with PickerInput ci ps show ?thesis by simp
  next
    case False
    with PickerInput assms(1) show ?thesis by (auto split: option.splits)
  qed
qed (use assms in \<open>simp_all add: settings_wf_def\<close>)

text \<open>
  C40: the settings stay well-typed under the admin page: from the defaults, whatever the
  admin does with the toggles, the slider, the theme switch and the colour pickers, every
  colour of both themes is a \<open>#rrggbb\<close> string and the auto-play speed is one of the
  slider's values (1000 to 10000 ms in steps of 500).
\<close>

theorem admin_settings_wf:
  assumes "admin_reach p"
  shows "settings_wf (page_settings p)"
  using assms
proof (induction rule: admin_reach.induct)
  case init
  then show ?case by (simp add: admin_init_def defaults_wf)
next
  case (step p e)
  then show ?case by (simp add: admin_step_def handle_wf)
qed

theorem admin_settings_wf_witness:
  "settings_wf (page_settings (admin_step (PickerInput ''learning_style'' ''visual'' (HexInput ''#00ff00''))
     (admin_step (SlideSpeed 1500) (admin_init defaultSettings))))"
  by (rule admin_settings_wf) (intro admin_reach.intros, simp_all add: slider_values_def image_iff)

text \<open>
  The pickers keep their text-field state across a change of the edited theme: after the
  admin switches the editor to the dark theme, the text field of the visual
  learning-style answer still shows the light colour \<open>#FF6B6B\<close> while its swatch
  shows the dark colour \<open>#FF8A8A\<close>.
\<close>

theorem picker_text_stale:
  "hex_inputs (admin_step (SetColorEditMode Dark) (admin_init defaultSettings)) (''learning_style'', ''visual'') = Some ''#FF6B6B'' \<and>
   picker_color (admin_step (SetColorEditMode Dark) (admin_init defaultSettings)) ''learning_style'' ''visual'' = Some ''#FF8A8A''"
  by (simp add: admin_step_def admin_render_def admin_init_def picker_color_def colors_of_def color_at_def
      defaultSettings_def defaultLightColors_def defaultDarkColors_def palette_def)

end
