(* ===== verification/Login.thy ===== *)
theory Login
  imports Prelude
begin

text \<open>
  The login page \<open>app/login/page.tsx\<close>: the form state, the login handler and the
  password-reset handler. Each handler awaits a Supabase call; the call's start and
  its completion are separate events, and the completion's outcome (an error message,
  success, or a thrown exception) is the event's input. The browser's \<open>required\<close>
  check blocks a submit with an empty field, and a disabled button cannot submit.
  Navigation (\<open>router.push\<close>) is recorded as the route pushed. The \<open>type="email"\<close>
  format check of the browser is not modelled.
\<close>

record login_state =
  email :: string
  password :: string
  login_error :: string
  resetSent :: bool
  showReset :: bool
  login_loading :: bool
  login_pending :: nat
  reset_pending :: nat
  pushed :: "string list"

datatype auth_outcome = AuthOk | AuthError string | AuthThrows

datatype login_event =
    TypeEmail string
  | TypePassword string
  | SubmitLogin
  | LoginReturns auth_outcome
  | SubmitReset
  | ResetReturns auth_outcome
  | ClickForgot
  | ClickBack

definition login_init :: login_state where
  "login_init = \<lparr>email = [], password = [], login_error = [], resetSent = False, showReset = False,
                 login_loading = False, login_pending = 0, reset_pending = 0, pushed = []\<rparr>"

text \<open>\<open>handleLogin\<close> up to its \<open>await\<close>, and after it (with the \<open>finally\<close>).\<close>

definition login_start :: "login_state \<Rightarrow> login_state" where
  "login_start s = s\<lparr>login_loading := True, login_error := [], login_pending := Suc (login_pending s)\<rparr>"

definition login_finish :: "auth_outcome \<Rightarrow> login_state \<Rightarrow> login_state" where
  "login_finish r s =
     (let s1 = (case r of
                  AuthError m \<Rightarrow> s\<lparr>login_error := m\<rparr>
                | AuthOk \<Rightarrow> s\<lparr>pushed := pushed s @ [''/admin'']\<rparr>
                | AuthThrows \<Rightarrow> s\<lparr>login_error := ''An unexpected error occurred''\<rparr>)
      in s1\<lparr>login_loading := False, login_pending := login_pending s - 1\<rparr>)"

text \<open>\<open>handleReset\<close> up to its \<open>await\<close>, and after it.\<close>

definition reset_start :: "login_state \<Rightarrow> login_state" where
  "reset_start s = s\<lparr>login_error := [], resetSent := False, reset_pending := Suc (reset_pending s)\<rparr>"

definition reset_finish :: "auth_outcome \<Rightarrow> login_state \<Rightarrow> login_state" where
  "reset_finish r s =
     (let s1 = (case r of
                  AuthError m \<Rightarrow> s\<lparr>login_error := m\<rparr>
                | AuthOk \<Rightarrow> s\<lparr>resetSent := True\<rparr>
                | AuthThrows \<Rightarrow> s\<lparr>login_error := ''An unexpected error occurred''\<rparr>)
      in s1\<lparr>reset_pending := reset_pending s - 1\<rparr>)"

text \<open>
  One event. A submit goes to the form that is shown, only when its button is enabled
  and its required fields are filled; a completion only when a call is outstanding.
\<close>

fun login_step :: "login_event \<Rightarrow> login_state \<Rightarrow> login_state" where
  "login_step (TypeEmail v) s = s\<lparr>email := v\<rparr>"
| "login_step (TypePassword v) s = (if showReset s then s else s\<lparr>password := v\<rparr>)"
| "login_step SubmitLogin s =
     (if \<not> showReset s \<and> \<not> login_loading s \<and> email s \<noteq> [] \<and> password s \<noteq> [] then login_start s else s)"
| "login_step (LoginReturns r) s = (if 0 < login_pending s then login_finish r s else s)"
| "login_step SubmitReset s =
     (if showReset s \<and> \<not> login_loading s \<and> email s \<noteq> [] then reset_start s else s)"
| "login_step (ResetReturns r) s = (if 0 < reset_pending s then reset_finish r s else s)"
| "login_step ClickForgot s = (if showReset s then s else s\<lparr>showReset := True\<rparr>)"
| "login_step ClickBack s = (if showReset s then s\<lparr>showReset := False\<rparr> else s)"

inductive login_reach :: "login_state \<Rightarrow> bool" where
  init: "login_reach login_init"
| step: "login_reach s \<Longrightarrow> login_reach (login_step e s)"

definition login_run :: "login_event list \<Rightarrow> login_state \<Rightarrow> login_state" where
  "login_run es s = fold login_step es s"

subsection \<open>Properties of the login page\<close>

definition login_inv :: "login_state \<Rightarrow> bool" where
  "login_inv s \<longleftrightarrow> login_pending s \<le> 1 \<and> (login_loading s \<longleftrightarrow> login_pending s = 1)"

lemma login_step_inv: "login_inv s \<Longrightarrow> login_inv (login_step e s)"
  by (cases e) (auto simp: login_inv_def login_start_def login_finish_def reset_start_def reset_finish_def
      Let_def split: auth_outcome.splits)

lemma login_reach_inv: "login_reach s \<Longrightarrow> login_inv s"
proof (induction rule: login_reach.induct)
  case init
  show ?case by (simp add: login_init_def login_inv_def)
next
  case (step s e)
  from step.IH show ?case by (rule login_step_inv)
qed

lemma reset_message_with_login_error:
  "let s = login_run [TypeEmail ''a@b.c'', ClickForgot, SubmitReset, ResetReturns AuthOk, ClickBack,
                      TypePassword ''x'', SubmitLogin, LoginReturns (AuthError ''Invalid login credentials''),
                      ClickForgot] login_init
   in showReset s \<and> resetSent s \<and> login_error s = ''Invalid login credentials''"
  by (simp add: login_run_def login_init_def login_start_def login_finish_def reset_start_def reset_finish_def)

end
