(* ===== verification/Highlight.thy ===== *)
theory Highlight
  imports Sankey Sequencer
begin

text \<open>
  The highlighting effect of \<open>AlluvialDiagram.tsx\<close>: the opacity and stroke of every
  node and link, recomputed from the sequencer's state (\<open>animationPhase\<close>,
  \<open>hoveredSourceIndex\<close>, \<open>hoveredTargetIndex\<close>, \<open>currentSource\<close>). The source
  order \<open>sortedSources\<close> is read off the d3-sankey layout (top to bottom), which is
  not modelled; it is a parameter \<open>order\<close>. The target order is
  \<open>sortedTargetsForHighlight\<close>, the sorted targets of the Sankey builder. The
  drawn links are given by their (source name, target name) pairs, as the effect reads
  them from the links' data.
\<close>

text \<open>\<open>sortedSources[hoveredSourceIndex]\<close>, \<open>undefined\<close> out of range.\<close>

definition hovered_name :: "string list \<Rightarrow> int option \<Rightarrow> string option" where
  "hovered_name order idx = (case idx of None \<Rightarrow> None | Some i \<Rightarrow> js_at order i)"

definition node_opacity ::
  "string list \<Rightarrow> string list \<Rightarrow> (string \<times> string) list \<Rightarrow> seq_state \<Rightarrow> sankey_node \<Rightarrow> real" where
  "node_opacity order tgts drawn s d =
     (let hl = (animationPhase s = Highlighting)
      in if node_category d = field_key (currentSource s) then
           (if hoveredSourceIndex s \<noteq> None \<and> hl
            then (if hovered_name order (hoveredSourceIndex s) = Some (node_name d) then 1 else 0.15)
            else 0.6)
         else if hoveredSourceIndex s \<noteq> None \<and> hl then
           (if (\<exists>l \<in> set drawn. Some (fst l) = hovered_name order (hoveredSourceIndex s) \<and> snd l = node_name d)
            then 1 else 0.15)
         else if hoveredTargetIndex s \<noteq> None \<and> hl then
           (if hovered_name tgts (hoveredTargetIndex s) = Some (node_name d) then 1 else 0.15)
         else 0.6)"

definition node_stroke :: "string list \<Rightarrow> seq_state \<Rightarrow> sankey_node \<Rightarrow> nat" where
  "node_stroke order s d =
     (if node_category d = field_key (currentSource s) \<and> hoveredSourceIndex s \<noteq> None \<and> animationPhase s = Highlighting
      then (if hovered_name order (hoveredSourceIndex s) = Some (node_name d) then 3 else 1)
      else 1)"

definition link_opacity ::
  "bool \<Rightarrow> string list \<Rightarrow> string list \<Rightarrow> seq_state \<Rightarrow> string \<times> string \<Rightarrow> real" where
  "link_opacity dk order tgts s l =
     (let base = (if dk then 0.85 else 0.4); high = (if dk then 1 else 0.95); dim = (if dk then 0.35 else 0.05)
      in if animationPhase s \<noteq> Highlighting then base
         else if hoveredSourceIndex s \<noteq> None then
           (if hovered_name order (hoveredSourceIndex s) = Some (fst l) then high else dim)
         else if hoveredTargetIndex s \<noteq> None then
           (if hovered_name tgts (hoveredTargetIndex s) = Some (snd l) then high else dim)
         else base)"

definition link_stroke_width :: "string list \<Rightarrow> seq_state \<Rightarrow> string \<times> string \<Rightarrow> real \<Rightarrow> real" where
  "link_stroke_width order s l w =
     (if animationPhase s = Highlighting \<and> hoveredSourceIndex s \<noteq> None
      then (if hovered_name order (hoveredSourceIndex s) = Some (fst l) then max 2 (w * 1.2) else max 1 w)
      else max 1 w)"

text \<open>
  The opacities the render effect itself gives when it redraws the diagram (on a
  change of data, fields or settings); the highlighting effect above only overwrites
  them when its own dependencies change. The constants differ from the highlighting
  effect's.
\<close>

definition render_node_opacity ::
  "string list \<Rightarrow> string list \<Rightarrow> (string \<times> string) list \<Rightarrow> seq_state \<Rightarrow> sankey_node \<Rightarrow> real" where
  "render_node_opacity order tgts drawn s d =
     (let hl = (animationPhase s = Highlighting)
      in if node_category d = field_key (currentSource s) then
           (if hoveredSourceIndex s \<noteq> None \<and> hl
            then (if hovered_name order (hoveredSourceIndex s) = Some (node_name d) then 1 else 0.2)
            else 0.6)
         else if hoveredSourceIndex s \<noteq> None \<and> hl then
           (if (\<exists>l \<in> set drawn. Some (fst l) = hovered_name order (hoveredSourceIndex s) \<and> snd l = node_name d)
            then 1 else 0.2)
         else if hoveredTargetIndex s \<noteq> None \<and> hl then
           (if hovered_name tgts (hoveredTargetIndex s) = Some (node_name d) then 1 else 0.2)
         else 0.6)"

definition render_link_opacity ::
  "bool \<Rightarrow> string list \<Rightarrow> string list \<Rightarrow> seq_state \<Rightarrow> string \<times> string \<Rightarrow> real" where
  "render_link_opacity dk order tgts s l =
     (let base = (if dk then 0.85 else 0.4); high = (if dk then 1 else 0.9); dim = (if dk then 0.4 else 0.1)
      in if animationPhase s \<noteq> Highlighting then base
         else if hoveredSourceIndex s \<noteq> None then
           (if hovered_name order (hoveredSourceIndex s) = Some (fst l) then high else dim)
         else if hoveredTargetIndex s \<noteq> None then
           (if hovered_name tgts (hoveredTargetIndex s) = Some (snd l) then high else dim)
         else base)"

text \<open>
  When the render effect draws new links it first sets the opacity above, then sets it
  again, in either branch of \<open>isCategoryChange\<close>, with a second formulation of the
  same choice; on a category change it first plays a drawing animation (dash offset
  and opacity from 0).
\<close>

definition isCategoryChange :: "seq_state \<Rightarrow> bool" where
  "isCategoryChange s = (lastCategoryChange s \<noteq> (currentSource s, currentTarget s))"

definition transition_link_opacity ::
  "bool \<Rightarrow> string list \<Rightarrow> string list \<Rightarrow> seq_state \<Rightarrow> string \<times> string \<Rightarrow> real" where
  "transition_link_opacity dk order tgts s l =
     (let base = (if dk then 0.85 else 0.4); high = (if dk then 1 else 0.9); dim = (if dk then 0.4 else 0.1)
      in if hoveredSourceIndex s \<noteq> None \<and> animationPhase s = Highlighting then
           (if hovered_name order (hoveredSourceIndex s) = Some (fst l) then high else dim)
         else if hoveredTargetIndex s \<noteq> None \<and> animationPhase s = Highlighting then
           (if hovered_name tgts (hoveredTargetIndex s) = Some (snd l) then high else dim)
         else base)"

text \<open>A new link: whether its drawing animation plays, and the opacity it ends with.\<close>

definition link_entry ::
  "bool \<Rightarrow> string list \<Rightarrow> string list \<Rightarrow> seq_state \<Rightarrow> string \<times> string \<Rightarrow> bool \<times> real" where
  "link_entry dk order tgts s l = (isCategoryChange s, transition_link_opacity dk order tgts s l)"

definition render_link_width :: "bool \<Rightarrow> real \<Rightarrow> real" where
  "render_link_width dk w = max (if dk then 2 else 1) w"

subsection \<open>Properties of the highlighting\<close>

lemma hovered_name_nth:
  "i < length order \<Longrightarrow> hovered_name order (Some (int i)) = Some (order ! i)"
  by (simp add: hovered_name_def js_at_def)

text \<open>
  While the sequencer highlights the i-th source of a distinct source order, exactly one
  source node is bright: the one of that name; the others are dimmed.
\<close>

lemma one_source_bright:
  assumes "animationPhase s = Highlighting" "hoveredSourceIndex s = Some (int i)" "i < length order"
    and "node_category d = field_key (currentSource s)"
  shows "node_opacity order tgts drawn s d = (if node_name d = order ! i then 1 else 0.15)"
  using assms by (auto simp: node_opacity_def hovered_name_nth)

text \<open>The links leaving the highlighted source are the bright ones.\<close>

lemma source_links_bright:
  assumes "animationPhase s = Highlighting" "hoveredSourceIndex s = Some (int i)" "i < length order"
  shows "link_opacity dk order tgts s l = (if fst l = order ! i then (if dk then 1 else 0.95) else (if dk then 0.35 else 0.05))"
  using assms by (auto simp: link_opacity_def hovered_name_nth)

text \<open>
  A target node is bright exactly when a drawn link joins it to the highlighted source:
  the bright links and the bright nodes agree.
\<close>

lemma bright_targets_linked:
  assumes "animationPhase s = Highlighting" "hoveredSourceIndex s = Some (int i)" "i < length order"
    and "node_category d \<noteq> field_key (currentSource s)"
  shows "node_opacity order tgts drawn s d = 1 \<longleftrightarrow> (order ! i, node_name d) \<in> set drawn"
  using assms by (auto simp: node_opacity_def hovered_name_nth)

text \<open>
  Composed with the sequencer: each \<open>animate\<close> tick of a running, unpaused cycle
  brightens exactly the source node at the cycle's current index in the layout order.
\<close>

lemma animate_highlights:
  assumes "running s" "\<not> isPaused s" "0 < cl_data_len c" "currentSourceIndex s < length order"
    and "node_category d = field_key (currentSource s)"
  shows "node_opacity order tgts drawn (animate c s) d = (if node_name d = order ! currentSourceIndex s then 1 else 0.15)"
proof -
  have "animationPhase (animate c s) = Highlighting \<and>
        hoveredSourceIndex (animate c s) = Some (int (currentSourceIndex s)) \<and>
        currentSource (animate c s) = currentSource s"
    using assms(1-3) by (simp add: animate_def set_timeout_def Let_def)
  with assms(4,5) show ?thesis by (simp add: one_source_bright)
qed

text \<open>
  The two effects disagree: while a source is highlighted, a dimmed source node is drawn
  at 0.2 by the render effect and at 0.15 by the highlighting effect, and a bright link
  in the light theme at 0.9 and at 0.95; which one shows depends on which effect ran
  last.
\<close>

lemma render_and_highlight_differ:
  assumes "animationPhase s = Highlighting" "hoveredSourceIndex s = Some (int i)" "i < length order"
    and "node_category d = field_key (currentSource s)" "node_name d \<noteq> order ! i"
  shows "render_node_opacity order tgts drawn s d = 0.2 \<and> node_opacity order tgts drawn s d = 0.15 \<and>
         render_link_opacity False order tgts s (order ! i, t) = 0.9 \<and>
         link_opacity False order tgts s (order ! i, t) = 0.95"
  using assms by (auto simp: render_node_opacity_def node_opacity_def render_link_opacity_def
      link_opacity_def hovered_name_nth)

text \<open>The two formulations of a new link's opacity agree.\<close>

lemma transition_link_opacity_eq: "transition_link_opacity = render_link_opacity"
  by (simp add: fun_eq_iff transition_link_opacity_def render_link_opacity_def Let_def)

text \<open>
  C8: the drawing animation of new links never plays. In every state the sequencer can
  reach, \<open>isCategoryChange\<close> is false: every handler that changes the field pair sets
  \<open>lastCategoryChange\<close> in the same batch, so when the render effect runs the pair it
  records is the current one. A new link therefore enters without the stroke-dash
  animation and at the opacity of the render effect.
\<close>

theorem no_drawing_animation:
  assumes "seq_reach env s"
  shows "link_entry dk order tgts s l = (False, render_link_opacity dk order tgts s l)"
  using seq_reach_inv [OF assms]
  by (simp add: link_entry_def isCategoryChange_def seq_inv_def transition_link_opacity_eq)

theorem no_drawing_animation_witness:
  "link_entry False [''visual''] [''0-5''] (mount demo_env True 0) (''visual'', ''0-5'') =
   (False, render_link_opacity False [''visual''] [''0-5''] (mount demo_env True 0) (''visual'', ''0-5''))"
  by (rule no_drawing_animation [OF seq_reach.mounted])

lemma render_link_width_min: "(if dk then 2 else 1) \<le> render_link_width dk w \<and> w \<le> render_link_width dk w"
  by (simp add: render_link_width_def)

end
