(* ===== verification/Handlers.thy ===== *)
theory Handlers
  imports Sequencer
begin

text \<open>
  Which handlers the Sankey's node rectangles carry. Two effects of
  \<open>AlluvialDiagram.tsx\<close> attach \<open>mouseenter\<close>/\<open>mouseleave\<close> handlers to the
  rectangles: the render effect, which redraws the whole SVG and attaches handlers that
  only set the hovered index and the phase, and the later hover effect, which replaces
  them with handlers that pause and resume the cycle. Each effect runs after a commit in
  which one of its dependencies changed, in source order, so the rectangles carry the
  handlers of the last one that ran. The render effect depends on the settings (through
  \<open>getCurrentThemeColors\<close>, a new function on every provider update), the hover
  effect does not; a settings change is counted by a version number.
\<close>

datatype handler_set = RenderHandlers | HoverHandlers

record view_state =
  vseq :: seq_state
  rect_handlers :: handler_set
  render_deps :: "(field \<times> field \<times> (field \<times> field) \<times> nat) option"
  hover_deps :: "(field \<times> field) option"
  settings_version :: nat

definition render_deps_of :: "view_state \<Rightarrow> field \<times> field \<times> (field \<times> field) \<times> nat" where
  "render_deps_of v =
     (currentSource (vseq v), currentTarget (vseq v), lastCategoryChange (vseq v), settings_version v)"

definition hover_deps_of :: "view_state \<Rightarrow> field \<times> field" where
  "hover_deps_of v = (currentSource (vseq v), currentTarget (vseq v))"

text \<open>
  The two effects after a commit. The render effect returns before drawing without data
  or SVG; the hover effect without SVG. A run records its dependencies.
\<close>

definition view_effects :: "seq_env \<Rightarrow> view_state \<Rightarrow> view_state" where
  "view_effects env v =
     (let v1 = (if render_deps v = Some (render_deps_of v) then v
                else v\<lparr>render_deps := Some (render_deps_of v),
                       rect_handlers := (if 0 < data_len env \<and> svg_ready env then RenderHandlers
                                         else rect_handlers v)\<rparr>)
      in if hover_deps v1 = Some (hover_deps_of v1) then v1
         else v1\<lparr>hover_deps := Some (hover_deps_of v1),
                 rect_handlers := (if svg_ready env then HoverHandlers else rect_handlers v1)\<rparr>)"

text \<open>The render effect's node handlers: set the hovered side and the phase only.\<close>

definition render_node_enter :: "int option \<Rightarrow> int option \<Rightarrow> seq_state \<Rightarrow> seq_state" where
  "render_node_enter si ti s =
     s\<lparr>hoveredSourceIndex := (case si of None \<Rightarrow> hoveredSourceIndex s | Some i \<Rightarrow> Some i),
       hoveredTargetIndex := (case ti of None \<Rightarrow> hoveredTargetIndex s | Some i \<Rightarrow> Some i),
       animationPhase := (if si = None \<and> ti = None then animationPhase s else Highlighting)\<rparr>"

definition render_node_leave :: "bool \<Rightarrow> bool \<Rightarrow> seq_state \<Rightarrow> seq_state" where
  "render_node_leave is_src is_tgt s =
     (let s1 = (if is_src then s\<lparr>hoveredSourceIndex := None, animationPhase := Full\<rparr> else s)
      in if is_tgt then s1\<lparr>hoveredTargetIndex := None, animationPhase := Full\<rparr> else s1)"

datatype view_event =
    SeqEvent event
  | SettingsChange
  | NodeEnter timestamp "int option" "int option"
  | NodeLeave bool bool

text \<open>
  One event on the mounted view: a sequencer event, a settings update (a re-render
  with unchanged sequencer state), or a pointer event on a node, handled by the
  handlers the node carries; then the effects.
\<close>

fun view_handle :: "seq_env \<Rightarrow> view_event \<Rightarrow> view_state \<Rightarrow> view_state" where
  "view_handle env (SeqEvent e) v = v\<lparr>vseq := step env (vseq v) e\<rparr>"
| "view_handle env SettingsChange v =
     v\<lparr>settings_version := Suc (settings_version v),
       vseq := (if mounted (vseq v) then commit env (vseq v) else vseq v)\<rparr>"
| "view_handle env (NodeEnter now si ti) v =
     (if \<not> mounted (vseq v) then v else
     v\<lparr>vseq := (case rect_handlers v of
                  HoverHandlers \<Rightarrow> step env (vseq v) (Enter now si ti)
                | RenderHandlers \<Rightarrow> commit env (render_node_enter si ti (vseq v)))\<rparr>)"
| "view_handle env (NodeLeave is_src is_tgt) v =
     (if \<not> mounted (vseq v) then v else
     v\<lparr>vseq := (case rect_handlers v of
                  HoverHandlers \<Rightarrow> step env (vseq v) Leave
                | RenderHandlers \<Rightarrow> commit env (render_node_leave is_src is_tgt (vseq v)))\<rparr>)"

definition view_step :: "seq_env \<Rightarrow> view_event \<Rightarrow> view_state \<Rightarrow> view_state" where
  "view_step env e v = view_effects env (view_handle env e v)"

definition view_mount :: "seq_env \<Rightarrow> view_state" where
  "view_mount env =
     view_effects env \<lparr>vseq = mount env True 0, rect_handlers = RenderHandlers, render_deps = None,
                       hover_deps = None, settings_version = 0\<rparr>"

inductive view_reach :: "seq_env \<Rightarrow> view_state \<Rightarrow> bool" for env where
  mounted: "view_reach env (view_mount env)"
| step: "view_reach env v \<Longrightarrow> view_reach env (view_step env e v)"

definition view_run :: "seq_env \<Rightarrow> view_event list \<Rightarrow> view_state \<Rightarrow> view_state" where
  "view_run env es v = fold (view_step env) es v"

subsection \<open>Properties of the handler composition\<close>


lemma animate_fields: "currentSource (animate c s) = currentSource s \<and> currentTarget (animate c s) = currentTarget s"
  by (simp add: animate_def set_timeout_def Let_def)

lemma commit_fields:
  "currentSource (commit env s) = currentSource s \<and> currentTarget (commit env s) = currentTarget s"
  by (simp add: commit_def Let_def effect_body_def effect_cleanup_run_def clear_timer_def animate_fields
      split: option.splits)

lemma view_effects_settled:
  "render_deps (view_effects env v) = Some (render_deps_of (view_effects env v)) \<and>
   hover_deps (view_effects env v) = Some (hover_deps_of (view_effects env v))"
  by (simp add: view_effects_def Let_def render_deps_of_def hover_deps_of_def)

lemma settings_change_drops_hover_handlers:
  assumes "render_deps v = Some (render_deps_of v)" "hover_deps v = Some (hover_deps_of v)"
    and "0 < data_len env" "svg_ready env"
  shows "rect_handlers (view_step env SettingsChange v) = RenderHandlers"
proof -
  let ?v = "view_handle env SettingsChange v"
  have "render_deps ?v \<noteq> Some (render_deps_of ?v)"
    using assms(1) by (simp add: render_deps_of_def)
  moreover have "hover_deps ?v = Some (hover_deps_of ?v)"
    using assms(2) by (simp add: hover_deps_of_def commit_fields)
  ultimately show ?thesis using assms(3,4)
    by (simp add: view_step_def view_effects_def Let_def hover_deps_of_def render_deps_of_def)
qed


lemma render_enter_inv: "seq_inv env s \<Longrightarrow> seq_inv env (render_node_enter si ti s)"
  by (auto simp: seq_inv_def render_node_enter_def pending_ok_def effect_deps_of_def)

lemma render_leave_inv: "seq_inv env s \<Longrightarrow> seq_inv env (render_node_leave a b s)"
  by (auto simp: seq_inv_def render_node_leave_def pending_ok_def effect_deps_of_def Let_def)

lemma commit_render_enter:
  "seq_inv env s \<Longrightarrow> mounted s \<Longrightarrow> commit env (render_node_enter si ti s) = render_node_enter si ti s"
  by (rule commit_same) (simp_all add: seq_inv_def render_node_enter_def effect_deps_of_def)

lemma commit_render_leave:
  "seq_inv env s \<Longrightarrow> mounted s \<Longrightarrow> commit env (render_node_leave a b s) = render_node_leave a b s"
  by (rule commit_same) (simp_all add: seq_inv_def render_node_leave_def effect_deps_of_def Let_def)

lemma commit_same_inv: "seq_inv env s \<Longrightarrow> mounted s \<Longrightarrow> commit env s = s"
  by (rule commit_same) (simp_all add: seq_inv_def)

lemma view_handle_inv: "seq_inv env (vseq v) \<Longrightarrow> seq_inv env (vseq (view_handle env e v))"
  by (cases e) (auto simp: step_inv commit_same_inv commit_render_enter commit_render_leave render_enter_inv render_leave_inv
      split: handler_set.splits)

lemma view_reach_inv: "view_reach env v \<Longrightarrow> seq_inv env (vseq v)"
proof (induction rule: view_reach.induct)
  case mounted
  show ?case by (simp add: view_mount_def view_effects_def Let_def mount_inv)
next
  case (step v e)
  from step.IH have "seq_inv env (vseq (view_handle env e v))" by (rule view_handle_inv)
  then show ?case by (simp add: view_step_def view_effects_def Let_def)
qed

lemma view_effects_vseq [simp]: "vseq (view_effects env v) = vseq v"
  by (simp add: view_effects_def Let_def)

lemma view_reach_settled:
  assumes "view_reach env v"
  shows "render_deps v = Some (render_deps_of v) \<and> hover_deps v = Some (hover_deps_of v)"
  using assms by cases (simp_all only: view_mount_def view_step_def view_effects_settled)

lemma settings_change_vseq:
  assumes "view_reach env v" "mounted (vseq v)"
  shows "vseq (view_step env SettingsChange v) = vseq v"
  using commit_same_inv [OF view_reach_inv [OF assms(1)] assms(2)] assms(2) by (simp add: view_step_def)

text \<open>
  While a node carries the render effect's handlers, hovering it sets the highlight
  but leaves the timer, the running flag and the paused flag as they were.
\<close>

lemma render_handlers_skip_pause:
  assumes "view_reach env v" "mounted (vseq v)" "rect_handlers v = RenderHandlers"
  shows "timers (vseq (view_step env (NodeEnter now si ti) v)) = timers (vseq v) \<and>
         isPaused (vseq (view_step env (NodeEnter now si ti) v)) = isPaused (vseq v) \<and>
         running (vseq (view_step env (NodeEnter now si ti) v)) = running (vseq v)"
proof -
  have "seq_inv env (vseq v)" using assms(1) by (rule view_reach_inv)
  with assms(2,3) have "vseq (view_step env (NodeEnter now si ti) v) = render_node_enter si ti (vseq v)"
    by (simp add: view_step_def commit_render_enter)
  then show ?thesis by (simp add: render_node_enter_def)
qed

lemma demo_view_mount: "vseq (view_mount demo_env) = mount demo_env True 0"
  by (simp add: view_mount_def)

lemma demo_settings_change:
  "vseq (view_step demo_env SettingsChange (view_mount demo_env)) = mount demo_env True 0 \<and>
   rect_handlers (view_step demo_env SettingsChange (view_mount demo_env)) = RenderHandlers"
proof
  have m: "mounted (mount demo_env True 0)" using demo_mount by simp
  show "vseq (view_step demo_env SettingsChange (view_mount demo_env)) = mount demo_env True 0"
    using commit_same_inv [OF mount_inv m] by (simp add: view_step_def demo_view_mount m)
  show "rect_handlers (view_step demo_env SettingsChange (view_mount demo_env)) = RenderHandlers"
    using view_effects_settled [of demo_env] unfolding view_mount_def
    by (intro settings_change_drops_hover_handlers) (simp_all add: demo_env_def)
qed

lemma render_enter_view:
  assumes "seq_inv env (vseq v)" "mounted (vseq v)" "rect_handlers v = RenderHandlers"
    and "render_deps v = Some (render_deps_of v)" "hover_deps v = Some (hover_deps_of v)"
  shows "view_step env (NodeEnter now si ti) v = v\<lparr>vseq := render_node_enter si ti (vseq v)\<rparr>"
proof -
  let ?w = "v\<lparr>vseq := render_node_enter si ti (vseq v)\<rparr>"
  have h: "view_handle env (NodeEnter now si ti) v = ?w"
    using assms(1-3) by (simp add: commit_render_enter)
  have "render_deps ?w = Some (render_deps_of ?w)" "hover_deps ?w = Some (hover_deps_of ?w)"
    using assms(4,5) by (simp_all add: render_deps_of_def hover_deps_of_def render_node_enter_def)
  then have "view_effects env ?w = ?w" by (simp add: view_effects_def)
  with h show ?thesis by (simp add: view_step_def)
qed

text \<open>
  After a settings change the node handlers are the render effect's: hovering the first
  source node leaves the timer running, and when it fires the cycle moves the highlight
  to the second source while the pointer is still on the first.
\<close>

lemma hover_highlight_hijacked:
  "let v = view_run demo_env [SettingsChange, NodeEnter 7 (Some 0) None, SeqEvent (Fire 0)] (view_mount demo_env)
   in rect_handlers v = RenderHandlers \<and> running (vseq v) \<and> \<not> isPaused (vseq v) \<and>
      hoveredSourceIndex (vseq v) = Some 1 \<and> animationPhase (vseq v) = Highlighting"
proof -
  define v1 where "v1 = view_step demo_env SettingsChange (view_mount demo_env)"
  have m: "mounted (mount demo_env True 0)" using demo_mount by simp
  have s1: "vseq v1 = mount demo_env True 0" "rect_handlers v1 = RenderHandlers"
    using demo_settings_change by (simp_all add: v1_def)
  have d1: "render_deps v1 = Some (render_deps_of v1)" "hover_deps v1 = Some (hover_deps_of v1)"
    unfolding v1_def view_step_def by (simp_all only: view_effects_settled)
  define v2 where "v2 = v1\<lparr>vseq := render_node_enter (Some 0) None (vseq v1)\<rparr>"
  have e2: "view_step demo_env (NodeEnter 7 (Some 0) None) v1 = v2"
    unfolding v2_def by (rule render_enter_view) (use s1 d1 m mount_inv in simp_all)
  have "view_run demo_env [SettingsChange, NodeEnter 7 (Some 0) None, SeqEvent (Fire 0)] (view_mount demo_env) =
        view_step demo_env (SeqEvent (Fire 0)) v2"
    using e2 by (simp add: view_run_def v1_def)
  moreover have "vseq (view_step demo_env (SeqEvent (Fire 0)) v2) =
                 step demo_env (render_node_enter (Some 0) None (mount demo_env True 0)) (Fire 0)"
    using s1 by (simp add: view_step_def v2_def)
  moreover have "rect_handlers (view_step demo_env (SeqEvent (Fire 0)) v2) = RenderHandlers"
    using s1 d1 by (simp add: v2_def view_step_def view_effects_def Let_def render_deps_of_def hover_deps_of_def
        render_node_enter_def seq_eval demo_env_def)
  ultimately show ?thesis
    by (simp add: render_node_enter_def seq_eval demo_env_def)
qed

text \<open>
  C26: a settings change silently disables hover-to-pause. From any state of the mounted
  view with data and an SVG, a settings update re-runs the render effect (it depends on
  the theme colours) but not the hover effect (it does not), so the node rectangles end
  up with the render effect's handlers; hovering a node afterwards leaves the timer, the
  running flag and the paused flag of the cycle as they were, so the cycle keeps running
  under the pointer.
\<close>

theorem settings_change_hover_no_pause:
  assumes "view_reach env v" "mounted (vseq v)" "0 < data_len env" "svg_ready env"
  shows "rect_handlers (view_step env SettingsChange v) = RenderHandlers \<and>
         timers (vseq (view_step env (NodeEnter now si ti) (view_step env SettingsChange v))) =
           timers (vseq (view_step env SettingsChange v)) \<and>
         isPaused (vseq (view_step env (NodeEnter now si ti) (view_step env SettingsChange v))) =
           isPaused (vseq (view_step env SettingsChange v)) \<and>
         running (vseq (view_step env (NodeEnter now si ti) (view_step env SettingsChange v))) =
           running (vseq (view_step env SettingsChange v))"
proof -
  have h: "rect_handlers (view_step env SettingsChange v) = RenderHandlers"
    using view_reach_settled [OF assms(1)] assms(3,4) by (intro settings_change_drops_hover_handlers) simp_all
  have r: "view_reach env (view_step env SettingsChange v)" using assms(1) by (rule view_reach.step)
  have "mounted (vseq (view_step env SettingsChange v))"
    using settings_change_vseq [OF assms(1,2)] assms(2) by simp
  with h r show ?thesis using render_handlers_skip_pause by blast
qed

theorem settings_change_hover_no_pause_witness:
  "rect_handlers (view_step demo_env SettingsChange (view_mount demo_env)) = RenderHandlers \<and>
   timers (vseq (view_step demo_env (NodeEnter 7 (Some 0) None) (view_step demo_env SettingsChange (view_mount demo_env)))) =
     timers (vseq (view_step demo_env SettingsChange (view_mount demo_env))) \<and>
   isPaused (vseq (view_step demo_env (NodeEnter 7 (Some 0) None) (view_step demo_env SettingsChange (view_mount demo_env)))) =
     isPaused (vseq (view_step demo_env SettingsChange (view_mount demo_env))) \<and>
   running (vseq (view_step demo_env (NodeEnter 7 (Some 0) None) (view_step demo_env SettingsChange (view_mount demo_env)))) =
     running (vseq (view_step demo_env SettingsChange (view_mount demo_env)))"
proof (rule settings_change_hover_no_pause)
  show "view_reach demo_env (view_mount demo_env)" by (rule view_reach.mounted)
  show "mounted (vseq (view_mount demo_env))" using demo_mount by (simp add: demo_view_mount)
  show "0 < data_len demo_env" "svg_ready demo_env" by (simp_all add: demo_env_def)
qed

end
