(* ===== verification/ApiTester.thy ===== *)
theory ApiTester
  imports Prelude
begin

text \<open>
  The Supabase API tester page \<open>app/test-supabase/page.tsx\<close>: two buttons that each
  start a request (a \<open>select\<close> of five attendees, an \<open>insert\<close> of a test attendee)
  and, after the \<open>await\<close>, store the returned rows and the error message. The
  buttons are never disabled, so requests can overlap; a request's start and its
  completion are separate events. Returned rows are kept abstract (a type variable).
\<close>

record 'r tester_state =
  selectResult :: "'r option"
  insertResult :: "'r option"
  t_loading :: bool
  t_error :: "string option"
  pending_select :: nat
  pending_insert :: nat

text \<open>What a Supabase call resolves to: \<open>{ data, error }\<close>.\<close>

type_synonym 'r api_result = "'r option \<times> string option"

datatype 'r tester_event =
    ClickSelect
  | SelectReturns "'r api_result"
  | ClickInsert
  | InsertReturns "'r api_result"

definition tester_init :: "'r tester_state" where
  "tester_init = \<lparr>selectResult = None, insertResult = None, t_loading = False, t_error = None,
                  pending_select = 0, pending_insert = 0\<rparr>"

text \<open>\<open>handleSelect\<close> and \<open>handleInsert\<close>, each split at its \<open>await\<close>.\<close>

fun tester_step :: "'r tester_event \<Rightarrow> 'r tester_state \<Rightarrow> 'r tester_state" where
  "tester_step ClickSelect s = s\<lparr>t_loading := True, t_error := None, pending_select := Suc (pending_select s)\<rparr>"
| "tester_step (SelectReturns (d, e)) s =
     (if pending_select s = 0 then s
      else s\<lparr>selectResult := d, t_error := (case e of None \<Rightarrow> t_error s | Some m \<Rightarrow> Some m),
             t_loading := False, pending_select := pending_select s - 1\<rparr>)"
| "tester_step ClickInsert s = s\<lparr>t_loading := True, t_error := None, pending_insert := Suc (pending_insert s)\<rparr>"
| "tester_step (InsertReturns (d, e)) s =
     (if pending_insert s = 0 then s
      else s\<lparr>insertResult := d, t_error := (case e of None \<Rightarrow> t_error s | Some m \<Rightarrow> Some m),
             t_loading := False, pending_insert := pending_insert s - 1\<rparr>)"

definition tester_run :: "'r tester_event list \<Rightarrow> 'r tester_state \<Rightarrow> 'r tester_state" where
  "tester_run es s = fold tester_step es s"

subsection \<open>Properties of the tester\<close>

text \<open>While no request is outstanding the page never shows \<open>Loading...\<close>.\<close>

lemma tester_idle_not_loading:
  "t_loading s \<longrightarrow> 0 < pending_select s + pending_insert s \<Longrightarrow>
   t_loading (tester_step e s) \<longrightarrow> 0 < pending_select (tester_step e s) + pending_insert (tester_step e s)"
  by (cases e rule: tester_event.exhaust) (auto split: prod.splits if_splits)

text \<open>
  The converse fails: the flag is a boolean, so the first request to complete hides
  \<open>Loading...\<close> while the other is still outstanding; and a failed select followed by
  a successful insert clears the select's error although its result is still missing.
\<close>

lemma tester_loading_lost:
  "let s = tester_run [ClickSelect, ClickInsert, SelectReturns (Some r, None)] tester_init
   in \<not> t_loading s \<and> pending_insert s = 1"
  by (simp add: tester_run_def tester_init_def)

lemma tester_error_hidden:
  "let s = tester_run [ClickSelect, SelectReturns (None, Some ''permission denied''), ClickInsert,
                       InsertReturns (Some r, None)] tester_init
   in t_error s = None \<and> selectResult s = None"
  by (simp add: tester_run_def tester_init_def)

end
