(* ===== verification/ChordInsights.thy ===== *)
theory ChordInsights
  imports Chord
begin

text \<open>
  The insights panel the chord render effect fills: the number of responses, the field
  pair, the strongest ribbon (the first of maximal weight, by the \<open>reduce\<close> of the
  code) and the total weight of the ribbons.
\<close>

record chord_insights =
  total_responses :: nat
  current_view :: "field \<times> field"
  strongest :: "(string \<times> string \<times> nat) option"
  total_connections :: nat

text \<open>\<open>connections.reduce((max, d) => d.value > max.value ? d : max, connections[0])\<close>.\<close>

definition strongestConnection :: "connection list \<Rightarrow> connection option" where
  "strongestConnection cs =
     (case cs of [] \<Rightarrow> None
      | c # _ \<Rightarrow> Some (fold (\<lambda>d m. if conn_value m < conn_value d then d else m) cs c))"

text \<open>\<open>name || 'Unknown'\<close>: the empty string is falsy.\<close>

definition name_or_unknown :: "string \<Rightarrow> string" where
  "name_or_unknown s = (if s = [] then ''Unknown'' else s)"

definition chord_insights_of :: "survey_response list \<Rightarrow> field \<Rightarrow> field \<Rightarrow> connection list \<Rightarrow> chord_insights" where
  "chord_insights_of fd src tgt cs =
     \<lparr>total_responses = length fd, current_view = (src, tgt),
      strongest = map_option (\<lambda>c. (name_or_unknown (arc_name (left_arc c)),
                                     name_or_unknown (arc_name (right_arc c)), conn_value c))
                    (strongestConnection cs),
      total_connections = sum_list (map conn_value cs)\<rparr>"

text \<open>The insights of a render that drew its ribbons.\<close>

definition chord_render_insights ::
  "bool \<Rightarrow> theme_aware_colors \<Rightarrow> bool \<Rightarrow> field \<Rightarrow> field \<Rightarrow> survey_response list \<Rightarrow> chord_insights option" where
  "chord_render_insights useTest colors dk src tgt data =
     (case chord_render useTest colors dk src tgt data of
        Some (Inr v) \<Rightarrow> Some (chord_insights_of (chord_filtered_data useTest data) src tgt (connections v))
      | _ \<Rightarrow> None)"


subsection \<open>Properties of the insights\<close>

lemma conn_at_weight:
  "conn_at M L R (i, j) = Inr cs \<Longrightarrow> sum_list (map conn_value cs) = M ! i ! j"
  by (auto simp: conn_at_def Let_def split: if_splits option.splits)

lemma collect_conns_weight:
  assumes "\<And>ij cs. ij \<in> set ijs \<Longrightarrow> g ij = Inr cs \<Longrightarrow> sum_list (map conn_value cs) = w ij"
  shows "collect_conns g ijs = Inr cs \<Longrightarrow> sum_list (map conn_value cs) = sum_list (map w ijs)"
  using assms
proof (induction ijs arbitrary: cs)
  case Nil
  then show ?case by simp
next
  case (Cons ij ijs)
  then obtain a b where "g ij = Inr a" "collect_conns g ijs = Inr b" "cs = a @ b"
    by (auto split: sum.splits)
  with Cons show ?case by simp
qed


lemma fold_max_conn:
  "fold (\<lambda>d m. if conn_value m < conn_value d then d else m) cs c \<in> insert c (set cs) \<and>
   (\<forall>d \<in> insert c (set cs). conn_value d \<le> conn_value (fold (\<lambda>d m. if conn_value m < conn_value d then d else m) cs c))"
proof (induction cs arbitrary: c)
  case Nil
  then show ?case by simp
next
  case (Cons x cs)
  let ?c' = "if conn_value c < conn_value x then x else c"
  have "conn_value c \<le> conn_value ?c'" "conn_value x \<le> conn_value ?c'" by auto
  with Cons.IH [of ?c'] show ?case by (auto split: if_splits)
qed

lemma strongest_is_max:
  "strongestConnection cs = Some c \<Longrightarrow> c \<in> set cs \<and> (\<forall>d \<in> set cs. conn_value d \<le> conn_value c)"
  using fold_max_conn [of "tl cs" "hd cs"]
  by (cases cs) (auto simp: strongestConnection_def)


lemma sum_list_product:
  "sum_list (map (\<lambda>(i, j). f i j) (List.product xs ys)) = (\<Sum>i\<leftarrow>xs. \<Sum>j\<leftarrow>ys. f i j)"
  by (induction xs) (simp_all add: comp_def)

lemma sum_product_rows:
  assumes "\<forall>row \<in> set M. length row = n"
  shows "sum_list (map (\<lambda>(i, j). M ! i ! j) (List.product [0..<length M] [0..<n])) = sum_list (map sum_list M)"
proof -
  have "sum_list (map (\<lambda>(i, j). M ! i ! j) (List.product [0..<length M] [0..<n])) =
        (\<Sum>i\<leftarrow>[0..<length M]. \<Sum>j\<leftarrow>[0..<n]. M ! i ! j)"
    by (rule sum_list_product)
  also have "\<dots> = (\<Sum>i\<leftarrow>[0..<length M]. sum_list (M ! i))"
  proof (rule arg_cong [where f = sum_list], rule map_cong [OF refl])
    fix i assume "i \<in> set [0..<length M]"
    then have "length (M ! i) = n" using assms by simp
    then have "map (\<lambda>j. M ! i ! j) [0..<n] = M ! i"
      by (intro nth_equalityI) simp_all
    then show "(\<Sum>j\<leftarrow>[0..<n]. M ! i ! j) = sum_list (M ! i)"
      by simp
  qed
  also have "\<dots> = sum_list (map sum_list M)"
    by (rule arg_cong [where f = sum_list], intro nth_equalityI) simp_all
  finally show ?thesis .
qed


lemma connection_matrix_shape:
  "length (connectionMatrix src tgt fd) = length (category_array src fd) \<and>
   (\<forall>row \<in> set (connectionMatrix src tgt fd). length row = length (category_array tgt fd))"
  by (simp add: connectionMatrix_def)

lemma chord_connections_weight:
  assumes "chord_connections (connectionMatrix src tgt fd) L R
             (length (category_array src fd)) (length (category_array tgt fd)) = Inr cs"
  shows "sum_list (map conn_value cs) = sum_list (map sum_list (connectionMatrix src tgt fd))"
proof -
  let ?M = "connectionMatrix src tgt fd"
  have "sum_list (map conn_value cs) =
        sum_list (map (\<lambda>(i, j). ?M ! i ! j)
          (List.product [0..<length (category_array src fd)] [0..<length (category_array tgt fd)]))"
    by (rule collect_conns_weight [OF _ assms [unfolded chord_connections_def]])
       (auto simp: conn_at_weight split: prod.splits)
  also have "\<dots> = sum_list (map sum_list ?M)"
    using sum_product_rows [of ?M "length (category_array tgt fd)"] connection_matrix_shape [of src tgt fd]
    by simp
  finally show ?thesis .
qed


lemma chord_render_connections:
  assumes "chord_render useTest colors dk src tgt data = Some (Inr v)"
  shows "\<exists>L R. chord_connections (connectionMatrix src tgt (chord_filtered_data useTest data)) L R
            (length (category_array src (chord_filtered_data useTest data)))
            (length (category_array tgt (chord_filtered_data useTest data))) = Inr (connections v)"
  using assms by (auto simp: chord_render_def Let_def split: if_splits sum.splits) (intro exI, simp)

lemma total_connections_rows:
  assumes "chord_render_insights useTest colors dk src tgt data = Some ins"
  shows "total_connections ins =
         length (filter (\<lambda>d. present (field_category src d) \<and> present (field_category tgt d))
                  (chord_filtered_data useTest data))"
proof -
  obtain v where r: "chord_render useTest colors dk src tgt data = Some (Inr v)"
    and ins: "ins = chord_insights_of (chord_filtered_data useTest data) src tgt (connections v)"
    using assms by (auto simp: chord_render_insights_def split: option.splits sum.splits)
  then obtain L R where "chord_connections (connectionMatrix src tgt (chord_filtered_data useTest data)) L R
            (length (category_array src (chord_filtered_data useTest data)))
            (length (category_array tgt (chord_filtered_data useTest data))) = Inr (connections v)"
    using chord_render_connections by blast
  then have "sum_list (map conn_value (connections v)) =
             sum_list (map sum_list (connectionMatrix src tgt (chord_filtered_data useTest data)))"
    by (rule chord_connections_weight)
  then show ?thesis by (simp add: ins chord_insights_of_def connection_matrix_total)
qed

end
