(* ===== verification/VisualOrder.thy ===== *)
theory VisualOrder
  imports Highlight "HOL-Library.Multiset"
begin

text \<open>
  The \<open>sortedSources\<close> memo of \<open>AlluvialDiagram.tsx\<close>, which the sequencer and the
  highlighting effect index with \<open>hoveredSourceIndex\<close>: it builds a graph of its own,
  lays it out with d3-sankey and reads the source nodes top to bottom. The layout is a
  library and is a parameter: it returns the nodes it is given, each with its
  \<open>y0\<close>. The memo's graph is not the one the render effect draws: it keeps the rows
  without a tenure (\<open>d.years_at_medtronic || 0\<close> puts them in the first band) and
  has no dummy nodes.
\<close>

text \<open>The memo's accessor: \<open>getValidYearsCategory\<close> for the tenure, the raw value otherwise.\<close>

definition memo_category :: "field \<Rightarrow> survey_response \<Rightarrow> string option" where
  "memo_category f d =
     (if f = YearsAtMedtronic then Some (getValidYearsCategory (years_or_zero d)) else raw_field f d)"

text \<open>
  One row of the memo's \<open>data.forEach\<close>, for an accessor: rows whose categories are
  not nodes are skipped.
\<close>

definition memo_record ::
  "(field \<Rightarrow> survey_response \<Rightarrow> string option) \<Rightarrow> field \<Rightarrow> field \<Rightarrow> string list \<Rightarrow> string list \<Rightarrow> link_map \<Rightarrow> survey_response \<Rightarrow> link_map" where
  "memo_record acc src tgt ss ts m d =
     (case (acc src d, acc tgt d) of
        (Some s, Some t) \<Rightarrow>
          if s \<in> set ss \<and> t \<in> set ts then
            let k = (node_id_of src s, node_id_of tgt t);
                l = (case map_of m k of
                       None \<Rightarrow> \<lparr>link_source = fst k, link_target = snd k, link_value = 0, is_dummy = False\<rparr>
                     | Some l \<Rightarrow> l)
            in map_set k (l\<lparr>link_value := link_value l + 1\<rparr>) m
          else m
      | _ \<Rightarrow> m)"

definition memo_links ::
  "(field \<Rightarrow> survey_response \<Rightarrow> string option) \<Rightarrow> field \<Rightarrow> field \<Rightarrow> string list \<Rightarrow> string list \<Rightarrow> survey_response list \<Rightarrow> sankey_link list" where
  "memo_links acc src tgt ss ts data = map snd (fold (\<lambda>d m. memo_record acc src tgt ss ts m d) data [])"

text \<open>The d3-sankey layout: each node with its \<open>y0\<close>.\<close>

type_synonym sankey_layout = "sankey_node list \<Rightarrow> sankey_link list \<Rightarrow> (sankey_node \<times> real) list"

text \<open>
  The memo: the unsorted \<open>sources\<close> before the chart has a size, otherwise the
  source nodes of the layout by increasing \<open>y0\<close> (\<open>Array.prototype.sort\<close> is
  stable, as \<open>sort_key\<close> is).
\<close>

definition sortedSources_memo ::
  "sankey_layout \<Rightarrow> survey_response list \<Rightarrow> field \<Rightarrow> field \<Rightarrow> real \<Rightarrow> real \<Rightarrow> string list" where
  "sortedSources_memo layout data src tgt cw ch =
     (if data = [] \<or> cw = 0 \<or> ch = 0 then sources data src
      else
        let ss = sort_categories src (sources data src);
            ts = targets data tgt;
            nodes = map (mk_node src) ss @ map (mk_node tgt) ts;
            links = memo_links memo_category src tgt ss ts data
        in map (node_name \<circ> fst) (sort_key snd (filter (\<lambda>(n, y). node_category n = field_key src) (layout nodes links))))"

text \<open>
  \<open>sortedSourcesForHighlight\<close>, a second copy of the memo further down the
  component: it lays the graph out only for a positive chart size, reads the tenure
  with \<open>getYearsCategory\<close> (the render's accessor \<open>field_category\<close>), and falls
  back to \<open>sources\<close> when the layout yields no source node.
\<close>

definition sortedSourcesForHighlight ::
  "sankey_layout \<Rightarrow> survey_response list \<Rightarrow> field \<Rightarrow> field \<Rightarrow> real \<Rightarrow> real \<Rightarrow> string list" where
  "sortedSourcesForHighlight layout data src tgt cw ch =
     (let visualOrder =
        (if data \<noteq> [] \<and> 0 < cw \<and> 0 < ch then
           let ss = sort_categories src (sources data src);
               ts = targets data tgt;
               nodes = map (mk_node src) ss @ map (mk_node tgt) ts;
               links = memo_links field_category src tgt ss ts data
           in map (node_name \<circ> fst) (sort_key snd (filter (\<lambda>(n, y). node_category n = field_key src) (layout nodes links)))
         else [])
      in if visualOrder \<noteq> [] then visualOrder else sources data src)"

text \<open>
  \<open>highlightSourceName\<close> and \<open>highlightTargetName\<close>, computed at each render from
  the sequencer state (and used nowhere).
\<close>

definition highlight_names ::
  "string list \<Rightarrow> string list \<Rightarrow> seq_state \<Rightarrow> string option \<times> string option" where
  "highlight_names order tgts s =
     (if isInFullOpacityState s then (None, None)
      else if hoveredSourceIndex s \<noteq> None \<and> animationPhase s = Highlighting
      then (hovered_name order (hoveredSourceIndex s), None)
      else if hoveredTargetIndex s \<noteq> None \<and> animationPhase s = Highlighting
      then (None, hovered_name tgts (hoveredTargetIndex s))
      else (None, None))"

text \<open>A layout that stacks the nodes in the order it is given them.\<close>

definition stack_layout :: sankey_layout where
  "stack_layout ns ls = map (\<lambda>(i, n). (n, real i)) (enumerate 0 ns)"

text \<open>Two answers of the visual learner, one of them without a tenure.\<close>

definition untenured_rows :: "survey_response list" where
  "untenured_rows =
     [\<lparr>resp_id = ''u-1'', attendee_id = ''a-1'', years_at_medtronic = None, learning_style = Some ''visual'',
       shaped_by = Some ''mentor'', peak_performance = Some ''Introvert, Morning'', motivation = Some ''growth'',
       updated_at = 0, has_attendee = True, test_data = False\<rparr>,
      \<lparr>resp_id = ''u-2'', attendee_id = ''a-2'', years_at_medtronic = Some 3, learning_style = Some ''visual'',
       shaped_by = Some ''mentor'', peak_performance = Some ''Introvert, Morning'', motivation = Some ''growth'',
       updated_at = 0, has_attendee = True, test_data = False\<rparr>]"

subsection \<open>Properties of the memo\<close>

lemma mset_sort_categories [simp]: "mset (sort_categories f cs) = mset cs"
  by (simp add: sort_categories_def)

lemma source_nodes_of:
  assumes "src \<noteq> tgt"
  shows "filter (\<lambda>n. node_category n = field_key src) (map (mk_node src) ss @ map (mk_node tgt) ts) =
         map (mk_node src) ss"
  using assms by (simp add: mk_node_def comp_def field_key_inj)

text \<open>
  Whatever order the layout gives, the memo lists each source category exactly once:
  the indices the sequencer cycles through name the source nodes.
\<close>

lemma memo_perm:
  assumes "\<And>ns ls. mset (map fst ((layout :: sankey_layout) ns ls)) = mset ns" "src \<noteq> tgt"
  shows "mset (sortedSources_memo layout data src tgt cw ch) = mset (sources data src)"
proof (cases "data = [] \<or> cw = 0 \<or> ch = 0")
  case True
  then show ?thesis by (simp add: sortedSources_memo_def)
next
  case False
  define ss where "ss = sort_categories src (sources data src)"
  define nodes where "nodes = map (mk_node src) ss @ map (mk_node tgt) (targets data tgt)"
  define laid where "laid = layout nodes (memo_links memo_category src tgt ss (targets data tgt) data)"
  have "mset (map fst (filter (\<lambda>(n, y). node_category n = field_key src) laid)) =
        mset (filter (\<lambda>n. node_category n = field_key src) (map fst laid))"
    by (simp add: filter_map comp_def case_prod_beta)
  also have "\<dots> = mset (filter (\<lambda>n. node_category n = field_key src) nodes)"
    by (simp only: mset_filter laid_def assms(1))
  also have "\<dots> = mset (map (mk_node src) ss)"
    unfolding nodes_def source_nodes_of [OF assms(2)] by (rule refl)
  finally have m: "mset (map fst (filter (\<lambda>(n, y). node_category n = field_key src) laid)) =
                   mset (map (mk_node src) ss)" .
  have "mset (sortedSources_memo layout data src tgt cw ch) =
        image_mset node_name (mset (map fst (filter (\<lambda>(n, y). node_category n = field_key src) laid)))"
    using False by (simp add: sortedSources_memo_def ss_def nodes_def laid_def Let_def image_mset.compositionality)
  also have "\<dots> = image_mset node_name (mset (map (mk_node src) ss))"
    by (simp only: m)
  also have "\<dots> = mset ss"
    by (simp add: image_mset.compositionality comp_def mk_node_def)
  finally show ?thesis by (simp add: ss_def)
qed

text \<open>
  The memo lays out another graph than the one drawn: a row without a tenure is counted
  in the first band by the memo and dropped by the render effect, so the layout that
  orders the highlighted sources sees a heavier link than the diagram shows.
\<close>

lemma memo_counts_untenured:
  "sort_categories YearsAtMedtronic (sources untenured_rows YearsAtMedtronic) = [''0-5''] \<and>
   targets untenured_rows LearningStyle = [''visual''] \<and>
   memo_links memo_category YearsAtMedtronic LearningStyle [''0-5''] [''visual''] untenured_rows =
     [\<lparr>link_source = ''years_at_medtronic:0-5'', link_target = ''learning_style:visual'', link_value = 2,
       is_dummy = False\<rparr>] \<and>
   filtered_links (snd (build_sankey untenured_rows YearsAtMedtronic LearningStyle)) =
     [\<lparr>link_source = ''years_at_medtronic:0-5'', link_target = ''learning_style:visual'', link_value = 1,
       is_dummy = False\<rparr>]"
proof -
  have s: "sources untenured_rows YearsAtMedtronic = [''0-5'']"
    by (simp add: sources_def untenured_rows_def years_present_def YEARS_CATEGORIES_def
                  getValidYearsCategory_def years_or_zero_def)
  have t: "targets untenured_rows LearningStyle = [''visual'']"
    by (simp add: targets_def untenured_rows_def string_values_def js_set_values_def)
  have m: "memo_links memo_category YearsAtMedtronic LearningStyle [''0-5''] [''visual''] untenured_rows =
     [\<lparr>link_source = ''years_at_medtronic:0-5'', link_target = ''learning_style:visual'', link_value = 2,
       is_dummy = False\<rparr>]"
    by (simp add: memo_links_def memo_record_def memo_category_def untenured_rows_def
                  getValidYearsCategory_def years_or_zero_def node_id_of_def)
  have b: "filtered_links (snd (build_sankey untenured_rows YearsAtMedtronic LearningStyle)) =
     [\<lparr>link_source = ''years_at_medtronic:0-5'', link_target = ''learning_style:visual'', link_value = 1,
       is_dummy = False\<rparr>]"
  proof -
    have a: "aggregate_links YearsAtMedtronic LearningStyle [''0-5''] [''visual'']
               (filtered_data untenured_rows YearsAtMedtronic LearningStyle) =
             [((''years_at_medtronic:0-5'', ''learning_style:visual''),
               \<lparr>link_source = ''years_at_medtronic:0-5'', link_target = ''learning_style:visual'', link_value = 1,
                is_dummy = False\<rparr>)]"
      by (simp add: filtered_data_def untenured_rows_def aggregate_links_def count_record_def
                    field_category_def getYearsCategory_def years_or_zero_def node_id_of_def)
    show ?thesis
      by (simp add: build_sankey_def sorted_sources_def sorted_targets_def s t sort_categories_def a
                    node_id_of_def filtered_links_def DUMMY_SOURCE_ID_def DUMMY_TARGET_ID_def
                    YEARS_CATEGORIES_def)
  qed
  show ?thesis using s t m b by (simp add: sort_categories_def)
qed

text \<open>
  C14: whatever order the d3-sankey layout gives its nodes, the \<open>sortedSources\<close>
  memo lists each source category exactly once, so the indices the sequencer cycles
  through name the source nodes.
\<close>

theorem sorted_sources_memo_perm:
  assumes "\<And>ns ls. mset (map fst ((layout :: sankey_layout) ns ls)) = mset ns" "src \<noteq> tgt"
  shows "mset (sortedSources_memo layout data src tgt cw ch) = mset (sources data src)"
  using memo_perm [OF assms] .

lemma stack_layout_perm: "mset (map fst (stack_layout ns ls)) = mset ns"
  by (simp add: stack_layout_def enumerate_eq_zip comp_def case_prod_beta)

theorem sorted_sources_memo_perm_witness:
  "mset (sortedSources_memo stack_layout untenured_rows YearsAtMedtronic LearningStyle 440 560) =
   mset (sources untenured_rows YearsAtMedtronic)"
  by (rule sorted_sources_memo_perm [OF stack_layout_perm]) simp

lemma distinct_sources: "distinct (sources data f)"
  using distinct_sorted_sources [of data f]
  by (simp add: sorted_sources_def mset_eq_imp_distinct_iff [of "sort_categories f (sources data f)"])

text \<open>
  Composed with the highlighting effect: while the sequencer highlights the i-th entry
  of the memo, exactly one source category's node is bright.
\<close>

lemma memo_one_source_bright:
  assumes "\<And>ns ls. mset (map fst ((layout :: sankey_layout) ns ls)) = mset ns" "src \<noteq> tgt"
    and "animationPhase s = Highlighting" "hoveredSourceIndex s = Some (int i)"
    and "i < length (sources data src)" "currentSource s = src"
  shows "\<exists>!n. n \<in> set (sources data src) \<and>
           node_opacity (sortedSources_memo layout data src tgt cw ch) tgts drawn s (mk_node src n) = 1"
proof -
  let ?o = "sortedSources_memo layout data src tgt cw ch"
  have m: "mset ?o = mset (sources data src)" by (rule memo_perm [OF assms(1,2)])
  then have len: "i < length ?o" using assms(5) by (metis size_mset)
  have set_o: "set ?o = set (sources data src)" using m by (metis set_mset_mset)
  have op: "node_opacity ?o tgts drawn s (mk_node src n) = (if n = ?o ! i then 1 else 0.15)" for n
    using one_source_bright [OF assms(3,4) len, of "mk_node src n"] assms(6) by (simp add: mk_node_def)
  show ?thesis
  proof (rule ex1I [of _ "?o ! i"])
    show "?o ! i \<in> set (sources data src) \<and> node_opacity ?o tgts drawn s (mk_node src (?o ! i)) = 1"
      using len set_o op by auto
  next
    fix n assume "n \<in> set (sources data src) \<and> node_opacity ?o tgts drawn s (mk_node src n) = 1"
    then show "n = ?o ! i" using op [of n] by (simp split: if_splits)
  qed
qed

text \<open>The two accessors agree: \<open>getValidYearsCategory\<close> only adds a guard for negative tenures.\<close>

lemma memo_category_eq: "memo_category = field_category"
  by (simp add: fun_eq_iff memo_category_def field_category_def getValidYearsCategory_eq)

text \<open>
  C23: the two copies of the visual source order agree. \<open>sortedSourcesForHighlight\<close>
  (the highlighting effect's own copy, with \<open>getValidYearsCategory\<close> and a fallback
  to the data order when it finds no node) computes the same list as the
  \<open>sortedSources\<close> memo whenever the chart has a positive size, the two fields differ
  and the layout returns the nodes it is given; so the index the sequencer highlights
  names the same source in both.
\<close>

theorem highlight_memo_agrees:
  assumes "\<And>ns ls. mset (map fst ((layout :: sankey_layout) ns ls)) = mset ns" "src \<noteq> tgt"
    and "0 < cw" "0 < ch"
  shows "sortedSourcesForHighlight layout data src tgt cw ch = sortedSources_memo layout data src tgt cw ch"
proof (cases "data = []")
  case True
  then show ?thesis by (simp add: sortedSourcesForHighlight_def sortedSources_memo_def)
next
  case False
  define vo where "vo = sortedSources_memo layout data src tgt cw ch"
  have h: "sortedSourcesForHighlight layout data src tgt cw ch = (if vo \<noteq> [] then vo else sources data src)"
    using False assms(3,4)
    by (simp add: sortedSourcesForHighlight_def sortedSources_memo_def vo_def memo_category_eq Let_def)
  have "mset vo = mset (sources data src)"
    unfolding vo_def by (rule memo_perm) (fact assms(1), fact assms(2))
  then have "vo = [] \<Longrightarrow> sources data src = []" by simp
  then show ?thesis using h by (auto simp: vo_def)
qed

theorem highlight_memo_agrees_witness:
  "sortedSourcesForHighlight stack_layout untenured_rows YearsAtMedtronic LearningStyle 440 560 =
   sortedSources_memo stack_layout untenured_rows YearsAtMedtronic LearningStyle 440 560"
  by (rule highlight_memo_agrees [OF stack_layout_perm]) simp_all

end
