(* ===== verification/SankeyInsights.thy ===== *)
theory SankeyInsights
  imports Sankey
begin

text \<open>
  The insights panel the Sankey render effect fills (\<open>setInsights\<close> of
  \<open>AlluvialDiagram.tsx\<close>): the number of responses, the field pair, and the "Most
  Common Flow", whose labels are read back from the node ids with
  \<open>id.split(':')[1]\<close>. The flow is taken over all links handed to the layout, the
  invisible dummy links included.
\<close>

text \<open>\<open>s.split(c)\<close>: the segments between the separators; \<open>"".split(c)\<close> is \<open>[""]\<close>.\<close>

fun js_split :: "char \<Rightarrow> string \<Rightarrow> string list" where
  "js_split c [] = [[]]"
| "js_split c (x # xs) = (if x = c then [] # js_split c xs else (let r = js_split c xs in (x # hd r) # tl r))"

text \<open>A label in a template literal: \<open>id.split(':')[1]\<close>, printed \<open>undefined\<close> when missing.\<close>

definition flow_label :: "string \<Rightarrow> string" where
  "flow_label i = (case js_at (js_split CHR '':'' i) 1 of None \<Rightarrow> ''undefined'' | Some s \<Rightarrow> s)"

record sankey_insights =
  si_total :: nat
  si_view :: "string \<times> string"
  si_most :: "(string \<times> string \<times> real) option"

text \<open>
  \<open>Total Responses\<close> is \<open>data.length\<close>, the unfiltered rows; \<open>None\<close> is the
  \<open>N/A\<close> entry.
\<close>

definition sankey_insights_of :: "survey_response list \<Rightarrow> field \<Rightarrow> field \<Rightarrow> sankey_insights" where
  "sankey_insights_of data src tgt =
     (let links = snd (build_sankey data src tgt)
      in \<lparr>si_total = length data, si_view = (field_key src, field_key tgt),
          si_most = map_option (\<lambda>l. (flow_label (link_source l), flow_label (link_target l), link_value l))
                      (most_common links)\<rparr>)"

text \<open>Two answers of visual learners, neither with a tenure.\<close>

definition tenureless_rows :: "survey_response list" where
  "tenureless_rows =
     [\<lparr>resp_id = ''t-1'', attendee_id = ''a-1'', years_at_medtronic = None, learning_style = Some ''visual'',
       shaped_by = Some ''mentor'', peak_performance = Some ''Introvert, Morning'', motivation = Some ''growth'',
       updated_at = 0, has_attendee = True, test_data = False\<rparr>,
      \<lparr>resp_id = ''t-2'', attendee_id = ''a-2'', years_at_medtronic = None, learning_style = Some ''visual'',
       shaped_by = Some ''team'', peak_performance = Some ''Introvert, Morning'', motivation = Some ''growth'',
       updated_at = 0, has_attendee = True, test_data = False\<rparr>]"

subsection \<open>Reading the labels back\<close>

lemma js_split_no_sep: "c \<notin> set s \<Longrightarrow> js_split c s = [s]"
  by (induction s) auto

lemma js_split_sep: "c \<notin> set a \<Longrightarrow> js_split c (a @ c # b) = a # js_split c b"
  by (induction a) auto

lemma field_key_no_colon: "CHR '':'' \<notin> set (field_key f)"
  by (cases f) simp_all

text \<open>A node id gives back its category name, unless the name has a colon of its own.\<close>

lemma flow_label_node_id: "CHR '':'' \<notin> set name \<Longrightarrow> flow_label (node_id_of f name) = name"
  by (simp add: flow_label_def node_id_of_def js_split_sep field_key_no_colon js_split_no_sep js_at_def)

subsection \<open>The most common flow\<close>

lemma map_set_weights:
  "\<forall>x \<in> set m. P (snd x) \<Longrightarrow> P v \<Longrightarrow> \<forall>x \<in> set (map_set k v m). P (snd x)"
  using set_map_set_sub [of k v m] by auto

lemma add_dummy_sources_weights:
  "add_dummy_sources ts (b, m) = (b', m') \<Longrightarrow> \<forall>x \<in> set m. is_dummy (snd x) \<longrightarrow> link_value (snd x) = 1 / 10000 \<Longrightarrow>
   \<forall>x \<in> set m'. is_dummy (snd x) \<longrightarrow> link_value (snd x) = 1 / 10000"
proof (induction ts arbitrary: b m)
  case (Cons t ts)
  show ?case
  proof (cases "list_ex (\<lambda>(_, l). link_target l = t) m")
    case True
    with Cons.prems(1) have "add_dummy_sources ts (b, m) = (b', m')" by simp
    from Cons.IH [OF this Cons.prems(2)] show ?thesis .
  next
    case False
    let ?v = "\<lparr>link_source = DUMMY_SOURCE_ID, link_target = t, link_value = 1 / 10000, is_dummy = True\<rparr>"
    from False Cons.prems(1) have r: "add_dummy_sources ts (True, map_set (DUMMY_SOURCE_ID, t) ?v m) = (b', m')"
      by simp
    have "\<forall>x \<in> set (map_set (DUMMY_SOURCE_ID, t) ?v m). is_dummy (snd x) \<longrightarrow> link_value (snd x) = 1 / 10000"
      by (rule map_set_weights [OF Cons.prems(2)]) simp
    from Cons.IH [OF r this] show ?thesis .
  qed
qed simp

lemma add_dummy_targets_weights:
  "add_dummy_targets ss (b, m) = (b', m') \<Longrightarrow> \<forall>x \<in> set m. is_dummy (snd x) \<longrightarrow> link_value (snd x) = 1 / 10000 \<Longrightarrow>
   \<forall>x \<in> set m'. is_dummy (snd x) \<longrightarrow> link_value (snd x) = 1 / 10000"
proof (induction ss arbitrary: b m)
  case (Cons s ss)
  show ?case
  proof (cases "list_ex (\<lambda>(_, l). link_source l = s) m")
    case True
    with Cons.prems(1) have "add_dummy_targets ss (b, m) = (b', m')" by simp
    from Cons.IH [OF this Cons.prems(2)] show ?thesis .
  next
    case False
    let ?v = "\<lparr>link_source = s, link_target = DUMMY_TARGET_ID, link_value = 1 / 10000, is_dummy = True\<rparr>"
    from False Cons.prems(1) have r: "add_dummy_targets ss (True, map_set (s, DUMMY_TARGET_ID) ?v m) = (b', m')"
      by simp
    have "\<forall>x \<in> set (map_set (s, DUMMY_TARGET_ID) ?v m). is_dummy (snd x) \<longrightarrow> link_value (snd x) = 1 / 10000"
      by (rule map_set_weights [OF Cons.prems(2)]) simp
    from Cons.IH [OF r this] show ?thesis .
  qed
qed simp

lemma count_record_weights:
  assumes "\<forall>x \<in> set m. 1 \<le> link_value (snd x)"
  shows "\<forall>x \<in> set (count_record src tgt ss ts m d). 1 \<le> link_value (snd x)"
proof -
  have old: "0 \<le> link_value l" if "map_of m k = Some l" for k l
    using assms map_of_SomeD [OF that] by fastforce
  show ?thesis
  proof (cases "field_category src d")
    case (Some s)
    show ?thesis
    proof (cases "field_category tgt d")
      case (Some t)
      define k where "k = (node_id_of src s, node_id_of tgt t)"
      define l where "l = (case map_of m k of
                             None \<Rightarrow> \<lparr>link_source = fst k, link_target = snd k, link_value = 0, is_dummy = False\<rparr>
                           | Some l \<Rightarrow> l)"
      have "0 \<le> link_value l" using old by (auto simp: l_def split: option.splits)
      then have "\<forall>x \<in> set (map_set k (l\<lparr>link_value := link_value l + 1\<rparr>) m). 1 \<le> link_value (snd x)"
        by (intro map_set_weights [OF assms]) simp
      moreover have "count_record src tgt ss ts m d =
                     (if s \<in> set ss \<and> t \<in> set ts then map_set k (l\<lparr>link_value := link_value l + 1\<rparr>) m else m)"
        unfolding l_def k_def using \<open>field_category src d = Some s\<close> Some by (simp add: count_record_def Let_def)
      ultimately show ?thesis using assms by simp
    qed (use assms \<open>field_category src d = Some s\<close> in \<open>simp add: count_record_def\<close>)
  qed (use assms in \<open>simp add: count_record_def\<close>)
qed

lemma aggregate_links_weights: "\<forall>x \<in> set (aggregate_links src tgt ss ts ds). 1 \<le> link_value (snd x)"
proof -
  have "\<forall>x \<in> set (fold (\<lambda>d m. count_record src tgt ss ts m d) ds m). 1 \<le> link_value (snd x)"
    if "\<forall>x \<in> set m. 1 \<le> link_value (snd x)" for m
    using that
  proof (induction ds arbitrary: m)
    case (Cons d ds)
    from Cons.IH [OF count_record_weights [OF Cons.prems]] show ?case by simp
  qed simp
  from this [of "[]"] show ?thesis by (simp add: aggregate_links_def)
qed

text \<open>Every dummy link handed to the layout weighs \<open>0.0001\<close>.\<close>

lemma build_sankey_dummy_weights:
  "\<forall>l \<in> set (snd (build_sankey data src tgt)). is_dummy l \<longrightarrow> link_value l = 1 / 10000"
proof -
  define ss ts where "ss = sorted_sources data src" and "ts = sorted_targets data tgt"
  define m0 where "m0 = aggregate_links src tgt ss ts (filtered_data data src tgt)"
  obtain ds m1 where 1: "add_dummy_sources (map (node_id_of tgt) ts) (False, m0) = (ds, m1)"
    by (cases "add_dummy_sources (map (node_id_of tgt) ts) (False, m0)")
  obtain dt m2 where 2: "add_dummy_targets (map (node_id_of src) ss) (False, m1) = (dt, m2)"
    by (cases "add_dummy_targets (map (node_id_of src) ss) (False, m1)")
  have b: "snd (build_sankey data src tgt) = map snd m2"
    using 1 2 by (simp add: build_sankey_def ss_def ts_def m0_def Let_def)
  have "\<forall>l \<in> set (map snd m0). \<not> is_dummy l"
    using aggregate_links_real [of src tgt ss ts "filtered_data data src tgt"]
    unfolding m0_def by (metis filter_id_conv)
  then have "\<forall>x \<in> set m0. is_dummy (snd x) \<longrightarrow> link_value (snd x) = 1 / 10000" by auto
  from add_dummy_targets_weights [OF 2 add_dummy_sources_weights [OF 1 this]] show ?thesis
    by (auto simp: b)
qed

text \<open>
  When some row is counted, the most common flow is a drawn link: it joins a source
  category to a target category, since a counted link weighs at least 1 and a dummy
  only \<open>0.0001\<close>.
\<close>

lemma most_common_real:
  assumes "d \<in> set (filtered_data data src tgt)"
    and "counted src tgt (sorted_sources data src) (sorted_targets data tgt) d"
  shows "\<exists>l s t. most_common (snd (build_sankey data src tgt)) = Some l \<and>
           s \<in> set (sources data src) \<and> t \<in> set (targets data tgt) \<and>
           link_source l = node_id_of src s \<and> link_target l = node_id_of tgt t"
proof -
  define ss ts where "ss = sorted_sources data src" and "ts = sorted_targets data tgt"
  define m0 where "m0 = aggregate_links src tgt ss ts (filtered_data data src tgt)"
  obtain ds dt m2 where b: "snd (build_sankey data src tgt) = map snd m2"
    and w: "wf_links m2" "dummy_wf m2"
    and nd: "filter (\<lambda>l. \<not> is_dummy l) (map snd m2) = filter (\<lambda>l. \<not> is_dummy l) (map snd m0)"
    by (rule build_sankey_facts [of data src tgt]) (simp_all add: ss_def ts_def m0_def)
  have real0: "filter (\<lambda>l. \<not> is_dummy l) (map snd m0) = map snd m0"
    unfolding m0_def by (rule aggregate_links_real)
  have "0 < length (filter (counted src tgt ss ts) (filtered_data data src tgt))"
    using assms by (auto simp: ss_def ts_def filter_empty_conv length_greater_0_conv)
  then have "m0 \<noteq> []"
    using aggregate_links_sum [of src tgt ss ts "filtered_data data src tgt"] by (auto simp: m0_def)
  then obtain x0 where x0: "x0 \<in> set m0" by (cases m0) auto
  have w0: "1 \<le> link_value (snd x0)" using aggregate_links_weights x0 by (auto simp: m0_def)
  have in2: "snd x0 \<in> set (map snd m2)"
  proof -
    have "snd x0 \<in> set (filter (\<lambda>l. \<not> is_dummy l) (map snd m2))"
      using x0 by (simp only: nd real0) simp
    then show ?thesis by simp
  qed
  then obtain l where mc: "most_common (map snd m2) = Some l"
    by (cases "map snd m2") (auto simp: most_common_def)
  from most_common_max [OF mc] in2 have l: "l \<in> set (map snd m2)" "link_value (snd x0) \<le> link_value l"
    by auto
  have "\<not> is_dummy l"
    using build_sankey_dummy_weights [of data src tgt] l w0 by (auto simp: b)
  with l(1) have "l \<in> set (filter (\<lambda>l. \<not> is_dummy l) (map snd m2))" by simp
  then have "l \<in> set (map snd m0)" by (simp only: nd real0)
  then obtain k where k: "(k, l) \<in> set m0" by auto
  have "link_source l = fst k \<and> link_target l = snd k"
    using wf_links_pair [OF aggregate_links_wf k [unfolded m0_def]] by simp
  moreover have "k \<in> node_id_of src ` set ss \<times> node_id_of tgt ` set ts"
    using aggregate_links_keys k by (fastforce simp: m0_def)
  ultimately show ?thesis
    using mc b by (auto simp: ss_def ts_def sorted_sources_def sorted_targets_def) blast
qed

text \<open>
  So the panel names a source and a target category, provided the category names have
  no colon of their own.
\<close>

lemma insights_flow_names:
  assumes "d \<in> set (filtered_data data src tgt)"
    and "counted src tgt (sorted_sources data src) (sorted_targets data tgt) d"
    and "\<forall>s \<in> set (sources data src). CHR '':'' \<notin> set s"
    and "\<forall>t \<in> set (targets data tgt). CHR '':'' \<notin> set t"
  shows "\<exists>a b v. si_most (sankey_insights_of data src tgt) = Some (a, b, v) \<and>
           a \<in> set (sources data src) \<and> b \<in> set (targets data tgt)"
  using most_common_real [OF assms(1,2)] assms(3,4)
  by (auto simp: sankey_insights_of_def flow_label_node_id)

text \<open>
  Without a counted row the panel reports a dummy link: with two answers that both lack
  a tenure, the tenure-by-style view reads "Most Common Flow: undefined \<open>\<rightarrow>\<close> visual"
  of weight \<open>0.0001\<close>, while "Total Responses" counts both rows.
\<close>

lemma insights_dummy_flow:
  "sankey_insights_of tenureless_rows YearsAtMedtronic LearningStyle =
     \<lparr>si_total = 2, si_view = (''years_at_medtronic'', ''learning_style''),
      si_most = Some (''undefined'', ''visual'', 1 / 10000)\<rparr>"
proof -
  have s: "sorted_sources tenureless_rows YearsAtMedtronic = [''0-5'']"
    by (simp add: sorted_sources_def sort_categories_def sources_def tenureless_rows_def years_present_def
                  YEARS_CATEGORIES_def getValidYearsCategory_def years_or_zero_def)
  have t: "sorted_targets tenureless_rows LearningStyle = [''visual'']"
    by (simp add: sorted_targets_def sort_categories_def targets_def tenureless_rows_def string_values_def
                  js_set_values_def)
  have f: "filtered_data tenureless_rows YearsAtMedtronic LearningStyle = []"
    by (simp add: filtered_data_def tenureless_rows_def)
  have l: "snd (build_sankey tenureless_rows YearsAtMedtronic LearningStyle) =
     [\<lparr>link_source = DUMMY_SOURCE_ID, link_target = ''learning_style:visual'', link_value = 1 / 10000,
       is_dummy = True\<rparr>,
      \<lparr>link_source = ''years_at_medtronic:0-5'', link_target = DUMMY_TARGET_ID, link_value = 1 / 10000,
       is_dummy = True\<rparr>]"
    by (simp add: build_sankey_def s t f aggregate_links_def node_id_of_def DUMMY_SOURCE_ID_def DUMMY_TARGET_ID_def)
  have n: "length tenureless_rows = 2" by (simp add: tenureless_rows_def)
  show ?thesis
    by (simp add: sankey_insights_of_def l n most_common_def flow_label_def DUMMY_SOURCE_ID_def js_at_def)
qed

end
