(* ===== verification/ChordStyle.thy ===== *)
theory ChordStyle
  imports ChordInsights
begin

text \<open>
  The drawing of the two chords of \<open>ChordDiagram.tsx\<close>. For the secondary chord
  (\<open>renderSecondaryChord\<close>, over the categories of \<open>secondary_matrix\<close>): the fill
  of each group and ribbon, and the placement, size, text and tooltip kind of each
  label; its group angles come from \<open>d3.chord\<close>, which is not modelled, and are
  inputs. For the main chord: the labels of its arcs, which use the same placement,
  and the ribbon tooltip.
\<close>

definition yearsColors :: "string list" where
  "yearsColors = [''#0077CC'', ''#00A3E0'', ''#4FC3F7'', ''#81C784'', ''#AED581'']"

definition perfColors :: "string list" where
  "perfColors = [''#FF6B6B'', ''#FFD166'', ''#06D6A0'', ''#118AB2'', ''#FF9F1C'', ''#4ECDC4'']"

text \<open>\<open>[...yearsColors, ...perfColors.slice(0, peakPerfCategories.length)]\<close>.\<close>

definition secondary_colors :: "nat \<Rightarrow> string list" where
  "secondary_colors nperf = yearsColors @ take nperf perfColors"

text \<open>\<open>colors[i % colors.length]\<close>: the fill of group \<open>i\<close>, and of a ribbon from its source group.\<close>

definition group_fill :: "nat \<Rightarrow> nat \<Rightarrow> string" where
  "group_fill nperf i = (let cs = secondary_colors nperf in cs ! (i mod length cs))"

definition ribbon_fill :: "nat \<Rightarrow> nat \<times> nat \<Rightarrow> string" where
  "ribbon_fill nperf st = group_fill nperf (fst st)"

text \<open>The label of a group: its mid angle, turned by a quarter.\<close>

definition label_angle :: "real \<Rightarrow> real \<Rightarrow> real" where
  "label_angle s e = (s + e) / 2 - pi / 2"

definition label_flipped :: "real \<Rightarrow> real \<Rightarrow> bool" where
  "label_flipped s e = (label_angle s e > pi / 2 \<or> label_angle s e < - (pi / 2))"

definition label_rotation :: "real \<Rightarrow> real \<Rightarrow> real" where
  "label_rotation s e =
     (let rotation = label_angle s e * 180 / pi in if label_flipped s e then rotation + 180 else rotation)"

definition label_anchor :: "real \<Rightarrow> real \<Rightarrow> string" where
  "label_anchor s e = (if label_flipped s e then ''end'' else ''start'')"

definition label_font_size :: "nat \<Rightarrow> nat" where
  "label_font_size nlabels =
     (if nlabels > 12 then 13 else if nlabels > 10 then 14 else if nlabels > 8 then 15 else 16)"

text \<open>\<open>.replace(/_/g, ' ')\<close>.\<close>

definition underscores_to_spaces :: "string \<Rightarrow> string" where
  "underscores_to_spaces s = map (\<lambda>x. if x = CHR ''_'' then CHR '' '' else x) s"

text \<open>\<open>allCategories[i]?.toString().replace(/_/g, ' ') || ''\<close>.\<close>

definition label_text :: "string list \<Rightarrow> nat \<Rightarrow> string" where
  "label_text cats i =
     (case js_at cats (int i) of None \<Rightarrow> [] | Some c \<Rightarrow> underscores_to_spaces c)"

subsection \<open>Labels of the main chord\<close>

definition labelFontSize :: nat where "labelFontSize = 20"

text \<open>\<open>allArcs\<close>: the left arcs, then the right arcs, each tagged with its side.\<close>

definition all_arcs :: "chord_view \<Rightarrow> (chord_arc \<times> string) list" where
  "all_arcs v = map (\<lambda>a. (a, ''left'')) (leftArcs v) @ map (\<lambda>a. (a, ''right'')) (rightArcs v)"

definition arc_label_text :: "chord_arc \<Rightarrow> string" where
  "arc_label_text a = underscores_to_spaces (name_or_unknown (arc_name a))"

definition main_font_size :: "nat \<Rightarrow> nat" where
  "main_font_size nlabels =
     (if nlabels > 12 then 13 else if nlabels > 10 then 14 else if nlabels > 8 then 15 else max 16 labelFontSize)"

text \<open>The tooltip of an arc: none for an empty category (\<open>if (d.value === 0) return\<close>).\<close>

definition arc_tooltip :: "chord_arc \<Rightarrow> (string \<times> nat) option" where
  "arc_tooltip a = (if arc_value a = 0 then None else Some (arc_label_text a, arc_value a))"

text \<open>The radius at which ribbons meet the arcs.\<close>

definition ribbon_radius :: "real \<Rightarrow> real" where
  "ribbon_radius r = max 60 (r * 0.75)"

text \<open>The ribbon tooltip: both arc names and the ribbon's count.\<close>

definition ribbon_tooltip :: "connection \<Rightarrow> string \<times> string \<times> nat" where
  "ribbon_tooltip c = (arc_label_text (left_arc c), arc_label_text (right_arc c), conn_value c)"

subsection \<open>Tooltip of a secondary group\<close>

definition group_kind :: "nat \<Rightarrow> string" where
  "group_kind i = (if i < length YEARS_GROUPS then ''Years at Medtronic'' else ''Peak Performance Type'')"

subsection \<open>Geometry of the main chord\<close>

text \<open>
  The margins are 80 left and right, 80 on top and 100 below. The view refuses a chart
  area under 200 pixels, measured on the full size even when the two chords share it.
\<close>

definition isContainerTooSmall :: "real \<Rightarrow> real \<Rightarrow> bool" where
  "isContainerTooSmall w h = (w - 80 - 80 < 200 \<or> h - 80 - 100 < 200)"

text \<open>The SVG of the main chord: 45\<open>%\<close> by 80\<open>%\<close> beside the secondary chord, else full width and 85\<open>%\<close>.\<close>

definition effective_size :: "bool \<Rightarrow> real \<Rightarrow> real \<Rightarrow> real \<times> real" where
  "effective_size sec w h = (if sec then (w * 0.45, h * 0.8) else (w, h * 0.85))"

definition chord_radius :: "bool \<Rightarrow> real \<Rightarrow> real \<Rightarrow> real" where
  "chord_radius sec w h =
     (let (ew, eh) = effective_size sec w h in max 120 (min (ew - 80 - 80) (eh - 80 - 100) / 2 - 60))"

definition outer_radius :: "real \<Rightarrow> real" where
  "outer_radius r = max 80 (r * 0.95)"

definition inner_radius :: "real \<Rightarrow> real" where
  "inner_radius r = max 60 (r * 0.75)"

text \<open>The translation of the arc and label groups: the centre of the chart area.\<close>

definition chord_center :: "bool \<Rightarrow> real \<Rightarrow> real \<Rightarrow> real \<times> real" where
  "chord_center sec w h = (let (ew, eh) = effective_size sec w h in (80 + (ew - 80 - 80) / 2, 80 + (eh - 80 - 100) / 2))"

text \<open>Whether the ring of arcs lies inside the SVG.\<close>

definition arcs_fit :: "bool \<Rightarrow> real \<Rightarrow> real \<Rightarrow> bool" where
  "arcs_fit sec w h =
     (let (ew, eh) = effective_size sec w h; (cx, cy) = chord_center sec w h;
          r = outer_radius (chord_radius sec w h)
      in r \<le> cx \<and> cx + r \<le> ew \<and> r \<le> cy \<and> cy + r \<le> eh)"

subsection \<open>Fills\<close>

lemma colors_disjoint: "set yearsColors \<inter> set perfColors = {}"
  by (simp add: yearsColors_def perfColors_def)

lemma length_secondary_colors: "length (secondary_colors n) = 5 + min n 6"
  by (simp add: secondary_colors_def yearsColors_def perfColors_def)

text \<open>
  With at most six answers, the tenure bands get the tenure palette and the answers the
  performance palette.
\<close>

lemma group_fill_kind:
  assumes "n \<le> 6" "i < 5 + n"
  shows "(group_fill n i \<in> set perfColors) = (5 \<le> i)"
proof -
  have m: "i mod length (secondary_colors n) = i" using assms by (simp add: length_secondary_colors)
  have ly: "length yearsColors = 5" by (simp add: yearsColors_def)
  show ?thesis
  proof (cases "i < 5")
    case True
    then have "group_fill n i = yearsColors ! i"
      using m ly by (simp add: group_fill_def secondary_colors_def nth_append)
    then have "group_fill n i \<in> set yearsColors" using True ly by simp
    with True colors_disjoint show ?thesis by auto
  next
    case False
    then have "group_fill n i = perfColors ! (i - 5)"
      using m ly assms by (simp add: group_fill_def secondary_colors_def nth_append)
    moreover have "i - 5 < length perfColors" using assms by (simp add: perfColors_def)
    ultimately show ?thesis using False by simp
  qed
qed

text \<open>A seventh answer wraps around to the colour of the first tenure band.\<close>

lemma group_fill_wraps: "group_fill 7 11 = ''#0077CC'' \<and> group_fill 7 11 = group_fill 7 0"
  by (simp add: group_fill_def secondary_colors_def yearsColors_def perfColors_def)

text \<open>
  On the secondary chord: its categories are the five bands and the sorted answers, so
  with at most six answers every group is filled from its own palette.
\<close>

lemma secondary_fill_kind:
  assumes "secondary_matrix useTest src tgt data = Some (cats, M)" "length cats \<le> 11" "i < length cats"
  shows "(group_fill (length cats - 5) i \<in> set perfColors) = (length YEARS_GROUPS \<le> i)"
proof -
  have "5 \<le> length cats"
    using assms(1) by (auto simp: secondary_matrix_def Let_def YEARS_GROUPS_def split: if_splits)
  moreover have "length YEARS_GROUPS = 5" by (simp add: YEARS_GROUPS_def)
  ultimately show ?thesis
    using group_fill_kind [of "length cats - 5" i] assms(2,3) by simp
qed

subsection \<open>Labels\<close>

text \<open>
  For groups within the circle (\<open>0 \<le> startAngle \<le> endAngle \<le> 2\<pi>\<close>) the flip keeps
  every label upright: its rotation, taken modulo a full turn, is within a quarter turn
  of the horizontal, and flipped labels are anchored at their end.
\<close>

lemma label_upright:
  assumes "0 \<le> s" "s \<le> e" "e \<le> 2 * pi"
  shows "\<exists>k::int. - 90 \<le> label_rotation s e - 360 * k \<and> label_rotation s e - 360 * k \<le> 90"
proof -
  define a where "a = label_angle s e"
  have lo: "- (pi / 2) \<le> a" and hi: "a \<le> 3 * pi / 2"
    using assms by (simp_all add: a_def label_angle_def)
  have r: "label_rotation s e = (if a > pi / 2 then a * 180 / pi + 180 else a * 180 / pi)"
    using lo by (simp add: label_rotation_def label_flipped_def a_def [symmetric] Let_def)
  show ?thesis
  proof (cases "a > pi / 2")
    case True
    have "a * 180 / pi \<le> 270" using hi pi_gt_zero by (simp add: divide_le_eq field_simps)
    moreover have "90 < a * 180 / pi" using True pi_gt_zero by (simp add: less_divide_eq field_simps)
    ultimately show ?thesis using True r by (intro exI [of _ 1]) simp
  next
    case False
    have "a * 180 / pi \<le> 90" using False pi_gt_zero by (simp add: divide_le_eq field_simps)
    moreover have "- 90 \<le> a * 180 / pi" using lo pi_gt_zero by (simp add: le_divide_eq field_simps)
    ultimately show ?thesis using False r by (intro exI [of _ 0]) simp
  qed
qed

lemma label_font_size_range: "13 \<le> label_font_size n \<and> label_font_size n \<le> 16"
  by (simp add: label_font_size_def)

lemma label_font_size_mono: "n \<le> m \<Longrightarrow> label_font_size m \<le> label_font_size n"
  by (simp add: label_font_size_def)

text \<open>Labels past the half turn are the flipped ones, anchored at their end.\<close>

lemma label_flipped_mid:
  assumes "0 \<le> s" "s \<le> e" "e \<le> 2 * pi"
  shows "label_flipped s e \<longleftrightarrow> pi < (s + e) / 2"
  using assms by (auto simp: label_flipped_def label_angle_def)

lemma main_font_size_range: "13 \<le> main_font_size n \<and> main_font_size n \<le> 20"
  by (simp add: main_font_size_def labelFontSize_def)

text \<open>
  The main chord labels every arc once, in the order of the two sides, and the label of
  an arc whose name has no underscore is its name.
\<close>

lemma all_arcs_labels:
  "map (arc_label_text \<circ> fst) (all_arcs v) = map arc_label_text (leftArcs v @ rightArcs v) \<and>
   length (all_arcs v) = length (leftArcs v) + length (rightArcs v)"
  by (simp add: all_arcs_def comp_def)

lemma underscores_to_spaces_id: "CHR ''_'' \<notin> set s \<Longrightarrow> underscores_to_spaces s = s"
  by (induction s) (auto simp: underscores_to_spaces_def)

lemma arc_label_plain: "arc_name a \<noteq> [] \<Longrightarrow> CHR ''_'' \<notin> set (arc_name a) \<Longrightarrow> arc_label_text a = arc_name a"
  by (simp add: arc_label_text_def name_or_unknown_def underscores_to_spaces_id)

subsection \<open>Geometry\<close>

text \<open>
  C38: with one chord, a chart area the view accepts (\<open>isContainerTooSmall\<close> false)
  always holds the ring of arcs: with the radius of the render effect, its outer
  radius and the translation to the centre of the SVG, the ring stays inside the SVG
  on all four sides. The radius floor of 120 fits, and a larger radius keeps a margin
  of 60.
\<close>

theorem single_chord_fits:
  assumes "\<not> isContainerTooSmall w h"
  shows "arcs_fit False w h"
proof -
  have w: "360 \<le> w" and h: "380 \<le> h" using assms by (auto simp: isContainerTooSmall_def)
  define r where "r = max 120 (min (w - 160) (h * 0.85 - 180) / 2 - 60)"
  have rr: "chord_radius False w h = r" by (simp add: chord_radius_def effective_size_def r_def)
  have r0: "120 \<le> r" by (simp add: r_def)
  then have o: "outer_radius r = r * 0.95" by (simp add: outer_radius_def max_def)
  have b: "r \<le> (w - 160) / 2 + 80 \<and> r \<le> (h * 0.85 - 180) / 2 + 80"
    using w h by (auto simp: r_def min_def max_def field_simps)
  have c: "chord_center False w h = (w / 2, h * 0.85 / 2 - 10)"
    by (simp add: chord_center_def effective_size_def field_simps)
  have e: "effective_size False w h = (w, h * 0.85)" by (simp add: effective_size_def)
  have "r * 0.95 \<le> w / 2" "w / 2 + r * 0.95 \<le> w"
       "r * 0.95 \<le> h * 0.85 / 2 - 10" "h * 0.85 / 2 - 10 + r * 0.95 \<le> h * 0.85"
    using b r0 by (auto simp: field_simps)
  then show ?thesis by (simp only: arcs_fit_def c e rr o Let_def prod.case)
qed

theorem single_chord_fits_witness: "arcs_fit False 800 600"
  by (rule single_chord_fits) (simp add: isContainerTooSmall_def)

text \<open>
  Beside the secondary chord the check on the full size is not enough: a 400 by 400
  view is accepted, but its ring of radius 114 is centred 90 pixels from the left edge
  of an SVG 180 pixels wide.
\<close>

lemma two_chords_overflow:
  "\<not> isContainerTooSmall 400 400 \<and> outer_radius (chord_radius True 400 400) = 114 \<and>
   chord_center True 400 400 = (90, 150) \<and> \<not> arcs_fit True 400 400"
  by (simp add: isContainerTooSmall_def outer_radius_def chord_radius_def chord_center_def
                arcs_fit_def effective_size_def Let_def)

subsection \<open>Arc tooltips\<close>

lemma place_arcs_values:
  "x \<in> set (place_arcs cnt sp col a vs) \<Longrightarrow> arc_value x = cnt (arc_name x) \<and>
     arc_opacity x = (if cnt (arc_name x) = 0 then 0.15 else 0.8)"
  by (induction cnt sp col a vs rule: place_arcs.induct) auto

text \<open>An arc is dimmed exactly when it has no tooltip, that is, when no row has its category.\<close>

lemma side_arc_tooltip:
  assumes "x \<in> set (side_arcs f fd a0 w colors dk)"
  shows "(arc_tooltip x = None) = (cat_count f fd (arc_name x) = 0) \<and>
         (arc_tooltip x = None) = (arc_opacity x = 0.15)"
  using place_arcs_values [of x] assms
  by (simp add: side_arcs_def Let_def arc_tooltip_def)

end
