(* ===== verification/Previews.thy ===== *)
theory Previews
  imports AdminPage ChordStyle
begin

text \<open>
  The field selectors and the settings previews: the option lists of the Sankey and
  chord views with \<open>QuestionSelector.tsx\<close>, which disables in each select the field
  chosen in the other; the category labels and the "Current Settings Preview" of the
  admin page; and the test page \<open>app/test-context/page.tsx\<close>, with its settings panel,
  its three quick actions and its colour preview. \<open>Object.entries\<close> lists an object's
  entries in insertion order, which the colour maps do not record: the entry lists are
  parameters \<open>ce\<close> (of a category map) and \<open>ae\<close> (of an answer map).
\<close>

subsection \<open>Field selectors\<close>

definition alluvial_options :: "(string \<times> string) list" where
  "alluvial_options =
     [(''years_at_medtronic'', ''Years at Medtronic''), (''learning_style'', ''Learning Style''),
      (''shaped_by'', ''Shaped By''), (''peak_performance'', ''Peak Performance''),
      (''motivation'', ''Motivation'')]"

definition chord_options :: "(string \<times> string) list" where
  "chord_options =
     [(''years_at_medtronic'', ''Years at Medtronic''), (''peak_performance'', ''Peak Performance''),
      (''learning_style'', ''Learning Style''), (''motivation'', ''Motivation''),
      (''shaped_by'', ''Shaped By'')]"

text \<open>One select: every field as an option, the one chosen in the other select disabled.\<close>

definition selector_options :: "(string \<times> string) list \<Rightarrow> string \<Rightarrow> (string \<times> string \<times> bool) list" where
  "selector_options opts other = map (\<lambda>(v, l). (v, l, v = other)) opts"

subsection \<open>Admin page previews\<close>

definition categoryLabels :: "string \<rightharpoonup> string" where
  "categoryLabels =
     [''years_at_medtronic'' \<mapsto> ''Years at Medtronic'', ''peak_performance'' \<mapsto> ''Peak Performance'',
      ''learning_style'' \<mapsto> ''Learning Style'', ''motivation'' \<mapsto> ''Motivation'',
      ''shaped_by'' \<mapsto> ''Shaped By'']"

text \<open>\<open>categoryLabels[category] || category.replace(/_/g, ' ')\<close>.\<close>

definition category_label :: "string \<Rightarrow> string" where
  "category_label c = (case categoryLabels c of Some l \<Rightarrow> l | None \<Rightarrow> underscores_to_spaces c)"

text \<open>The four tiles of the settings preview.\<close>

definition admin_settings_preview :: "visualization_settings \<Rightarrow> string \<times> string \<times> string \<times> real" where
  "admin_settings_preview s =
     (if isDarkMode s then ''Dark'' else ''Light'', if useTestData s then ''Test Data'' else ''Live Data'',
      if isAutoPlayEnabled s then ''Enabled'' else ''Disabled'', autoPlaySpeed s)"

text \<open>
  A swatch's \<open>backgroundColor\<close>: a string is used as the colour; an object is
  serialised as \<open>[object Object]\<close>, which is no colour, and the swatch stays blank.
\<close>

datatype css_value = CssString string | CssObject

definition css_background :: "css_value \<Rightarrow> string option" where
  "css_background v = (case v of CssString s \<Rightarrow> Some s | CssObject \<Rightarrow> None)"

text \<open>The colour preview of one theme: three categories, three answers each.\<close>

definition admin_color_preview ::
  "(category_colors \<Rightarrow> (string \<times> (string \<rightharpoonup> string)) list) \<Rightarrow> ((string \<rightharpoonup> string) \<Rightarrow> (string \<times> string) list) \<Rightarrow>
   category_colors \<Rightarrow> (string \<times> (string \<times> string option) list) list" where
  "admin_color_preview ce ae cc =
     map (\<lambda>(c, m). (category_label c, map (\<lambda>(a, col). (a, css_background (CssString col))) (take 3 (ae m))))
       (take 3 (ce cc))"

subsection \<open>The context test page\<close>

definition enabled_text :: "bool \<Rightarrow> string" where
  "enabled_text b = (if b then ''Enabled'' else ''Disabled'')"

definition context_settings_panel :: "visualization_settings \<Rightarrow> string \<times> string \<times> string \<times> real" where
  "context_settings_panel s =
     (enabled_text (isDarkMode s), enabled_text (useTestData s), enabled_text (isAutoPlayEnabled s), autoPlaySpeed s)"

datatype context_action = CtxToggleDark | CtxToggleTestData | CtxToggleAutoPlay

fun context_step :: "context_action \<Rightarrow> visualization_settings \<Rightarrow> visualization_settings" where
  "context_step CtxToggleDark s = apply_op ToggleDarkMode s"
| "context_step CtxToggleTestData s = apply_op ToggleTestData s"
| "context_step CtxToggleAutoPlay s = apply_op ToggleAutoPlay s"

text \<open>
  \<open>Object.entries(settings.categoryColors)\<close> lists the two themes, not the
  categories: each heading is a theme name, and each swatch is given a category's
  answer map as its colour.
\<close>

definition context_color_preview ::
  "(category_colors \<Rightarrow> (string \<times> (string \<rightharpoonup> string)) list) \<Rightarrow> theme_aware_colors \<Rightarrow>
   (string \<times> (string \<times> string option) list) list" where
  "context_color_preview ce tc =
     map (\<lambda>(k, cc). (underscores_to_spaces k, map (\<lambda>(c, m). (c, css_background CssObject)) (take 3 (ce cc))))
       (take 4 [(''light'', light tc), (''dark'', dark tc)])"

subsection \<open>Properties\<close>

text \<open>The option lists list the fields of the two views' models, in their orders.\<close>

lemma options_fields:
  "map fst alluvial_options = map field_key alluvialFields \<and> map fst chord_options = map field_key chordFields"
  by (simp add: alluvial_options_def chord_options_def alluvialFields_def chordFields_def)

text \<open>Both selectors and the admin page name every field the same way.\<close>

lemma labels_agree:
  "map_of alluvial_options (field_key f) = Some (category_label (field_key f)) \<and>
   map_of chord_options (field_key f) = Some (category_label (field_key f))"
  by (cases f) (simp_all add: alluvial_options_def chord_options_def category_label_def categoryLabels_def)

text \<open>The enabled options of a select are the fields other than the one chosen in the other.\<close>

lemma selector_enabled:
  "map fst (filter (\<lambda>(v, l, d). \<not> d) (selector_options opts other)) = filter (\<lambda>v. v \<noteq> other) (map fst opts)"
  by (induction opts) (auto simp: selector_options_def)

text \<open>
  The admin preview shows the colours: given entry lists that list entries of their
  maps, every swatch of a category shows that category's colour of its answer.
\<close>

lemma admin_swatches_colored:
  assumes "\<forall>cc. set (ce cc) \<subseteq> {(c, m). cc c = Some m}" "\<forall>m. set (ae m) \<subseteq> {(a, x). m a = Some x}"
    and "(lbl, sws) \<in> set (admin_color_preview ce ae cc)" "(a, bg) \<in> set sws"
  shows "\<exists>c. lbl = category_label c \<and> bg = color_at cc c a \<and> bg \<noteq> None"
proof -
  obtain c m where cm: "(c, m) \<in> set (ce cc)" and l: "lbl = category_label c"
    and s: "sws = map (\<lambda>(a, col). (a, css_background (CssString col))) (take 3 (ae m))"
    using assms(3) by (auto simp: admin_color_preview_def dest: in_set_takeD)
  obtain col where ac: "(a, col) \<in> set (ae m)" and b: "bg = Some col"
    using assms(4) s by (auto simp: css_background_def dest: in_set_takeD)
  have "cc c = Some m" using assms(1) cm by blast
  moreover have "m a = Some col" using assms(2) ac by blast
  ultimately have "bg = color_at cc c a" using b by (simp add: color_at_def)
  with l \<open>bg = Some col\<close> show ?thesis by blast
qed

text \<open>The test page's colour preview is headed by the theme names and all its swatches are blank.\<close>

lemma context_swatches_blank:
  "map fst (context_color_preview ce tc) = [''light'', ''dark''] \<and>
   (\<forall>(h, sws) \<in> set (context_color_preview ce tc). \<forall>(c, bg) \<in> set sws. bg = None)"
  by (auto simp: context_color_preview_def css_background_def underscores_to_spaces_def)

text \<open>Each quick action of the test page flips exactly its own line of the settings panel.\<close>

lemma context_actions_flip:
  "context_settings_panel (context_step CtxToggleDark s) =
     (enabled_text (\<not> isDarkMode s), snd (context_settings_panel s)) \<and>
   context_settings_panel (context_step CtxToggleTestData s) =
     (fst (context_settings_panel s), enabled_text (\<not> useTestData s), snd (snd (context_settings_panel s))) \<and>
   context_settings_panel (context_step CtxToggleAutoPlay s) =
     (fst (context_settings_panel s), fst (snd (context_settings_panel s)),
      enabled_text (\<not> isAutoPlayEnabled s), autoPlaySpeed s)"
  by (simp add: context_settings_panel_def)

end
