(* ===== verification/Spec2Isabelle.thy ===== *)
theory Spec2Isabelle
  imports Survey Sequencer Sankey DataFeed Settings Colors ChordCycle Chord Contrast AdminPage Login Highlight Handlers ApiTester ChordInsights VisualOrder SankeyInsights ChordStyle Previews
begin

text \<open>
  \<^bold>\<open>Med-Vis: a verification development.\<close>
  Med-Vis draws survey responses (tenure, learning style, what shaped the attendee,
  peak-performance descriptor, motivation) as a Sankey diagram
  (\<open>src/src/components/DataVisualization/AlluvialDiagram.tsx\<close>) and as a chord
  diagram (\<open>ChordDiagram.tsx\<close>). Both read their rows from the data hook
  \<open>shared/useVisualizationData.ts\<close> and their colours and switches from the settings
  context \<open>src/src/lib/context/AppContext.tsx\<close>, which the admin page
  \<open>src/src/app/admin/controls/page.tsx\<close> edits. This library is a shallow
  embedding: each component's state is a record, each handler or effect a HOL function
  on it, each thrown error an \<open>Inl\<close> value, and reachable states an inductive
  predicate over the component's steps. Every definition over strings, lists and
  naturals is executable. Those over reals (angles, luminance) are evaluated by
  \<open>simp\<close>.

  \<^bold>\<open>Theories.\<close>
  \<^item> \<open>Prelude\<close>: the JavaScript built-ins the code calls (\<open>indexOf\<close>,
    \<open>findIndex\<close>, \<open>arr[i]\<close> as an option, \<open>Array.from(new Set(xs))\<close>), and the
    counting lemma the graph builders share.
  \<^item> \<open>Survey\<close>: the field datatype, the response record, and the category resolver
    (\<open>getYearsCategory\<close> of \<open>colorUtils.ts\<close>, \<open>getValidYearsCategory\<close>).
  \<^item> \<open>Sequencer\<close>: the Sankey animation sequencer of \<open>AlluvialDiagram.tsx\<close>.
    It models \<open>animationRef\<close>, \<open>animate\<close> with its three timer
    continuations, the effect with its cleanup, the hover handlers and the selector.
    Pending \<open>setTimeout\<close> callbacks are an explicit list. An event is one handler
    followed by the React commit. The predicate \<open>seq_reach\<close> collects the reachable
    states. Its lemmas prove these properties:
    \<^item> at most one timer is ever pending;
    \<^item> source and target always differ;
    \<^item> the sequencer keeps ticking;
    \<^item> unmounting leaves no timer.
    They also prove the two defects the hover handlers have.
  \<^item> \<open>Sankey\<close>: the graph builder of \<open>AlluvialDiagram.tsx\<close>. It models the
    category lists, the link aggregation through an insertion-ordered map (an
    association list), the dummy nodes and links, their filtering, and the
    "most common flow" insight. Its lemmas prove three properties:
    \<^item> the drawn link weight equals the number of counted rows;
    \<^item> every link joins two nodes;
    \<^item> every node has a link.
  \<^item> \<open>DataFeed\<close>: \<open>useVisualizationData.ts\<close>. It models the row validation,
    the per-attendee dedupe, the load with its mock fallback and retry counter, and
    the realtime handler. Fetches and realtime messages are input values. The dedupe
    is proved to refine a map specification (attendee to latest response). The
    realtime handler upserts by row id, so a fresh row of a shown attendee is
    appended beside the old one.
  \<^item> \<open>Settings\<close>: \<open>AppContext.tsx\<close>, the colour picker of the admin page and
    \<open>QuestionSelector.tsx\<close>. Its lemmas prove three properties:
    \<^item> a colour update round-trips;
    \<^item> no colour is lost;
    \<^item> the picker forwards only hex colours.
  \<^item> \<open>Colors\<close>: the full light and dark palettes and the ordinal scales of
    \<open>colorUtils.ts\<close>, the sequential scale, the theme colour constants
    (\<open>getColorConstants\<close>), and both \<open>getNodeColor\<close> functions.
    \<open>interpolateRgb\<close> of d3 is a parameter. The two colourings agree on every
    colour the settings give; on an answer outside the built-in palette they fall
    back to different colours (the theme's surface, a fixed blue).
  \<^item> \<open>ChordCycle\<close>: the field-pair state machine of \<open>ChordDiagram.tsx\<close>. It
    models \<open>ensureDifferentCategories\<close>, the auto-cycling and rotation intervals,
    and the selector's \<open>onChange\<close>. \<open>cyclingModes\<close> comes from
    \<open>chordUtils\<close>, which the sources do not contain. It is a parameter, so the
    lemmas hold for every list of modes.
  \<^item> \<open>Chord\<close>: the main render effect of \<open>ChordDiagram.tsx\<close>. It models the
    category arrays, the totals, the connection matrix, the angular arc layout on the
    two half circles, and the ribbon loop. Reading a field of a missing arc is an
    \<open>Inl\<close> error. It also models the secondary years-by-peak-performance matrix.
    The effect's call \<open>processChordData(...)\<close> (line 373 of
    \<open>ChordDiagram.tsx\<close>) is left out: \<open>chordUtils\<close> is not in the sources and
    the effect never reads its result. Its lemmas characterise exactly when the effect
    throws (a positive matrix cell whose index has no arc), show that every ribbon
    joins the arcs at its sorted-category indices (so it is misplaced when the two
    orders differ), and that the minimum arc span pushes the arcs of a side past the
    end of their half circle when one answer is rare.
  \<^item> \<open>Contrast\<close>: \<open>getContrastRatio\<close> and \<open>isAccessible\<close> of
    \<open>colorUtils.ts\<close>. The regular-expression match \<open>/\d+/g\<close> is a
    \<open>while_option\<close> loop. It is proved to stop on every string and to return the
    digit runs of a recursive reference definition. Since only decimal digits are
    read, colours without a digit all read as black, and colours with one or two
    digit runs (black \<open>#000000\<close> among them) are never accessible.
  \<^item> \<open>AdminPage\<close>: the admin page's handlers and its colour pickers, each with its
    own text state. React keeps that state by key, so the model keeps it across
    re-renders. The settings reached through the page are proved well-typed: every
    colour is a hex colour, and the speed is a slider value.
  \<^item> \<open>Login\<close>: \<open>app/login/page.tsx\<close>. Each handler is split at its
    \<open>await\<close>, and the Supabase outcome is an input.
  \<^item> \<open>Highlight\<close>: the node and link opacities of the Sankey's highlighting
    effect, as functions of the sequencer state, and the opacities the render
    effect's own node and link handlers set. Composed with \<open>animate\<close>,
    exactly one source node is bright. The drawing animation of new links is proved
    never to play in a reachable state.
  \<^item> \<open>Handlers\<close>: which handlers the Sankey's node rectangles carry. The render
    effect and the hover effect of \<open>AlluvialDiagram.tsx\<close> both attach
    \<open>mouseenter\<close>/\<open>mouseleave\<close> to the same nodes; the later one wins.
    \<open>view_effects\<close> re-runs each effect when its dependency list changes, in
    source order. From every reachable state with data and an SVG, a settings change
    re-runs only the render effect, so its handlers, which do not pause the
    sequencer, replace the hover ones, and a later hover leaves the cycle running.
  \<^item> \<open>ApiTester\<close>: the Supabase test page \<open>app/test-supabase/page.tsx\<close>, its
    two buttons split at their \<open>await\<close>, with the shared loading flag and error.
  \<^item> \<open>VisualOrder\<close>: the \<open>sortedSources\<close> memo of \<open>AlluvialDiagram.tsx\<close>,
    the order the sequencer and the highlighting effect index. The d3-sankey layout is
    a parameter that returns its nodes with their heights. For every such layout the
    memo is a permutation of the source categories, so exactly one source node is
    bright while one is highlighted. The memo's graph is not the drawn one: it counts
    rows without a tenure, which the render drops.
    Its second copy, \<open>sortedSourcesForHighlight\<close>, is proved to agree with it for
    a positive chart size.
  \<^item> \<open>SankeyInsights\<close>: the Sankey's insights panel. Its labels are read back
    from node ids with \<open>split(':')[1]\<close>; this round-trips for names without a
    colon. With a counted row the most common flow is a drawn link between two
    categories. Without one it is a dummy link labelled \<open>undefined\<close>.
  \<^item> \<open>ChordInsights\<close>: the insights panel the chord render effect fills
    (\<open>totalConnections\<close>, \<open>strongestConnection\<close>). The total is proved to be
    the number of rows with both fields, and the strongest ribbon a maximal one.
  \<^item> \<open>ChordStyle\<close>: the drawing of both chords: fills of the secondary chord's
    groups and ribbons, and the placement, anchor, size and text of the labels. With
    at most six answers the tenure and answer palettes stay apart; a seventh answer
    wraps to the first tenure colour. Within the circle every label is upright.
    It also models the size guard and the geometry of the main chord: with one chord
    every accepted size holds the ring of arcs, beside the secondary chord it may not.
  \<^item> \<open>Previews\<close>: the option lists of both views and the selects of
    \<open>QuestionSelector.tsx\<close>, the admin page's labels and previews, and the test
    page \<open>app/test-context\<close>. The selectors and the admin page label every field
    alike. The admin colour preview shows the colours; the test page's preview lists
    the two themes and leaves every swatch blank. \<open>Object.entries\<close>' order is a
    parameter.
  \<^item> This theory: the properties that span components. These are the tenure band
    order, a simple rendered graph, the fact that every fed row is drawn in the
    Sankey, the fact that the feed never makes the chord view throw, and that its
    insights panel then reports as many connections as responses. It also shows
    that the theme colour constants fail the module's own contrast check.

  \<^bold>\<open>Bounds and fuel.\<close>
  Every loop of the code runs over a finite list, so its model is a structural
  \<open>fun\<close> or a \<open>fold\<close>, and none needs fuel. There is one exception: the global
  regex match. It is a \<open>while_option\<close> loop, and its termination is a theorem. Its
  reference, \<open>digit_runs\<close>, is a \<open>function\<close> whose termination follows from
  the length of the rest of the string. Timers and intervals are events:
  running forever is an unbounded event sequence, and the liveness statements
  quantify over its length. Angles are reals with \<open>Math.PI\<close> as \<open>pi\<close>. Counts
  are naturals. JavaScript's \<open>%\<close> on numbers is written out (\<open>js_rem\<close>).

  \<^bold>\<open>Not modelled.\<close>
  \<^item> d3's Sankey and chord layouts, and the SVG paths, gradients and
    transitions. Colours, label placement and tooltip texts of the chord views are
    modelled in \<open>ChordStyle\<close>; those of the Sankey view are not.
  \<^item> Routing and page shells. The test page \<open>app/test-chord\<close>: it only calls
    \<open>chordUtils\<close> and d3's chord layout, neither of which is in the sources.
  \<^item> The d3-sankey layout. The visual source order it yields is a parameter of
    \<open>Highlight\<close>.
  \<^item> Console logging.
  \<^item> The Supabase client, whose calls are inputs here.
  \<^item> \<open>interpolateColors\<close> of \<open>colorUtils.ts\<close>, a bare d3 call.
  \<^item> The styling of \<open>QuestionSelector.tsx\<close> and of the pages: class names and
    inline styles, with no state.
  \<^item> \<open>chordUtils\<close>, which is not part of the sources: its \<open>cyclingModes\<close>
    is a parameter, and the main chord effect's call of \<open>processChordData\<close>,
    whose result is unused, is assumed to return normally.
\<close>

text \<open>
  C10: the tenure bands are total and ordered: every tenure resolves to one of the five
  bands, and a larger tenure never lands in an earlier band, so sorting the band nodes
  by their position in the band list orders them by tenure.
\<close>

theorem tenure_bands_ordered:
  assumes "x \<le> y"
  shows "getYearsCategory x \<in> set YEARS_CATEGORIES \<and>
         js_index_of YEARS_CATEGORIES (getYearsCategory x) \<le> js_index_of YEARS_CATEGORIES (getYearsCategory y)"
  using getYearsCategory_mem [of x] band_rank_mono [OF assms] by (simp add: index_getYearsCategory)

theorem tenure_bands_ordered_witness:
  "getYearsCategory 3 \<in> set YEARS_CATEGORIES \<and>
   js_index_of YEARS_CATEGORIES (getYearsCategory 3) \<le> js_index_of YEARS_CATEGORIES (getYearsCategory (12::real))"
  by (rule tenure_bands_ordered) simp

text \<open>
  C15: in every state the sequencer can reach, the graph the Sankey render builds for the
  current field pair has pairwise distinct node ids and no link from a node to itself,
  whatever the data: the sequencer never lets the source and target fields coincide,
  and node ids carry their field.
\<close>

theorem render_graph_simple:
  assumes "seq_reach env s"
  shows "distinct (map node_id (fst (build_sankey data (currentSource s) (currentTarget s)))) \<and>
         list_all (\<lambda>l. link_source l \<noteq> link_target l) (snd (build_sankey data (currentSource s) (currentTarget s)))"
proof -
  have "currentSource s \<noteq> currentTarget s" using seq_reach_inv [OF assms] by (simp add: seq_inv_def)
  then show ?thesis using sankey_graph_simple by (simp add: list_all_iff)
qed

theorem render_graph_simple_witness:
  "distinct (map node_id (fst (build_sankey [] (currentSource (mount demo_env True 0))
                                              (currentTarget (mount demo_env True 0))))) \<and>
   list_all (\<lambda>l. link_source l \<noteq> link_target l)
     (snd (build_sankey [] (currentSource (mount demo_env True 0)) (currentTarget (mount demo_env True 0))))"
  by (rule render_graph_simple [OF seq_reach.mounted])

text \<open>
  C20: the feed and the Sankey render agree on the head count. In every state of the
  data hook (one load, then any realtime messages), for every field pair, the drawn
  Sankey links weigh exactly as many units as there are rows in the hook's data: the
  validation guarantees that no row is dropped by the render's filters.
\<close>

theorem feed_rows_all_drawn:
  assumes "feed_reach st"
  shows "sum_list (map link_value (filtered_links (snd (build_sankey (feed_data st) src tgt)))) =
         real (length (feed_data st))"
proof -
  have v: "validateResponse d" if "d \<in> set (feed_data st)" for d
    using feed_data_valid [OF assms] that by (simp add: list_all_iff)
  have f: "filtered_data (feed_data st) src tgt = feed_data st"
    unfolding filtered_data_def by (rule filter_True) (use v valid_present in blast)
  have "filter (counted src tgt (sorted_sources (feed_data st) src) (sorted_targets (feed_data st) tgt))
          (feed_data st) = feed_data st"
  proof (rule filter_True, rule ballI)
    fix d assume d: "d \<in> set (feed_data st)"
    with v valid_present show "counted src tgt (sorted_sources (feed_data st) src) (sorted_targets (feed_data st) tgt) d"
      by (simp add: counted_iff)
  qed
  with f show ?thesis by (simp add: sankey_drawn_weight)
qed

theorem feed_rows_all_drawn_witness:
  "sum_list (map link_value (filtered_links (snd (build_sankey (feed_data (feed_load (FetchOk mockData)))
      LearningStyle Motivation)))) = real (length (feed_data (feed_load (FetchOk mockData))))"
  by (rule feed_rows_all_drawn [OF feed_reach.loaded])

text \<open>
  C33: the feed never crashes the chord view. In every state of the data hook whose
  data is not empty, the chord render effect draws its arcs and ribbons for any field
  pair, settings and theme, without the \<open>TypeError\<close> of a ribbon whose arc is
  missing: validated rows have every field, so no \<open>Unknown\<close> category arises.
\<close>

theorem feed_chord_no_crash:
  assumes "feed_reach st" "feed_data st \<noteq> []"
  shows "\<exists>v. chord_render useTest colors dk src tgt (feed_data st) = Some (Inr v)"
  using chord_render_no_error [OF feed_data_valid [OF assms(1)] assms(2)] .

theorem feed_chord_no_crash_witness:
  "\<exists>v. chord_render False (categoryColors defaultSettings) False YearsAtMedtronic LearningStyle
      (feed_data (feed_load (FetchOk []))) = Some (Inr v)"
  by (rule feed_chord_no_crash [OF feed_reach.loaded])
     (simp add: feed_load_def feed_init_def fetchData_def fetch_start_def fetch_finish_def mockData_def)

text \<open>
  The theme constants of \<open>colorUtils.ts\<close> fail the module's own contrast check: for
  both themes, \<open>isAccessible\<close> rejects the default text colour of
  \<open>getColorConstants\<close> on its default background.
\<close>

lemma theme_constants_inaccessible:
  "\<not> isAccessible (cc_text_default (getColorConstants d)) (background_default (getColorConstants d))"
  by (cases d) (simp_all add: getColorConstants_def getThemeColors_def lightTheme_def darkTheme_def
      isAccessible_def getContrastRatio_def lum_white lum_0A0A0F lum_1A1A1A)

text \<open>
  C29: the chord insights panel agrees with the feed: in every state of the data hook
  with data, the render effect fills the panel (for any field pair, settings and
  theme), and its Total Connections, the sum of the ribbon values, equals its Total
  Responses, the number of rows shown, since every validated row has both fields of
  every pair and the matrix counts each such row once.
\<close>

theorem feed_insights_totals:
  assumes "feed_reach st" "feed_data st \<noteq> []"
  shows "\<exists>ins. chord_render_insights useTest colors dk src tgt (feed_data st) = Some ins \<and>
               total_connections ins = total_responses ins"
proof -
  obtain v where v: "chord_render useTest colors dk src tgt (feed_data st) = Some (Inr v)"
    using chord_render_no_error [OF feed_data_valid [OF assms(1)] assms(2)] by blast
  define ins where "ins = chord_insights_of (chord_filtered_data useTest (feed_data st)) src tgt (connections v)"
  have r: "chord_render_insights useTest colors dk src tgt (feed_data st) = Some ins"
    by (simp add: chord_render_insights_def v ins_def)
  have "list_all validateResponse (chord_filtered_data useTest (feed_data st))"
    using feed_data_valid [OF assms(1)] by (auto simp: chord_filtered_data_def list_all_iff)
  then have "filter (\<lambda>d. present (field_category src d) \<and> present (field_category tgt d))
               (chord_filtered_data useTest (feed_data st)) = chord_filtered_data useTest (feed_data st)"
    by (simp add: list_all_iff valid_present)
  with total_connections_rows [OF r] have "total_connections ins = length (chord_filtered_data useTest (feed_data st))"
    by simp
  with r show ?thesis by (simp add: ins_def chord_insights_of_def)
qed

theorem feed_insights_totals_witness:
  "\<exists>ins. chord_render_insights False (categoryColors defaultSettings) False YearsAtMedtronic LearningStyle
      (feed_data (feed_load (FetchOk []))) = Some ins \<and> total_connections ins = total_responses ins"
  by (rule feed_insights_totals [OF feed_reach.loaded])
     (simp add: feed_load_def feed_init_def fetchData_def fetch_start_def fetch_finish_def mockData_def)

end
